(* ===== verification/Prelude.thy ===== *)
theory Prelude
  imports Main
begin

text \<open>
  The shared base of the development.

  Effects of the Go code are explicit: a piece of code that talks to a connection, adds
  metric descriptions or sends metrics on a channel is a \<open>prog\<close>, a function from a
  state to an outcome. Three outcomes exist: \<open>Fine\<close> (the code went on, with a value and
  a new state), \<open>Panic\<close> (a Go run-time panic, which ends the process: index out of
  range, failed type assertion, the explicit \<open>panic\<close> of the source) and \<open>Hang\<close> (a
  loop that never ends). Error values of Go are ordinary values of the model.

  The Hoare triple \<open>holds P m Q\<close> says that from a state with \<open>P\<close> the program
  \<open>m\<close> does not panic, and if it returns it does so with \<open>Q\<close>; the rules for it are
  collected in \<open>hoare_rules\<close> and carry the safety proofs of all components.
\<close>

section \<open>Outcomes and programs\<close>

datatype 'a outcome = Fine 'a | Panic string | Hang

type_synonym ('s, 'a) prog = "'s \<Rightarrow> ('a \<times> 's) outcome"

named_theorems prog_defs "definitions of the program combinators, unfolded to run a program"
named_theorems hoare_rules "structural rules for Hoare triples"

definition ret :: "'a \<Rightarrow> ('s, 'a) prog" where
  "ret a = (\<lambda>s. Fine (a, s))"

definition bnd :: "('s, 'a) prog \<Rightarrow> ('a \<Rightarrow> ('s, 'b) prog) \<Rightarrow> ('s, 'b) prog" where
  "bnd m f = (\<lambda>s. case m s of Fine (a, s') \<Rightarrow> f a s' | Panic e \<Rightarrow> Panic e | Hang \<Rightarrow> Hang)"

definition andthen :: "('s, 'a) prog \<Rightarrow> ('s, 'b) prog \<Rightarrow> ('s, 'b) prog" where
  "andthen m n = bnd m (\<lambda>_. n)"

definition skip :: "('s, unit) prog" where
  "skip = ret ()"

definition panic :: "string \<Rightarrow> ('s, 'a) prog" where
  "panic e = (\<lambda>_. Panic e)"

definition gets :: "('s \<Rightarrow> 'a) \<Rightarrow> ('s, 'a) prog" where
  "gets f = (\<lambda>s. Fine (f s, s))"

definition modify :: "('s \<Rightarrow> 's) \<Rightarrow> ('s, unit) prog" where
  "modify f = (\<lambda>s. Fine ((), f s))"

definition act :: "('s \<Rightarrow> 'a \<times> 's) \<Rightarrow> ('s, 'a) prog" where
  "act f = (\<lambda>s. Fine (f s))"

text \<open>The \<open>if\<close> without \<open>else\<close>, a block of statements, and the \<open>for\<close> loop over
  a slice: with a body that always goes on, and with a body that may leave the function
  (\<open>True\<close>: the loop was left by \<open>return\<close> or \<open>break\<close>).\<close>

definition only_if :: "bool \<Rightarrow> ('s, unit) prog \<Rightarrow> ('s, unit) prog" where
  "only_if b m = (if b then m else skip)"

fun block :: "('s, unit) prog list \<Rightarrow> ('s, unit) prog" where
  "block [] = skip"
| "block (m # ms) = andthen m (block ms)"

fun for_each :: "('x \<Rightarrow> ('s, unit) prog) \<Rightarrow> 'x list \<Rightarrow> ('s, unit) prog" where
  "for_each f [] = skip"
| "for_each f (x # xs) = andthen (f x) (for_each f xs)"

fun for_until :: "('x \<Rightarrow> ('s, bool) prog) \<Rightarrow> 'x list \<Rightarrow> ('s, bool) prog" where
  "for_until f [] = ret False"
| "for_until f (x # xs) = bnd (f x) (\<lambda>stop. if stop then ret True else for_until f xs)"

text \<open>A loop that carries a local variable (an accumulator) from one iteration to the
  next.\<close>

fun for_fold :: "('a \<Rightarrow> 'x \<Rightarrow> ('s, 'a) prog) \<Rightarrow> 'a \<Rightarrow> 'x list \<Rightarrow> ('s, 'a) prog" where
  "for_fold f a [] = ret a"
| "for_fold f a (x # xs) = bnd (f a x) (\<lambda>a'. for_fold f a' xs)"

declare ret_def [prog_defs] bnd_def [prog_defs] andthen_def [prog_defs] skip_def [prog_defs]
  panic_def [prog_defs] gets_def [prog_defs] modify_def [prog_defs] act_def [prog_defs]
  only_if_def [prog_defs]

subsection \<open>Monad laws\<close>

lemma bnd_ret [simp]: "bnd (ret a) f = f a"
  by (simp add: ret_def bnd_def)

lemma bnd_ret_right [simp]: "bnd m ret = m"
  by (simp add: ret_def bnd_def fun_eq_iff split: outcome.splits prod.splits)

lemma bnd_assoc: "bnd (bnd m f) g = bnd m (\<lambda>a. bnd (f a) g)"
  by (simp add: bnd_def fun_eq_iff split: outcome.splits prod.splits)

lemma andthen_skip [simp]: "andthen skip m = m"
  by (simp add: andthen_def skip_def)

lemma andthen_skip_right [simp]: "andthen m skip = m"
  by (simp add: andthen_def skip_def bnd_def ret_def fun_eq_iff split: outcome.splits prod.splits)

lemma andthen_assoc: "andthen (andthen m n) k = andthen m (andthen n k)"
  by (simp add: andthen_def bnd_assoc)

lemma bnd_panic [simp]: "bnd (panic e) f = panic e"
  by (simp add: bnd_def panic_def)

lemma for_each_append:
  "for_each f (xs @ ys) = andthen (for_each f xs) (for_each f ys)"
  by (induction xs) (simp_all add: andthen_assoc)

section \<open>Hoare triples\<close>

definition holds ::
  "('s \<Rightarrow> bool) \<Rightarrow> ('s, 'a) prog \<Rightarrow> ('a \<Rightarrow> 's \<Rightarrow> bool) \<Rightarrow> bool" where
  "holds P m Q \<longleftrightarrow>
     (\<forall>s. P s \<longrightarrow> (case m s of Fine (a, s') \<Rightarrow> Q a s' | Panic _ \<Rightarrow> False | Hang \<Rightarrow> True))"

text \<open>The most used form: an invariant kept whatever the result is.\<close>

abbreviation keeps :: "('s \<Rightarrow> bool) \<Rightarrow> ('s, 'a) prog \<Rightarrow> bool" where
  "keeps I m \<equiv> holds I m (\<lambda>_. I)"

lemma holdsI:
  assumes "\<And>s. P s \<Longrightarrow> case m s of Fine (a, s') \<Rightarrow> Q a s' | Panic _ \<Rightarrow> False | Hang \<Rightarrow> True"
  shows "holds P m Q"
  using assms by (simp add: holds_def)

lemma holds_Fine: "holds P m Q \<Longrightarrow> P s \<Longrightarrow> m s = Fine (a, s') \<Longrightarrow> Q a s'"
  by (auto simp: holds_def dest!: spec [of _ s])

lemma holds_no_panic: "holds P m Q \<Longrightarrow> P s \<Longrightarrow> m s \<noteq> Panic e"
  by (auto simp: holds_def dest!: spec [of _ s])

lemma holds_pre: "holds P m Q \<Longrightarrow> (\<And>s. P' s \<Longrightarrow> P s) \<Longrightarrow> holds P' m Q"
  by (auto simp: holds_def)

lemma holds_post:
  assumes "holds P m Q" and "\<And>a s. Q a s \<Longrightarrow> Q' a s"
  shows "holds P m Q'"
proof (rule holdsI)
  fix s assume "P s"
  with assms show "case m s of Fine (a, s') \<Rightarrow> Q' a s' | Panic _ \<Rightarrow> False | Hang \<Rightarrow> True"
    by (auto simp: holds_def dest!: spec [of _ s] split: outcome.splits)
qed

lemma holds_bnd:
  assumes "holds P m Q" and "\<And>a. holds (Q a) (f a) R"
  shows "holds P (bnd m f) R"
proof (rule holdsI)
  fix s assume s: "P s"
  show "case bnd m f s of Fine (a, s') \<Rightarrow> R a s' | Panic _ \<Rightarrow> False | Hang \<Rightarrow> True"
  proof (cases "m s")
    case (Fine r)
    obtain a s' where r: "r = (a, s')" by (cases r)
    with Fine have "m s = Fine (a, s')" by simp
    with assms(1) s have "Q a s'" by (rule holds_Fine)
    with assms(2) [of a] Fine r show ?thesis by (simp add: holds_def bnd_def)
  next
    case (Panic e)
    with holds_no_panic [OF assms(1) s, of e] show ?thesis by simp
  next
    case Hang
    then show ?thesis by (simp add: bnd_def)
  qed
qed

lemma holds_andthen: "holds P m (\<lambda>_. Q) \<Longrightarrow> holds Q n R \<Longrightarrow> holds P (andthen m n) R"
  unfolding andthen_def by (rule holds_bnd)

lemma holds_assume: "(A \<Longrightarrow> holds P m Q) \<Longrightarrow> holds (\<lambda>s. A \<and> P s) m Q"
  by (auto simp: holds_def)

lemma holds_ret: "(\<And>s. P s \<Longrightarrow> Q a s) \<Longrightarrow> holds P (ret a) Q"
  by (simp add: holds_def ret_def)

subsection \<open>The rules for invariants\<close>

lemma keeps_ret [hoare_rules]: "keeps I (ret a)"
  by (simp add: holds_def ret_def)

lemma keeps_skip [hoare_rules]: "keeps I skip"
  by (simp add: skip_def keeps_ret)

lemma holds_bnd_keeps [hoare_rules]:
  "keeps P m \<Longrightarrow> (\<And>a. holds P (f a) R) \<Longrightarrow> holds P (bnd m f) R"
  by (rule holds_bnd)

lemma holds_andthen_keeps [hoare_rules]: "keeps P m \<Longrightarrow> holds P n R \<Longrightarrow> holds P (andthen m n) R"
  unfolding andthen_def by (rule holds_bnd)

lemma keeps_gets [hoare_rules]: "keeps I (gets f)"
  by (simp add: holds_def gets_def)

lemma keeps_only_if [hoare_rules]: "(b \<Longrightarrow> keeps I m) \<Longrightarrow> keeps I (only_if b m)"
  by (simp add: only_if_def keeps_skip)

lemma holds_if [hoare_rules]:
  "(b \<Longrightarrow> holds P m Q) \<Longrightarrow> (\<not> b \<Longrightarrow> holds P n Q) \<Longrightarrow> holds P (if b then m else n) Q"
  by simp

lemma holds_case_sum [hoare_rules]:
  "(\<And>e. r = Inl e \<Longrightarrow> holds P (f e) Q) \<Longrightarrow> (\<And>x. r = Inr x \<Longrightarrow> holds P (g x) Q) \<Longrightarrow>
   holds P (case r of Inl e \<Rightarrow> f e | Inr x \<Rightarrow> g x) Q"
  by (cases r) simp_all

lemma holds_case_option [hoare_rules]:
  "(r = None \<Longrightarrow> holds P m Q) \<Longrightarrow> (\<And>x. r = Some x \<Longrightarrow> holds P (g x) Q) \<Longrightarrow>
   holds P (case r of None \<Rightarrow> m | Some x \<Rightarrow> g x) Q"
  by (cases r) simp_all

lemma holds_case_prod [hoare_rules]:
  "(\<And>x y. p = (x, y) \<Longrightarrow> holds P (f x y) Q) \<Longrightarrow> holds P (case p of (x, y) \<Rightarrow> f x y) Q"
  by (cases p) simp

lemma holds_case_list [hoare_rules]:
  "(xs = [] \<Longrightarrow> holds P m Q) \<Longrightarrow> (\<And>y ys. xs = y # ys \<Longrightarrow> holds P (f y ys) Q) \<Longrightarrow>
   holds P (case xs of [] \<Rightarrow> m | y # ys \<Rightarrow> f y ys) Q"
  by (cases xs) simp_all

lemma keeps_block [hoare_rules]:
  "(\<And>m. m \<in> set ms \<Longrightarrow> keeps I m) \<Longrightarrow> keeps I (block ms)"
  by (induction ms) (auto intro: keeps_skip holds_andthen_keeps)

lemma keeps_for_each [hoare_rules]:
  "(\<And>x. x \<in> set xs \<Longrightarrow> keeps I (f x)) \<Longrightarrow> keeps I (for_each f xs)"
  by (induction xs) (auto intro: keeps_skip holds_andthen_keeps)

lemma keeps_for_until [hoare_rules]:
  "(\<And>x. x \<in> set xs \<Longrightarrow> keeps I (f x)) \<Longrightarrow> keeps I (for_until f xs)"
proof (induction xs)
  case Nil
  show ?case by (simp add: keeps_ret)
next
  case (Cons x xs)
  then have "keeps I (f x)" and "keeps I (for_until f xs)" by simp_all
  then show ?case by (auto intro!: holds_bnd_keeps keeps_ret)
qed

lemma keeps_for_fold [hoare_rules]:
  "(\<And>a x. x \<in> set xs \<Longrightarrow> keeps I (f a x)) \<Longrightarrow> keeps I (for_fold f a xs)"
  by (induction xs arbitrary: a) (auto intro!: keeps_ret holds_bnd_keeps)

text \<open>A loop with an accumulator, with an assertion on the part of the list done so far.\<close>

lemma holds_for_fold:
  assumes "\<And>ys a x zs. xs = ys @ x # zs \<Longrightarrow> holds (J ys a) (f a x) (J (ys @ [x]))"
  shows "holds (J [] a) (for_fold f a xs) (J xs)"
proof -
  have rest: "holds (J ys a) (for_fold f a zs) (J xs)" if "xs = ys @ zs" for ys zs
    using that
  proof (induction zs arbitrary: ys a)
    case Nil
    then show ?case by (simp add: holds_ret)
  next
    case (Cons x zs)
    then have "holds (J ys a) (f a x) (J (ys @ [x]))" by (intro assms) simp
    then show ?case
      unfolding for_fold.simps by (rule holds_bnd) (use Cons in simp)
  qed
  show ?thesis using rest [of "[]" xs] by simp
qed

lemma holds_for_each:
  assumes "\<And>ys x zs. xs = ys @ x # zs \<Longrightarrow> holds (J ys) (f x) (\<lambda>_. J (ys @ [x]))"
  shows "holds (J []) (for_each f xs) (\<lambda>_. J xs)"
proof -
  have "holds (J ys) (for_each f zs) (\<lambda>_. J xs)" if "xs = ys @ zs" for ys zs
    using that
  proof (induction zs arbitrary: ys)
    case Nil
    then show ?case by (simp add: skip_def holds_ret)
  next
    case (Cons x zs)
    then have "holds (J ys) (f x) (\<lambda>_. J (ys @ [x]))" by (intro assms) simp
    then show ?case
      unfolding for_each.simps andthen_def by (rule holds_bnd) (use Cons in simp)
  qed
  from this [of "[]" xs] show ?thesis by simp
qed

text \<open>Programs that end on every state, in whatever way.\<close>

named_theorems finish_rules "structural rules for programs that end"

definition finishes :: "('s, 'a) prog \<Rightarrow> bool" where
  "finishes m \<longleftrightarrow> (\<forall>s. m s \<noteq> Hang)"

lemma finishes_Fine:
  assumes "finishes m" and "holds P m Q" and "P s"
  shows "\<exists>a s'. m s = Fine (a, s') \<and> Q a s'"
proof (cases "m s")
  case (Fine r)
  with holds_Fine [OF assms(2,3), of "fst r" "snd r"] show ?thesis by (cases r) simp
next
  case (Panic e)
  with holds_no_panic [OF assms(2,3), of e] show ?thesis by simp
next
  case Hang
  with assms(1) show ?thesis by (simp add: finishes_def)
qed

lemma finishes_basic [finish_rules]:
  "finishes (ret a)" "finishes skip" "finishes (panic e)" "finishes (gets f)" "finishes (modify g)"
  "finishes (act h)"
  by (simp_all add: finishes_def prog_defs)

lemma finishes_bnd [finish_rules]: "finishes m \<Longrightarrow> (\<And>a. finishes (f a)) \<Longrightarrow> finishes (bnd m f)"
  by (auto simp: finishes_def bnd_def split: outcome.splits)

lemma finishes_andthen [finish_rules]: "finishes m \<Longrightarrow> finishes n \<Longrightarrow> finishes (andthen m n)"
  unfolding andthen_def by (rule finishes_bnd)

lemma finishes_only_if [finish_rules]: "finishes m \<Longrightarrow> finishes (only_if b m)"
  by (simp add: only_if_def finishes_basic)

lemma finishes_if [finish_rules]: "finishes m \<Longrightarrow> finishes n \<Longrightarrow> finishes (if b then m else n)"
  by simp

lemma finishes_case_sum [finish_rules]:
  "(\<And>x. finishes (f x)) \<Longrightarrow> (\<And>x. finishes (g x)) \<Longrightarrow>
   finishes (case r of Inl x \<Rightarrow> f x | Inr x \<Rightarrow> g x)"
  by (cases r) simp_all

lemma finishes_case_option [finish_rules]:
  "finishes m \<Longrightarrow> (\<And>x. finishes (g x)) \<Longrightarrow> finishes (case r of None \<Rightarrow> m | Some x \<Rightarrow> g x)"
  by (cases r) simp_all

lemma finishes_case_prod [finish_rules]:
  "(\<And>x y. finishes (f x y)) \<Longrightarrow> finishes (case p of (x, y) \<Rightarrow> f x y)"
  by (cases p) simp

lemma finishes_case_list [finish_rules]:
  "finishes m \<Longrightarrow> (\<And>y ys. finishes (f y ys)) \<Longrightarrow> finishes (case xs of [] \<Rightarrow> m | y # ys \<Rightarrow> f y ys)"
  by (cases xs) simp_all

lemma finishes_block [finish_rules]: "list_all finishes ms \<Longrightarrow> finishes (block ms)"
  by (induction ms) (simp_all add: finish_rules)

lemma finishes_list_all [finish_rules]:
  "list_all finishes []" "finishes m \<Longrightarrow> list_all finishes ms \<Longrightarrow> list_all finishes (m # ms)"
  by simp_all

lemma finishes_for_each [finish_rules]: "(\<And>x. finishes (f x)) \<Longrightarrow> finishes (for_each f xs)"
  by (induction xs) (simp_all add: finish_rules)

lemma finishes_for_until [finish_rules]: "(\<And>x. finishes (f x)) \<Longrightarrow> finishes (for_until f xs)"
  by (induction xs) (simp_all add: finish_rules)

lemma finishes_for_fold [finish_rules]: "(\<And>a x. finishes (f a x)) \<Longrightarrow> finishes (for_fold f a xs)"
  by (induction xs arbitrary: a) (simp_all add: finish_rules)

lemma bnd_Fine: "bnd m f s = Fine (b, s'') \<longleftrightarrow> (\<exists>a s'. m s = Fine (a, s') \<and> f a s' = Fine (b, s''))"
  by (auto simp: bnd_def split: outcome.splits)

lemma bnd_Panic: "bnd m f s = Panic msg \<longleftrightarrow> m s = Panic msg \<or> (\<exists>a s'. m s = Fine (a, s') \<and> f a s' = Panic msg)"
  by (auto simp: bnd_def split: outcome.splits)

text \<open>A fact about the result alone, whenever the program returns; it may also panic.\<close>

named_theorems returns_rules "structural rules for facts about results"

definition returns :: "('s, 'a) prog \<Rightarrow> ('a \<Rightarrow> bool) \<Rightarrow> bool" where
  "returns m Q \<longleftrightarrow> (\<forall>s a s'. m s = Fine (a, s') \<longrightarrow> Q a)"

lemma returnsD: "returns m Q \<Longrightarrow> m s = Fine (a, s') \<Longrightarrow> Q a"
  by (auto simp: returns_def)

lemma returns_ret [returns_rules]: "Q a \<Longrightarrow> returns (ret a) Q"
  by (simp add: returns_def ret_def)

lemma returns_panic [returns_rules]: "returns (panic e) Q"
  by (simp add: returns_def panic_def)

lemma returns_bnd: "returns m P \<Longrightarrow> (\<And>a. P a \<Longrightarrow> returns (f a) Q) \<Longrightarrow> returns (bnd m f) Q"
  by (fastforce simp: returns_def bnd_def split: outcome.splits prod.splits)

lemma returns_bnd_any [returns_rules]: "(\<And>a. returns (f a) Q) \<Longrightarrow> returns (bnd m f) Q"
  by (rule returns_bnd [where P = "\<lambda>_. True"]) (simp_all add: returns_def)

lemma returns_andthen [returns_rules]: "returns n Q \<Longrightarrow> returns (andthen m n) Q"
  unfolding andthen_def by (rule returns_bnd_any)

lemma returns_if [returns_rules]: "returns m Q \<Longrightarrow> returns n Q \<Longrightarrow> returns (if b then m else n) Q"
  by simp

lemma returns_case_option [returns_rules]:
  "returns m Q \<Longrightarrow> (\<And>x. returns (g x) Q) \<Longrightarrow> returns (case r of None \<Rightarrow> m | Some x \<Rightarrow> g x) Q"
  by (cases r) simp_all

lemma returns_case_prod [returns_rules]:
  "(\<And>x y. returns (f x y) Q) \<Longrightarrow> returns (case p of (x, y) \<Rightarrow> f x y) Q"
  by (cases p) simp

lemma returns_for_fold:
  assumes "\<And>a x. x \<in> set xs \<Longrightarrow> returns (f a x) (\<lambda>b. h b = g (h a) x)"
  shows "returns (for_fold f a xs) (\<lambda>b. h b = foldl g (h a) xs)"
  using assms
proof (induction xs arbitrary: a)
  case Nil
  show ?case by (simp add: returns_ret)
next
  case (Cons x xs)
  have "returns (f a x) (\<lambda>b. h b = g (h a) x)" by (rule Cons.prems) simp
  then show ?case
    unfolding for_fold.simps
  proof (rule returns_bnd)
    fix b assume b: "h b = g (h a) x"
    have "returns (for_fold f b xs) (\<lambda>c. h c = foldl g (h b) xs)"
      by (rule Cons.IH) (simp add: Cons.prems)
    with b show "returns (for_fold f b xs) (\<lambda>c. h c = foldl g (h a) (x # xs))" by simp
  qed
qed

section \<open>Lists\<close>

fun indexed :: "nat \<Rightarrow> 'a list \<Rightarrow> (nat \<times> 'a) list" where
  "indexed n [] = []"
| "indexed n (x # xs) = (n, x) # indexed (Suc n) xs"

lemma length_indexed [simp]: "length (indexed n xs) = length xs"
  by (induction xs arbitrary: n) simp_all

lemma map_snd_indexed [simp]: "map snd (indexed n xs) = xs"
  by (induction xs arbitrary: n) simp_all

text \<open>An index expression \<open>xs[i]\<close> of Go: \<open>None\<close> stands for the run-time panic.\<close>

definition index :: "'a list \<Rightarrow> nat \<Rightarrow> 'a option" where
  "index xs i = (if i < length xs then Some (xs ! i) else None)"

lemma index_Some_iff: "index xs i = Some x \<longleftrightarrow> i < length xs \<and> xs ! i = x"
  by (auto simp: index_def)

definition at_index :: "'a list \<Rightarrow> nat \<Rightarrow> ('a \<Rightarrow> ('s, 'b) prog) \<Rightarrow> ('s, 'b) prog" where
  "at_index xs i f = (case index xs i of Some x \<Rightarrow> f x | None \<Rightarrow> panic ''index out of range'')"

lemma holds_at_index [hoare_rules]:
  "i < length xs \<Longrightarrow> holds P (f (xs ! i)) Q \<Longrightarrow> holds P (at_index xs i f) Q"
  by (simp add: at_index_def index_def)

lemma finishes_at_index [finish_rules]: "(\<And>x. finishes (f x)) \<Longrightarrow> finishes (at_index xs i f)"
  by (simp add: at_index_def finish_rules split: option.split)

section \<open>Maps as Go uses them\<close>

text \<open>A Go map is modelled by the association list of its entries, in the order in which
  \<open>range\<close> happens to visit them; Go leaves that order open, so code that ranges over a map
  takes the order as a parameter, a function that permutes the entries. A read of an absent
  key gives the zero value.\<close>

fun put :: "'k \<Rightarrow> 'v \<Rightarrow> ('k \<times> 'v) list \<Rightarrow> ('k \<times> 'v) list" where
  "put k v [] = [(k, v)]"
| "put k v ((k', v') # m) = (if k = k' then (k, v) # m else (k', v') # put k v m)"

definition get_or :: "'v \<Rightarrow> ('k \<times> 'v) list \<Rightarrow> 'k \<Rightarrow> 'v" where
  "get_or d m k = (case map_of m k of Some v \<Rightarrow> v | None \<Rightarrow> d)"

lemma map_of_put [simp]: "map_of (put k v m) = (map_of m)(k \<mapsto> v)"
  by (induction m) (auto simp: fun_upd_twist)

lemma keys_put [simp]: "fst ` set (put k v m) = insert k (fst ` set m)"
  by (simp flip: dom_map_of_conv_image_fst)

lemma distinct_put [simp]: "distinct (map fst m) \<Longrightarrow> distinct (map fst (put k v m))"
proof (induction m)
  case Nil
  then show ?case by simp
next
  case (Cons p m)
  obtain k' v' where p: "p = (k', v')" by (cases p)
  have "set (map fst (put k v m)) = insert k (set (map fst m))"
    using keys_put [of k v m] by simp
  with Cons p show ?case by auto
qed

end
