(* ===== verification/GoStrings.thy ===== *)
theory GoStrings
  imports Prelude "HOL-Library.Char_ord" "HOL-Library.List_Lexorder"
begin

text \<open>
  The part of Go's \<open>strings\<close>, \<open>strconv\<close>, \<open>unicode/utf8\<close> and \<open>net/url\<close> the exporter
  uses. A Go string is a sequence of bytes, a \<open>string\<close> (\<open>char list\<close>) here. A 64-bit
  integer is an \<open>int\<close>; parsing checks the range and arithmetic wraps by \<open>wrap64\<close>.
\<close>

section \<open>Prefixes, searching, splitting\<close>

definition has_prefix :: "string \<Rightarrow> string \<Rightarrow> bool" where
  "has_prefix s p \<longleftrightarrow> take (length p) s = p"

definition has_suffix :: "string \<Rightarrow> string \<Rightarrow> bool" where
  "has_suffix s p \<longleftrightarrow> has_prefix (rev s) (rev p)"

definition trim_prefix :: "string \<Rightarrow> string \<Rightarrow> string" where
  "trim_prefix s p = (if has_prefix s p then drop (length p) s else s)"

fun go_contains :: "string \<Rightarrow> string \<Rightarrow> bool" where
  "go_contains [] sub \<longleftrightarrow> sub = []"
| "go_contains (c # cs) sub \<longleftrightarrow> has_prefix (c # cs) sub \<or> go_contains cs sub"

text \<open>\<open>strings.Split\<close> and \<open>strings.SplitN(s, sep, 2)\<close> for a separator that is not
  empty (the exporter uses no other).\<close>

fun go_split :: "string \<Rightarrow> string \<Rightarrow> string list" where
  "go_split [] sep = [[]]"
| "go_split (c # cs) sep =
     (if has_prefix (c # cs) sep then [] # go_split (drop (length sep - 1) cs) sep
      else (case go_split cs sep of [] \<Rightarrow> [[c]] | h # t \<Rightarrow> (c # h) # t))"

fun go_cut :: "string \<Rightarrow> string \<Rightarrow> (string \<times> string) option" where
  "go_cut [] sep = None"
| "go_cut (c # cs) sep =
     (if has_prefix (c # cs) sep then Some ([], drop (length sep - 1) cs)
      else map_option (\<lambda>(a, b). (c # a, b)) (go_cut cs sep))"

fun go_join :: "string list \<Rightarrow> string \<Rightarrow> string" where
  "go_join [] sep = []"
| "go_join [x] sep = x"
| "go_join (x # y # ys) sep = x @ sep @ go_join (y # ys) sep"

fun replace_all :: "string \<Rightarrow> string \<Rightarrow> string \<Rightarrow> string" where
  "replace_all [] old new = []"
| "replace_all (c # cs) old new =
     (if has_prefix (c # cs) old then new @ replace_all (drop (length old - 1) cs) old new
      else c # replace_all cs old new)"

lemma has_prefix_iff: "has_prefix s p \<longleftrightarrow> (\<exists>t. s = p @ t)"
  by (metis append_eq_conv_conj append_take_drop_id has_prefix_def)

lemma has_prefix_append [simp]: "has_prefix (p @ s) p"
  by (simp add: has_prefix_def)

lemma has_prefix_single [simp]: "has_prefix (c # cs) [d] \<longleftrightarrow> c = d"
  by (simp add: has_prefix_def)

lemma has_prefix_Nil [simp]: "has_prefix s []"
  by (simp add: has_prefix_def)

lemma trim_prefix_append [simp]: "trim_prefix (p @ s) p = s"
  by (simp add: trim_prefix_def)

lemma go_split_ne [simp]: "go_split s sep \<noteq> []"
  by (cases s) (auto split: list.splits)

lemma length_go_split_pos [simp]: "0 < length (go_split s sep)"
  by simp

lemma go_join_Cons: "xs \<noteq> [] \<Longrightarrow> go_join (x # xs) sep = x @ sep @ go_join xs sep"
  by (cases xs) simp_all

lemma go_join_head: "go_join ((c # h) # t) sep = c # go_join (h # t) sep"
  by (cases t) simp_all

text \<open>Splitting loses nothing: joining the fields with the separator gives the string
  back.\<close>

lemma join_split: "sep \<noteq> [] \<Longrightarrow> go_join (go_split s sep) sep = s"
proof (induction s sep rule: go_split.induct)
  case (1 sep)
  then show ?case by simp
next
  case (2 c cs sep)
  show ?case
  proof (cases "has_prefix (c # cs) sep")
    case True
    then obtain t where t: "c # cs = sep @ t" by (auto simp: has_prefix_iff)
    with \<open>sep \<noteq> []\<close> have "drop (length sep - 1) cs = t" and "c = hd sep" and "cs = tl sep @ t"
      by (cases sep; simp)+
    with True t 2 show ?thesis by (simp add: go_join_Cons)
  next
    case False
    with 2 show ?thesis
      by (cases "go_split cs sep") (auto simp: go_join_head)
  qed
qed

text \<open>For a separator of one character the fields are the maximal parts without it.\<close>

lemma split_fields: "f \<in> set (go_split s [d]) \<Longrightarrow> d \<notin> set f"
proof (induction s arbitrary: f)
  case Nil
  then show ?case by simp
next
  case (Cons c cs)
  then show ?case
    by (cases "go_split cs [d]") (auto split: if_splits)
qed

lemma split_none: "d \<notin> set s \<Longrightarrow> go_split s [d] = [s]"
  by (induction s) auto

lemma split_append: "d \<notin> set x \<Longrightarrow> go_split (x @ d # s) [d] = x # go_split s [d]"
  by (induction x) auto

lemma split_join:
  "xs \<noteq> [] \<Longrightarrow> (\<And>x. x \<in> set xs \<Longrightarrow> d \<notin> set x) \<Longrightarrow> go_split (go_join xs [d]) [d] = xs"
proof (induction xs)
  case Nil
  then show ?case by simp
next
  case (Cons x xs)
  then show ?case
    by (cases "xs = []") (simp_all add: split_none split_append go_join_Cons)
qed

lemma cut_char:
  "go_cut s [d] = (if d \<in> set s then Some (takeWhile (\<lambda>c. c \<noteq> d) s, tl (dropWhile (\<lambda>c. c \<noteq> d) s))
                   else None)"
  by (induction s) auto

lemma contains_char: "go_contains s [d] \<longleftrightarrow> d \<in> set s"
  by (induction s) auto

lemma replace_all_id: "\<not> go_contains s old \<Longrightarrow> replace_all s old new = s"
  by (induction s old new rule: replace_all.induct) auto

section \<open>UTF-8\<close>

text \<open>The number of bytes \<open>utf8.DecodeRuneInString\<close> consumes: the width of a valid
  encoding, 1 for an invalid byte (Go reads it as the replacement rune).\<close>

definition byte :: "char \<Rightarrow> int" where
  "byte c = of_char c"

lemma byte_range: "0 \<le> byte c \<and> byte c < 256"
proof -
  have "byte c mod 256 = byte c" by (simp add: byte_def)
  then show ?thesis using pos_mod_bound [of 256 "byte c"] pos_mod_sign [of 256 "byte c"] by linarith
qed

lemma char_of_byte [simp]: "char_of (byte c) = c"
  by (simp add: byte_def)

definition cont_byte :: "char \<Rightarrow> bool" where
  "cont_byte c \<longleftrightarrow> 0x80 \<le> byte c \<and> byte c \<le> 0xBF"

definition rune_width :: "string \<Rightarrow> nat" where
  "rune_width s =
     (case s of
        [] \<Rightarrow> 0
      | [a] \<Rightarrow> 1
      | [a, b] \<Rightarrow>
          if 0xC2 \<le> byte a \<and> byte a \<le> 0xDF \<and> cont_byte b then 2 else 1
      | [a, b, c] \<Rightarrow>
          if 0xC2 \<le> byte a \<and> byte a \<le> 0xDF \<and> cont_byte b then 2
          else if 0xE0 \<le> byte a \<and> byte a \<le> 0xEF \<and> cont_byte b \<and> cont_byte c
                  \<and> (byte a = 0xE0 \<longrightarrow> 0xA0 \<le> byte b) \<and> (byte a = 0xED \<longrightarrow> byte b \<le> 0x9F) then 3
          else 1
      | a # b # c # d # _ \<Rightarrow>
          if 0xC2 \<le> byte a \<and> byte a \<le> 0xDF \<and> cont_byte b then 2
          else if 0xE0 \<le> byte a \<and> byte a \<le> 0xEF \<and> cont_byte b \<and> cont_byte c
                  \<and> (byte a = 0xE0 \<longrightarrow> 0xA0 \<le> byte b) \<and> (byte a = 0xED \<longrightarrow> byte b \<le> 0x9F) then 3
          else if 0xF0 \<le> byte a \<and> byte a \<le> 0xF4 \<and> cont_byte b \<and> cont_byte c \<and> cont_byte d
                  \<and> (byte a = 0xF0 \<longrightarrow> 0x90 \<le> byte b) \<and> (byte a = 0xF4 \<longrightarrow> byte b \<le> 0x8F) then 4
          else 1)"

lemma rune_width_pos: "0 < rune_width (c # cs)"
  by (simp add: rune_width_def split: list.split)

section \<open>White space\<close>

definition ascii_space :: "char \<Rightarrow> bool" where
  "ascii_space c \<longleftrightarrow> byte c \<in> {9, 10, 11, 12, 13, 32}"

text \<open>The encodings of the runes \<open>unicode.IsSpace\<close> accepts.\<close>

definition space_runes :: "string list" where
  "space_runes =
     map (map char_of) ([[9], [10], [11], [12], [13], [32], [0xC2, 0x85], [0xC2, 0xA0],
       [0xE1, 0x9A, 0x80], [0xE2, 0x80, 0x80], [0xE2, 0x80, 0x81], [0xE2, 0x80, 0x82],
       [0xE2, 0x80, 0x83], [0xE2, 0x80, 0x84], [0xE2, 0x80, 0x85], [0xE2, 0x80, 0x86],
       [0xE2, 0x80, 0x87], [0xE2, 0x80, 0x88], [0xE2, 0x80, 0x89], [0xE2, 0x80, 0x8A],
       [0xE2, 0x80, 0xA8], [0xE2, 0x80, 0xA9], [0xE2, 0x80, 0xAF], [0xE2, 0x81, 0x9F],
       [0xE3, 0x80, 0x80]] :: int list list)"

text \<open>The width of the white-space rune a string starts with, 0 if it starts with none.\<close>

definition space_width :: "string list \<Rightarrow> string \<Rightarrow> nat" where
  "space_width spaces s =
     (case filter (has_prefix s) spaces of [] \<Rightarrow> 0 | w # _ \<Rightarrow> length w)"

fun strip_left :: "string list \<Rightarrow> string \<Rightarrow> string" where
  "strip_left spaces [] = []"
| "strip_left spaces (c # cs) =
     (let n = space_width spaces (c # cs)
      in if n = 0 then c # cs else strip_left spaces (drop (n - 1) cs))"

definition trim_space :: "string \<Rightarrow> string" where
  "trim_space s =
     rev (strip_left (map rev space_runes) (rev (strip_left space_runes s)))"

text \<open>\<open>strings.Fields\<close>: the maximal parts without white space. The accumulator is the
  field being read.\<close>

fun fields_from :: "string \<Rightarrow> string \<Rightarrow> string list" where
  "fields_from acc [] = (if acc = [] then [] else [acc])"
| "fields_from acc (c # cs) =
     (let n = space_width space_runes (c # cs)
      in if n = 0 then fields_from (acc @ [c]) cs
         else (if acc = [] then [] else [acc]) @ fields_from [] (drop (n - 1) cs))"

definition go_fields :: "string \<Rightarrow> string list" where
  "go_fields s = fields_from [] s"

section \<open>Integers\<close>

datatype num_error = ErrSyntax | ErrRange

definition is_digit :: "char \<Rightarrow> bool" where
  "is_digit c \<longleftrightarrow> 48 \<le> byte c \<and> byte c \<le> 57"

definition digit_val :: "char \<Rightarrow> int" where
  "digit_val c = byte c - 48"

definition digits_val :: "string \<Rightarrow> int" where
  "digits_val s = foldl (\<lambda>n c. 10 * n + digit_val c) 0 s"

definition max_int64 :: int where "max_int64 = 2 ^ 63 - 1"
definition min_int64 :: int where "min_int64 = - (2 ^ 63)"
definition max_uint64 :: int where "max_uint64 = 2 ^ 64 - 1"

text \<open>\<open>strconv.ParseUint(s, 10, 64)\<close> and \<open>strconv.ParseInt(s, 10, 64)\<close> return a
  value and an error; on \<open>ErrRange\<close> the value is the nearest bound, on \<open>ErrSyntax\<close> it
  is 0. On a 64-bit target \<open>strconv.Atoi\<close> and the bit size 0 mean the same.\<close>

definition parse_uint :: "string \<Rightarrow> int \<times> num_error option" where
  "parse_uint s =
     (if s = [] \<or> \<not> list_all is_digit s then (0, Some ErrSyntax)
      else let n = digits_val s
           in if n \<le> max_uint64 then (n, None) else (max_uint64, Some ErrRange))"

definition parse_int :: "string \<Rightarrow> int \<times> num_error option" where
  "parse_int s =
     (let neg = has_prefix s ''-'';
          body = (if has_prefix s ''-'' \<or> has_prefix s ''+'' then tl s else s)
      in if body = [] \<or> \<not> list_all is_digit body then (0, Some ErrSyntax)
         else let n = digits_val body
              in if neg then (if - n < min_int64 then (min_int64, Some ErrRange) else (- n, None))
                 else (if max_int64 < n then (max_int64, Some ErrRange) else (n, None)))"

abbreviation atoi :: "string \<Rightarrow> int \<times> num_error option" where
  "atoi \<equiv> parse_int"

definition wrap64 :: "int \<Rightarrow> int" where
  "wrap64 x = (x + 2 ^ 63) mod 2 ^ 64 - 2 ^ 63"

definition wrapu64 :: "int \<Rightarrow> int" where
  "wrapu64 x = x mod 2 ^ 64"

lemma wrap64_range: "min_int64 \<le> wrap64 x \<and> wrap64 x \<le> max_int64"
  by (simp add: wrap64_def min_int64_def max_int64_def)

lemma wrap64_id: "min_int64 \<le> x \<Longrightarrow> x \<le> max_int64 \<Longrightarrow> wrap64 x = x"
  by (simp add: wrap64_def min_int64_def max_int64_def)

lemma wrap64_add: "wrap64 (wrap64 x + y) = wrap64 (x + y)"
proof -
  have "((x + 2 ^ 63) mod 2 ^ 64 + y) mod 2 ^ 64 = (x + 2 ^ 63 + y) mod (2 ^ 64 :: int)"
    by (rule mod_add_left_eq)
  then show ?thesis by (simp add: wrap64_def algebra_simps)
qed

section \<open>Decimal output (\<open>strconv.Itoa\<close>)\<close>

definition digit_char :: "int \<Rightarrow> char" where
  "digit_char n = char_of (48 + n)"

text \<open>A digit of a number printed in base 16.\<close>

definition lower_hex :: "int \<Rightarrow> char" where
  "lower_hex n = char_of (if n < 10 then 48 + n else 87 + n)"

function nat_digits :: "int \<Rightarrow> string" where
  "nat_digits n = (if n < 10 then [digit_char n] else nat_digits (n div 10) @ [digit_char (n mod 10)])"
  by pat_completeness auto
termination
  by (relation "measure nat") auto

declare nat_digits.simps [simp del]

definition itoa :: "int \<Rightarrow> string" where
  "itoa n = (if n < 0 then ''-'' @ nat_digits (- n) else nat_digits n)"

lemma byte_digit_char: "0 \<le> n \<Longrightarrow> n < 10 \<Longrightarrow> byte (digit_char n) = 48 + n"
  by (simp add: byte_def digit_char_def)

lemma is_digit_digit_char [simp]: "0 \<le> n \<Longrightarrow> n < 10 \<Longrightarrow> is_digit (digit_char n)"
  by (simp add: is_digit_def byte_digit_char)

lemma digit_val_digit_char [simp]: "0 \<le> n \<Longrightarrow> n < 10 \<Longrightarrow> digit_val (digit_char n) = n"
  by (simp add: digit_val_def byte_digit_char)

lemma nat_digits_ne [simp]: "nat_digits n \<noteq> []"
  by (subst nat_digits.simps) simp

lemma nat_digits_digits: "0 \<le> n \<Longrightarrow> list_all is_digit (nat_digits n)"
proof (induction n rule: nat_digits.induct)
  case (1 n)
  then show ?case by (subst nat_digits.simps) simp
qed

lemma digits_val_snoc: "digits_val (s @ [c]) = 10 * digits_val s + digit_val c"
  by (simp add: digits_val_def)

lemma digits_val_nat_digits: "0 \<le> n \<Longrightarrow> digits_val (nat_digits n) = n"
proof (induction n rule: nat_digits.induct)
  case (1 n)
  show ?case
  proof (cases "n < 10")
    case True
    with 1 show ?thesis by (subst nat_digits.simps) (simp add: digits_val_def)
  next
    case False
    with 1 show ?thesis by (subst nat_digits.simps) (simp add: digits_val_snoc)
  qed
qed

lemma digits_val_nonneg: "list_all is_digit s \<Longrightarrow> 0 \<le> digits_val s"
  by (induction s rule: rev_induct)
    (simp_all add: digits_val_snoc digits_val_def is_digit_def digit_val_def)

text \<open>How \<open>fmt\<close> prints a string in quotes, and the error of \<open>Atoi\<close> (\<open>nil\<close> too, with
  the verb \<open>%s\<close>).\<close>

definition squote :: "string \<Rightarrow> string" where
  "squote s = CHR 0x27 # s @ [CHR 0x27]"

definition dquote :: "string \<Rightarrow> string" where
  "dquote s = CHR 0x22 # s @ [CHR 0x22]"

definition atoi_error :: "string \<Rightarrow> num_error option \<Rightarrow> string" where
  "atoi_error s err =
     (case err of
        None \<Rightarrow> ''%!s(<nil>)''
      | Some ErrSyntax \<Rightarrow> ''strconv.Atoi: parsing '' @ dquote s @ '': invalid syntax''
      | Some ErrRange \<Rightarrow> ''strconv.Atoi: parsing '' @ dquote s @ '': value out of range'')"

lemma parse_int_range:
  "parse_int s = (n, e) \<Longrightarrow> min_int64 \<le> n \<and> n \<le> max_int64"
  using digits_val_nonneg
  by (fastforce simp: parse_int_def Let_def min_int64_def max_int64_def split: if_splits)

lemma not_digit_sign: "\<not> is_digit CHR ''-'' \<and> \<not> is_digit CHR ''+''"
  by (simp add: is_digit_def byte_def)

lemma digits_no_sign:
  "s \<noteq> [] \<Longrightarrow> list_all is_digit s \<Longrightarrow> \<not> has_prefix s ''-'' \<and> \<not> has_prefix s ''+''"
  by (cases s) (auto simp: not_digit_sign)

lemma parse_int_digits:
  "s \<noteq> [] \<Longrightarrow> list_all is_digit s \<Longrightarrow>
   parse_int s = (if max_int64 < digits_val s then (max_int64, Some ErrRange)
                  else (digits_val s, None))"
  by (simp add: parse_int_def Let_def digits_no_sign)

lemma atoi_nat_digits: "0 \<le> n \<Longrightarrow> n \<le> max_int64 \<Longrightarrow> parse_int (nat_digits n) = (n, None)"
  by (simp add: parse_int_digits nat_digits_digits digits_val_nat_digits)

section \<open>Query escaping (\<open>net/url\<close>)\<close>

definition is_hex :: "char \<Rightarrow> bool" where
  "is_hex c \<longleftrightarrow> is_digit c \<or> (97 \<le> byte c \<and> byte c \<le> 102) \<or> (65 \<le> byte c \<and> byte c \<le> 70)"

definition unhex :: "char \<Rightarrow> int" where
  "unhex c = (if is_digit c then byte c - 48
              else if 97 \<le> byte c \<and> byte c \<le> 102 then byte c - 97 + 10 else byte c - 65 + 10)"

fun query_unescape :: "string \<Rightarrow> string option" where
  "query_unescape [] = Some []"
| "query_unescape (c # cs) =
     (if c = CHR ''%'' then
        (case cs of
           a # b # r \<Rightarrow>
             if is_hex a \<and> is_hex b
             then map_option ((#) (char_of (16 * unhex a + unhex b))) (query_unescape r)
             else None
         | _ \<Rightarrow> None)
      else if c = CHR ''+'' then map_option ((#) CHR '' '') (query_unescape cs)
      else map_option ((#) c) (query_unescape cs))"

lemma query_unescape_plain:
  "CHR ''%'' \<notin> set s \<Longrightarrow> CHR ''+'' \<notin> set s \<Longrightarrow> query_unescape s = Some s"
  by (induction s) auto

end
