(* ===== verification/Catalogue.thy ===== *)
theory Catalogue
  imports GoStrings
begin

text \<open>
  The tables of \<open>NewRedisExporter\<close> (\<open>exporter/exporter.go\<close>): which fields of an INFO
  reply are exported and under which name, as gauges and as counters, and the metric
  descriptions (name, help text, label names) an exporter is created with. The facts below
  are what the rest of the development needs of them: each table is a function, and the
  names of labelled metrics never clash with the names INFO fields are exported under.
\<close>

section \<open>\<open>metricMapGauges\<close>: INFO fields exported as gauges\<close>

definition gauges_server :: "(string \<times> string) list" where
  "gauges_server =
     [(''uptime_in_seconds'', ''uptime_in_seconds''),
      (''process_id'', ''process_id''),
      (''io_threads_active'', ''io_threads_active'')]"

definition gauges_clients :: "(string \<times> string) list" where
  "gauges_clients =
     [(''connected_clients'', ''connected_clients''),
      (''blocked_clients'', ''blocked_clients''),
      (''maxclients'', ''max_clients''),
      (''tracking_clients'', ''tracking_clients''),
      (''clients_in_timeout_table'', ''clients_in_timeout_table''),
      (''pubsub_clients'', ''pubsub_clients''),
      (''watching_clients'', ''watching_clients''),
      (''total_watched_keys'', ''total_watched_keys''),
      (''total_blocking_keys'', ''total_blocking_keys''),
      (''total_blocking_keys_on_nokey'', ''total_blocking_keys_on_nokey''),
      (''client_longest_output_list'', ''client_longest_output_list''),
      (''client_biggest_input_buf'', ''client_biggest_input_buf''),
      (''client_recent_max_output_buffer'', ''client_recent_max_output_buffer_bytes''),
      (''client_recent_max_input_buffer'', ''client_recent_max_input_buffer_bytes'')]"

definition gauges_memory :: "(string \<times> string) list" where
  "gauges_memory =
     [(''allocator_active'', ''allocator_active_bytes''),
      (''allocator_allocated'', ''allocator_allocated_bytes''),
      (''allocator_resident'', ''allocator_resident_bytes''),
      (''allocator_frag_ratio'', ''allocator_frag_ratio''),
      (''allocator_frag_bytes'', ''allocator_frag_bytes''),
      (''allocator_muzzy'', ''allocator_muzzy_bytes''),
      (''allocator_rss_ratio'', ''allocator_rss_ratio''),
      (''allocator_rss_bytes'', ''allocator_rss_bytes''),
      (''used_memory'', ''memory_used_bytes''),
      (''used_memory_rss'', ''memory_used_rss_bytes''),
      (''used_memory_peak'', ''memory_used_peak_bytes''),
      (''used_memory_lua'', ''memory_used_lua_bytes''),
      (''used_memory_vm_eval'', ''memory_used_vm_eval_bytes''),
      (''used_memory_scripts_eval'', ''memory_used_scripts_eval_bytes''),
      (''used_memory_overhead'', ''memory_used_overhead_bytes''),
      (''used_memory_startup'', ''memory_used_startup_bytes''),
      (''used_memory_dataset'', ''memory_used_dataset_bytes''),
      (''number_of_cached_scripts'', ''number_of_cached_scripts''),
      (''number_of_functions'', ''number_of_functions''),
      (''number_of_libraries'', ''number_of_libraries''),
      (''used_memory_vm_functions'', ''memory_used_vm_functions_bytes''),
      (''used_memory_scripts'', ''memory_used_scripts_bytes''),
      (''used_memory_functions'', ''memory_used_functions_bytes''),
      (''used_memory_vm_total'', ''memory_used_vm_total''),
      (''maxmemory'', ''memory_max_bytes''),
      (''maxmemory_reservation'', ''memory_max_reservation_bytes''),
      (''maxmemory_desired_reservation'', ''memory_max_reservation_desired_bytes''),
      (''maxfragmentationmemory_reservation'', ''memory_max_fragmentation_reservation_bytes''),
      (''maxfragmentationmemory_desired_reservation'', ''memory_max_fragmentation_reservation_desired_bytes''),
      (''mem_fragmentation_ratio'', ''mem_fragmentation_ratio''),
      (''mem_fragmentation_bytes'', ''mem_fragmentation_bytes''),
      (''mem_clients_slaves'', ''mem_clients_slaves''),
      (''mem_clients_normal'', ''mem_clients_normal''),
      (''mem_cluster_links'', ''mem_cluster_links_bytes''),
      (''mem_aof_buffer'', ''mem_aof_buffer_bytes''),
      (''mem_replication_backlog'', ''mem_replication_backlog_bytes''),
      (''expired_stale_perc'', ''expired_stale_percentage''),
      (''mem_not_counted_for_evict'', ''mem_not_counted_for_eviction_bytes''),
      (''mem_total_replication_buffers'', ''mem_total_replication_buffers_bytes''),
      (''mem_overhead_db_hashtable_rehashing'', ''mem_overhead_db_hashtable_rehashing_bytes''),
      (''lazyfree_pending_objects'', ''lazyfree_pending_objects''),
      (''lazyfreed_objects'', ''lazyfreed_objects''),
      (''active_defrag_running'', ''active_defrag_running''),
      (''migrate_cached_sockets'', ''migrate_cached_sockets_total''),
      (''active_defrag_hits'', ''defrag_hits''),
      (''active_defrag_misses'', ''defrag_misses''),
      (''active_defrag_key_hits'', ''defrag_key_hits''),
      (''active_defrag_key_misses'', ''defrag_key_misses''),
      (''expired_time_cap_reached_count'', ''expired_time_cap_reached_total'')]"

definition gauges_persistence :: "(string \<times> string) list" where
  "gauges_persistence =
     [(''loading'', ''loading_dump_file''),
      (''async_loading'', ''async_loading''),
      (''rdb_changes_since_last_save'', ''rdb_changes_since_last_save''),
      (''rdb_bgsave_in_progress'', ''rdb_bgsave_in_progress''),
      (''rdb_last_save_time'', ''rdb_last_save_timestamp_seconds''),
      (''rdb_last_bgsave_status'', ''rdb_last_bgsave_status''),
      (''rdb_last_bgsave_time_sec'', ''rdb_last_bgsave_duration_sec''),
      (''rdb_current_bgsave_time_sec'', ''rdb_current_bgsave_duration_sec''),
      (''rdb_saves'', ''rdb_saves_total''),
      (''rdb_last_cow_size'', ''rdb_last_cow_size_bytes''),
      (''rdb_last_load_keys_expired'', ''rdb_last_load_expired_keys''),
      (''rdb_last_load_keys_loaded'', ''rdb_last_load_loaded_keys''),
      (''aof_enabled'', ''aof_enabled''),
      (''aof_rewrite_in_progress'', ''aof_rewrite_in_progress''),
      (''aof_rewrite_scheduled'', ''aof_rewrite_scheduled''),
      (''aof_last_rewrite_time_sec'', ''aof_last_rewrite_duration_sec''),
      (''aof_current_rewrite_time_sec'', ''aof_current_rewrite_duration_sec''),
      (''aof_last_cow_size'', ''aof_last_cow_size_bytes''),
      (''aof_current_size'', ''aof_current_size_bytes''),
      (''aof_base_size'', ''aof_base_size_bytes''),
      (''aof_pending_rewrite'', ''aof_pending_rewrite''),
      (''aof_buffer_length'', ''aof_buffer_length''),
      (''aof_rewrite_buffer_length'', ''aof_rewrite_buffer_length''),
      (''aof_pending_bio_fsync'', ''aof_pending_bio_fsync''),
      (''aof_delayed_fsync'', ''aof_delayed_fsync''),
      (''aof_last_bgrewrite_status'', ''aof_last_bgrewrite_status''),
      (''aof_last_write_status'', ''aof_last_write_status''),
      (''module_fork_in_progress'', ''module_fork_in_progress''),
      (''module_fork_last_cow_size'', ''module_fork_last_cow_size'')]"

definition gauges_stats :: "(string \<times> string) list" where
  "gauges_stats =
     [(''current_eviction_exceeded_time'', ''current_eviction_exceeded_time_ms''),
      (''pubsub_channels'', ''pubsub_channels''),
      (''pubsub_patterns'', ''pubsub_patterns''),
      (''pubsubshard_channels'', ''pubsubshard_channels''),
      (''latest_fork_usec'', ''latest_fork_usec''),
      (''tracking_total_keys'', ''tracking_total_keys''),
      (''tracking_total_items'', ''tracking_total_items''),
      (''tracking_total_prefixes'', ''tracking_total_prefixes''),
      (''instantaneous_eventloop_cycles_per_sec'', ''instantaneous_eventloop_cycles_per_sec''),
      (''instantaneous_eventloop_duration_usec'', ''instantaneous_eventloop_duration_usec'')]"

definition gauges_replication :: "(string \<times> string) list" where
  "gauges_replication =
     [(''connected_slaves'', ''connected_slaves''),
      (''repl_backlog_size'', ''replication_backlog_bytes''),
      (''repl_backlog_active'', ''repl_backlog_is_active''),
      (''repl_backlog_first_byte_offset'', ''repl_backlog_first_byte_offset''),
      (''repl_backlog_histlen'', ''repl_backlog_history_bytes''),
      (''master_repl_offset'', ''master_repl_offset''),
      (''second_repl_offset'', ''second_repl_offset''),
      (''slave_expires_tracked_keys'', ''slave_expires_tracked_keys''),
      (''slave_priority'', ''slave_priority''),
      (''sync_full'', ''replica_resyncs_full''),
      (''sync_partial_ok'', ''replica_partial_resync_accepted''),
      (''sync_partial_err'', ''replica_partial_resync_denied'')]"

definition gauges_cluster :: "(string \<times> string) list" where
  "gauges_cluster =
     [(''cluster_stats_messages_sent'', ''cluster_messages_sent_total''),
      (''cluster_stats_messages_received'', ''cluster_messages_received_total'')]"

definition gauges_tile38 :: "(string \<times> string) list" where
  "gauges_tile38 =
     [(''tile38_aof_size'', ''tile38_aof_size_bytes''),
      (''tile38_avg_point_size'', ''tile38_avg_item_size_bytes''),
      (''tile38_sys_cpus'', ''tile38_cpus_total''),
      (''tile38_heap_released_bytes'', ''tile38_heap_released_bytes''),
      (''tile38_heap_alloc_bytes'', ''tile38_heap_size_bytes''),
      (''tile38_http_transport'', ''tile38_http_transport''),
      (''tile38_in_memory_size'', ''tile38_in_memory_size_bytes''),
      (''tile38_max_heap_size'', ''tile38_max_heap_size_bytes''),
      (''tile38_alloc_bytes'', ''tile38_mem_alloc_bytes''),
      (''tile38_num_collections'', ''tile38_num_collections_total''),
      (''tile38_num_hooks'', ''tile38_num_hooks_total''),
      (''tile38_num_objects'', ''tile38_num_objects_total''),
      (''tile38_num_points'', ''tile38_num_points_total''),
      (''tile38_pointer_size'', ''tile38_pointer_size_bytes''),
      (''tile38_read_only'', ''tile38_read_only''),
      (''tile38_go_threads'', ''tile38_threads_total''),
      (''tile38_go_goroutines'', ''tile38_go_goroutines_total''),
      (''tile38_last_gc_time_seconds'', ''tile38_last_gc_time_seconds''),
      (''tile38_next_gc_bytes'', ''tile38_next_gc_bytes'')]"

definition gauges_keydb :: "(string \<times> string) list" where
  "gauges_keydb =
     [(''server_threads'', ''server_threads_total''),
      (''long_lock_waits'', ''long_lock_waits_total''),
      (''current_client_thread'', ''current_client_thread'')]"

definition gauges_search :: "(string \<times> string) list" where
  "gauges_search =
     [(''search_number_of_indexes'', ''search_number_of_indexes''),
      (''search_used_memory_indexes'', ''search_used_memory_indexes_bytes''),
      (''search_dialect_1'', ''search_dialect_1''),
      (''search_dialect_2'', ''search_dialect_2''),
      (''search_dialect_3'', ''search_dialect_3''),
      (''search_dialect_4'', ''search_dialect_4''),
      (''search_global_idle'', ''search_global_idle''),
      (''search_global_total'', ''search_global_total''),
      (''search_bytes_collected'', ''search_collected_bytes''),
      (''search_number_of_active_indexes'', ''search_number_of_active_indexes''),
      (''search_number_of_active_indexes_running_queries'', ''search_number_of_active_indexes_running_queries''),
      (''search_number_of_active_indexes_indexing'', ''search_number_of_active_indexes_indexing''),
      (''search_total_active_write_threads'', ''search_total_active_write_threads''),
      (''search_smallest_memory_index'', ''search_smallest_memory_index_bytes''),
      (''search_largest_memory_index'', ''search_largest_memory_index_bytes''),
      (''search_used_memory_vector_index'', ''search_used_memory_vector_index_bytes''),
      (''search_global_idle_user'', ''search_global_idle_user''),
      (''search_global_idle_internal'', ''search_global_idle_internal''),
      (''search_global_total_user'', ''search_global_total_user''),
      (''search_global_total_internal'', ''search_global_total_internal''),
      (''search_gc_bytes_collected'', ''search_gc_collected_bytes''),
      (''search_gc_total_docs_not_collected'', ''search_gc_total_docs_not_collected''),
      (''search_gc_marked_deleted_vectors'', ''search_gc_marked_deleted_vectors''),
      (''search_errors_indexing_failures'', ''search_errors_indexing_failures'')]"

definition gauges_valkey :: "(string \<times> string) list" where
  "gauges_valkey =
     [(''bf_bloom_total_memory_bytes'', ''bf_bloom_total_memory_bytes''),
      (''bf_bloom_num_objects'', ''bf_bloom_num_objects''),
      (''bf_bloom_num_filters_across_objects'', ''bf_bloom_num_filters_across_objects''),
      (''bf_bloom_num_items_across_objects'', ''bf_bloom_num_items_across_objects''),
      (''bf_bloom_capacity_across_objects'', ''bf_bloom_capacity_across_objects''),
      (''json_total_memory_bytes'', ''json_total_memory_bytes''),
      (''json_num_documents'', ''json_num_documents''),
      (''search_used_memory_bytes'', ''search_used_memory_bytes''),
      (''search_number_of_attributes'', ''search_number_of_attributes''),
      (''search_total_indexed_documents'', ''search_total_indexed_documents''),
      (''search_query_queue_size'', ''search_query_queue_size''),
      (''search_writer_queue_size'', ''search_writer_queue_size''),
      (''search_string_interning_store_size'', ''search_string_interning_store_size''),
      (''search_vector_externing_hash_extern_errors'', ''search_vector_externing_hash_extern_errors''),
      (''search_vector_externing_num_lru_entries'', ''search_vector_externing_num_lru_entries'')]"

definition gauge_table :: "(string \<times> string) list" where
  "gauge_table =
     gauges_server @ gauges_clients @ gauges_memory @ 
     gauges_persistence @ gauges_stats @ gauges_replication @ gauges_cluster @ gauges_tile38 @ 
     gauges_keydb @ gauges_search @ gauges_valkey"

section \<open>\<open>metricMapCounters\<close>: INFO fields exported as counters\<close>

definition counters_core :: "(string \<times> string) list" where
  "counters_core =
     [(''total_connections_received'', ''connections_received_total''),
      (''total_commands_processed'', ''commands_processed_total''),
      (''rejected_connections'', ''rejected_connections_total''),
      (''total_net_input_bytes'', ''net_input_bytes_total''),
      (''total_net_output_bytes'', ''net_output_bytes_total''),
      (''total_net_repl_input_bytes'', ''net_repl_input_bytes_total''),
      (''total_net_repl_output_bytes'', ''net_repl_output_bytes_total''),
      (''expired_subkeys'', ''expired_subkeys_total''),
      (''expired_keys'', ''expired_keys_total''),
      (''expired_time_cap_reached_count'', ''expired_time_cap_reached_total''),
      (''expire_cycle_cpu_milliseconds'', ''expire_cycle_cpu_time_ms_total''),
      (''evicted_keys'', ''evicted_keys_total''),
      (''evicted_clients'', ''evicted_clients_total''),
      (''evicted_scripts'', ''evicted_scripts_total''),
      (''total_eviction_exceeded_time'', ''eviction_exceeded_time_ms_total''),
      (''keyspace_hits'', ''keyspace_hits_total''),
      (''keyspace_misses'', ''keyspace_misses_total''),
      (''eventloop_cycles'', ''eventloop_cycles_total''),
      (''eventloop_duration_sum'', ''eventloop_duration_sum_usec_total''),
      (''eventloop_duration_cmd_sum'', ''eventloop_duration_cmd_sum_usec_total''),
      (''used_cpu_sys'', ''cpu_sys_seconds_total''),
      (''used_cpu_user'', ''cpu_user_seconds_total''),
      (''used_cpu_sys_children'', ''cpu_sys_children_seconds_total''),
      (''used_cpu_user_children'', ''cpu_user_children_seconds_total''),
      (''used_cpu_sys_main_thread'', ''cpu_sys_main_thread_seconds_total''),
      (''used_cpu_user_main_thread'', ''cpu_user_main_thread_seconds_total''),
      (''unexpected_error_replies'', ''unexpected_error_replies''),
      (''total_error_replies'', ''total_error_replies''),
      (''dump_payload_sanitizations'', ''dump_payload_sanitizations''),
      (''total_reads_processed'', ''total_reads_processed''),
      (''total_writes_processed'', ''total_writes_processed''),
      (''io_threaded_reads_processed'', ''io_threaded_reads_processed''),
      (''io_threaded_writes_processed'', ''io_threaded_writes_processed''),
      (''client_query_buffer_limit_disconnections'', ''client_query_buffer_limit_disconnections_total''),
      (''client_output_buffer_limit_disconnections'', ''client_output_buffer_limit_disconnections_total''),
      (''reply_buffer_shrinks'', ''reply_buffer_shrinks_total''),
      (''reply_buffer_expands'', ''reply_buffer_expands_total''),
      (''acl_access_denied_auth'', ''acl_access_denied_auth_total''),
      (''acl_access_denied_cmd'', ''acl_access_denied_cmd_total''),
      (''acl_access_denied_key'', ''acl_access_denied_key_total''),
      (''acl_access_denied_channel'', ''acl_access_denied_channel_total'')]"

definition counters_modules :: "(string \<times> string) list" where
  "counters_modules =
     [(''cached_keys'', ''cached_keys_total''),
      (''storage_provider_read_hits'', ''storage_provider_read_hits''),
      (''storage_provider_read_misses'', ''storage_provider_read_misses''),
      (''search_total_indexing_time'', ''search_indexing_time_ms_total''),
      (''search_total_cycles'', ''search_cycles_total''),
      (''search_total_ms_run'', ''search_run_ms_total''),
      (''search_gc_total_cycles'', ''search_gc_cycles_total''),
      (''search_gc_total_ms_run'', ''search_gc_run_ms_total''),
      (''search_total_queries_processed'', ''search_queries_processed_total''),
      (''search_total_query_commands'', ''search_query_commands_total''),
      (''search_total_query_execution_time_ms'', ''search_query_execution_time_ms_total''),
      (''search_total_active_queries'', ''search_active_queries_total''),
      (''bf_bloom_defrag_hits'', ''bf_bloom_defrag_hits_total''),
      (''bf_bloom_defrag_misses'', ''bf_bloom_defrag_misses_total''),
      (''search_worker_pool_suspend_cnt'', ''search_worker_pool_suspend_count''),
      (''search_writer_resumed_cnt'', ''search_writer_resumed_count''),
      (''search_reader_resumed_cnt'', ''search_reader_resumed_count''),
      (''search_writer_suspension_expired_cnt'', ''search_writer_suspension_expired_count''),
      (''search_rdb_load_success_cnt'', ''search_rdb_load_success_count''),
      (''search_rdb_load_failure_cnt'', ''search_rdb_load_failure_count''),
      (''search_rdb_save_success_cnt'', ''search_rdb_save_success_count''),
      (''search_rdb_save_failure_cnt'', ''search_rdb_save_failure_count''),
      (''search_successful_requests_count'', ''search_successful_requests_count''),
      (''search_failure_requests_count'', ''search_failure_requests_count''),
      (''search_hybrid_requests_count'', ''search_hybrid_requests_count''),
      (''search_inline_filtering_requests_count'', ''search_inline_filtering_requests_count''),
      (''search_hnsw_add_exceptions_count'', ''search_hnsw_add_exceptions_count''),
      (''search_hnsw_remove_exceptions_count'', ''search_hnsw_remove_exceptions_count''),
      (''search_hnsw_modify_exceptions_count'', ''search_hnsw_modify_exceptions_count''),
      (''search_hnsw_search_exceptions_count'', ''search_hnsw_search_exceptions_count''),
      (''search_hnsw_create_exceptions_count'', ''search_hnsw_create_exceptions_count''),
      (''search_vector_externing_entry_count'', ''search_vector_externing_entry_count''),
      (''search_vector_externing_generated_value_cnt'', ''search_vector_externing_generated_value_count''),
      (''search_vector_externing_lru_promote_cnt'', ''search_vector_externing_lru_promote_count''),
      (''search_vector_externing_deferred_entry_cnt'', ''search_vector_externing_deferred_entry_count'')]"

definition counter_table :: "(string \<times> string) list" where
  "counter_table = counters_core @ counters_modules"

section \<open>The metric descriptions every exporter starts with\<close>

definition descriptions_instance :: "(string \<times> string \<times> string list) list" where
  "descriptions_instance =
     [(''commands_duration_seconds_total'', ''Total amount of time in seconds spent per command'', [''cmd'']),
      (''commands_failed_calls_total'', ''Total number of errors prior command execution per command'', [''cmd'']),
      (''commands_latencies_usec'', ''A histogram of latencies per command'', [''cmd'']),
      (''commands_rejected_calls_total'', ''Total number of errors within command execution per command'', [''cmd'']),
      (''commands_total'', ''Total number of calls per command'', [''cmd'']),
      (''config_client_output_buffer_limit_bytes'', ''The configured buffer limits per class'', [''class'', ''limit'']),
      (''config_client_output_buffer_limit_overcome_seconds'', ''How long for buffer limits per class to be exceeded before replicas are dropped'', [''class'', ''limit'']),
      (''config_key_value'', ''Config key and value'', [''key'', ''value'']),
      (''config_value'', ''Config key and value as metric'', [''key'']),
      (''connected_slave_lag_seconds'', ''Lag of connected slave'', [''slave_ip'', ''slave_port'', ''slave_state'']),
      (''connected_slave_offset_bytes'', ''Offset of connected slave'', [''slave_ip'', ''slave_port'', ''slave_state'']),
      (''db_avg_ttl_seconds'', ''Avg TTL in seconds'', [''db'']),
      (''db_keys'', ''Total number of keys by DB'', [''db'']),
      (''db_keys_cached'', ''Total number of cached keys by DB'', [''db'']),
      (''db_keys_expiring'', ''Total number of expiring keys by DB'', [''db'']),
      (''errors_total'', ''Total number of errors per error type'', [''err'']),
      (''exporter_last_scrape_error'', ''The last scrape error status.'', [''err''])]"

definition descriptions_keys :: "(string \<times> string \<times> string list) list" where
  "descriptions_keys =
     [(''key_group_count'', ''Count of keys in key group'', [''db'', ''key_group'']),
      (''key_group_memory_usage_bytes'', ''Total memory usage of key group in bytes'', [''db'', ''key_group'']),
      (''key_memory_usage_bytes'', ''The memory usage of \"key\" in bytes'', [''db'', ''key'']),
      (''key_size'', ''The length or size of \"key\"'', [''db'', ''key'']),
      (''key_value'', ''The value of \"key\"'', [''db'', ''key'']),
      (''key_value_as_string'', ''The value of \"key\" as a string'', [''db'', ''key'', ''val'']),
      (''keys_count'', ''Count of keys'', [''db'', ''key'']),
      (''last_key_groups_scrape_duration_milliseconds'', ''Duration of the last key group metrics scrape in milliseconds'', []),
      (''last_slow_execution_duration_seconds'', ''The amount of time needed for last slow execution, in seconds'', []),
      (''latency_percentiles_usec'', ''A summary of latency percentile distribution per command'', [''cmd'']),
      (''latency_spike_duration_seconds'', ''Length of the last latency spike in seconds'', [''event_name'']),
      (''latency_spike_last'', ''When the latency spike last occurred'', [''event_name'']),
      (''master_last_io_seconds_ago'', ''Master last io seconds ago'', [''master_host'', ''master_port'']),
      (''master_link_up'', ''Master link status on Redis slave'', [''master_host'', ''master_port'']),
      (''master_sync_in_progress'', ''Master sync in progress'', [''master_host'', ''master_port'']),
      (''module_info'', ''Information about loaded Redis module'', [''name'', ''ver'', ''api'', ''filters'', ''usedby'', ''using'']),
      (''number_of_distinct_key_groups'', ''Number of distinct key groups'', [''db'']),
      (''script_result'', ''Result of the collect script evaluation'', [''filename'']),
      (''script_values'', ''Values returned by the collect script'', [''key'', ''filename''])]"

definition descriptions_search :: "(string \<times> string \<times> string list) list" where
  "descriptions_search =
     [(''search_index_num_docs'', ''Number of documents in search index'', [''index_name'']),
      (''search_index_max_doc_id'', ''Maximum document ID in search index'', [''index_name'']),
      (''search_index_num_terms'', ''Number of distinct terms in search index'', [''index_name'']),
      (''search_index_num_records'', ''Total number of records in search index'', [''index_name'']),
      (''search_index_inverted_size_bytes'', ''Memory used by the inverted index'', [''index_name'']),
      (''search_index_total_inverted_index_blocks'', ''Total number of blocks in the inverted index'', [''index_name'']),
      (''search_index_vector_index_size_bytes'', ''Memory used by the vector index, stores vectors associated with each document'', [''index_name'']),
      (''search_index_offset_vectors_size_bytes'', ''Memory used by the offset vectors, store positional information for terms in documents'', [''index_name'']),
      (''search_index_doc_table_size_bytes'', ''Memory used by the document table, contains metadata about each document in the index'', [''index_name'']),
      (''search_index_sortable_values_size_bytes'', ''Memory used by sortable values, used for sorting purposes'', [''index_name'']),
      (''search_index_key_table_size_bytes'', ''Memory used by the key table, stores mapping between document IDs and keys'', [''index_name'']),
      (''search_index_tag_overhead_size_bytes'', ''Size of the TAG index structures used for optimising performance'', [''index_name'']),
      (''search_index_text_overhead_size_bytes'', ''Size of the TEXT index structures used for optimising performance'', [''index_name'']),
      (''search_index_total_index_memory_size_bytes'', ''Total memory consumed by all indexes in the DB'', [''index_name'']),
      (''search_index_geoshapes_size_bytes'', ''Memory used by GEO-related fields'', [''index_name'']),
      (''search_index_avg_per_doc_records'', ''Average number of records (including deletions) per document'', [''index_name'']),
      (''search_index_avg_per_record_bytes'', ''Average size of each record in bytes'', [''index_name'']),
      (''search_index_avg_per_term_offsets'', ''Average number of offsets (position information) per term'', [''index_name'']),
      (''search_index_avg_per_record_offset_bits'', ''Average number of bits used for offsets per record'', [''index_name'']),
      (''search_index_indexing'', ''Indicates whether the index is currently being generated'', [''index_name'']),
      (''search_index_percent_indexed'', ''Percentage of the index that has been successfully generated (0-1)'', [''index_name'']),
      (''search_index_hash_indexing_failures'', ''Number of failures encountered during indexing'', [''index_name'']),
      (''search_index_number_of_uses_total'', ''Number of times the index has been used'', [''index_name'']),
      (''search_index_cleaning'', ''Index deletion flag. A value of 1 indicates index deletion is in progress'', [''index_name''])]"

definition descriptions_sentinel :: "(string \<times> string \<times> string list) list" where
  "descriptions_sentinel =
     [(''sentinel_master_ckquorum_status'', ''Master ckquorum status'', [''master_name'', ''message'']),
      (''sentinel_master_ok_sentinels'', ''The number of okay sentinels monitoring this master'', [''master_name'', ''master_address'']),
      (''sentinel_master_ok_slaves'', ''The number of okay slaves of the master'', [''master_name'', ''master_address'']),
      (''sentinel_master_sentinels'', ''The number of sentinels monitoring this master'', [''master_name'', ''master_address'']),
      (''sentinel_master_setting_ckquorum'', ''Show the current ckquorum config for each master'', [''master_name'', ''master_address'']),
      (''sentinel_master_setting_down_after_milliseconds'', ''Show the current down-after-milliseconds config for each master'', [''master_name'', ''master_address'']),
      (''sentinel_master_setting_failover_timeout'', ''Show the current failover-timeout config for each master'', [''master_name'', ''master_address'']),
      (''sentinel_master_setting_parallel_syncs'', ''Show the current parallel-syncs config for each master'', [''master_name'', ''master_address'']),
      (''sentinel_master_slaves'', ''The number of slaves of the master'', [''master_name'', ''master_address'']),
      (''sentinel_master_status'', ''Master status on Sentinel'', [''master_name'', ''master_address'', ''master_status'']),
      (''sentinel_masters'', ''The number of masters this sentinel is watching'', []),
      (''sentinel_running_scripts'', ''Number of scripts in execution right now'', []),
      (''sentinel_scripts_queue_length'', ''Queue of user scripts to execute'', []),
      (''sentinel_simulate_failure_flags'', ''Failures simulations'', []),
      (''sentinel_tilt'', ''Sentinel is in TILT mode'', []),
      (''sentinel_config_key_value'', ''Sentinel global config key and value'', [''key'', ''value'']),
      (''sentinel_config_value'', ''Sentinel global config key and value as metric'', [''key''])]"

definition descriptions_streams :: "(string \<times> string \<times> string list) list" where
  "descriptions_streams =
     [(''slave_info'', ''Information about the Redis slave'', [''master_host'', ''master_port'', ''read_only'']),
      (''slave_repl_offset'', ''Slave replication offset'', [''master_host'', ''master_port'']),
      (''slowlog_last_id'', ''Last id of slowlog'', []),
      (''slowlog_length'', ''Total slowlog'', []),
      (''start_time_seconds'', ''Start time of the Redis instance since unix epoch in seconds.'', []),
      (''stream_first_entry_id'', ''The epoch timestamp (ms) of the first message in the stream'', [''db'', ''stream'']),
      (''stream_group_consumer_idle_seconds'', ''Consumer idle time in seconds'', [''db'', ''stream'', ''group'', ''consumer'']),
      (''stream_group_consumer_messages_pending'', ''Pending number of messages for this specific consumer'', [''db'', ''stream'', ''group'', ''consumer'']),
      (''stream_group_consumers'', ''Consumers count of stream group'', [''db'', ''stream'', ''group'']),
      (''stream_group_entries_read'', ''Total number of entries read from the stream group'', [''db'', ''stream'', ''group'']),
      (''stream_group_lag'', ''The number of messages waiting to be delivered to the stream group's consumers'', [''db'', ''stream'', ''group'']),
      (''stream_group_last_delivered_id'', ''The epoch timestamp (ms) of the last delivered message'', [''db'', ''stream'', ''group'']),
      (''stream_group_messages_pending'', ''Pending number of messages in that stream group'', [''db'', ''stream'', ''group'']),
      (''stream_groups'', ''Groups count of stream'', [''db'', ''stream'']),
      (''stream_last_entry_id'', ''The epoch timestamp (ms) of the last message in the stream'', [''db'', ''stream'']),
      (''stream_last_generated_id'', ''The epoch timestamp (ms) of the latest message on the stream'', [''db'', ''stream'']),
      (''stream_length'', ''The number of elements of the stream'', [''db'', ''stream'']),
      (''stream_max_deleted_entry_id'', ''The epoch timestamp (ms) of last message was deleted from the stream'', [''db'', ''stream'']),
      (''stream_radix_tree_keys'', ''Radix tree keys count\"'', [''db'', ''stream'']),
      (''stream_radix_tree_nodes'', ''Radix tree nodes count'', [''db'', ''stream'']),
      (''up'', ''Information about the Redis instance'', [])]"

definition catalogue :: "(string \<times> string \<times> string list) list" where
  "catalogue =
     descriptions_instance @ descriptions_keys @ descriptions_search @ descriptions_sentinel @ descriptions_streams"

section \<open>Facts\<close>

definition catalogue_names :: "string list" where
  "catalogue_names = map fst catalogue"

definition catalogued :: "string \<Rightarrow> bool" where
  "catalogued n \<longleftrightarrow> n \<in> set catalogue_names"

lemma names_instance:
  "map fst descriptions_instance =
     [''commands_duration_seconds_total'',
      ''commands_failed_calls_total'',
      ''commands_latencies_usec'',
      ''commands_rejected_calls_total'',
      ''commands_total'',
      ''config_client_output_buffer_limit_bytes'',
      ''config_client_output_buffer_limit_overcome_seconds'',
      ''config_key_value'',
      ''config_value'',
      ''connected_slave_lag_seconds'',
      ''connected_slave_offset_bytes'',
      ''db_avg_ttl_seconds'',
      ''db_keys'',
      ''db_keys_cached'',
      ''db_keys_expiring'',
      ''errors_total'',
      ''exporter_last_scrape_error'']"
  by (simp add: descriptions_instance_def)

lemma names_keys:
  "map fst descriptions_keys =
     [''key_group_count'',
      ''key_group_memory_usage_bytes'',
      ''key_memory_usage_bytes'',
      ''key_size'',
      ''key_value'',
      ''key_value_as_string'',
      ''keys_count'',
      ''last_key_groups_scrape_duration_milliseconds'',
      ''last_slow_execution_duration_seconds'',
      ''latency_percentiles_usec'',
      ''latency_spike_duration_seconds'',
      ''latency_spike_last'',
      ''master_last_io_seconds_ago'',
      ''master_link_up'',
      ''master_sync_in_progress'',
      ''module_info'',
      ''number_of_distinct_key_groups'',
      ''script_result'',
      ''script_values'']"
  by (simp add: descriptions_keys_def)

lemma names_search:
  "map fst descriptions_search =
     [''search_index_num_docs'',
      ''search_index_max_doc_id'',
      ''search_index_num_terms'',
      ''search_index_num_records'',
      ''search_index_inverted_size_bytes'',
      ''search_index_total_inverted_index_blocks'',
      ''search_index_vector_index_size_bytes'',
      ''search_index_offset_vectors_size_bytes'',
      ''search_index_doc_table_size_bytes'',
      ''search_index_sortable_values_size_bytes'',
      ''search_index_key_table_size_bytes'',
      ''search_index_tag_overhead_size_bytes'',
      ''search_index_text_overhead_size_bytes'',
      ''search_index_total_index_memory_size_bytes'',
      ''search_index_geoshapes_size_bytes'',
      ''search_index_avg_per_doc_records'',
      ''search_index_avg_per_record_bytes'',
      ''search_index_avg_per_term_offsets'',
      ''search_index_avg_per_record_offset_bits'',
      ''search_index_indexing'',
      ''search_index_percent_indexed'',
      ''search_index_hash_indexing_failures'',
      ''search_index_number_of_uses_total'',
      ''search_index_cleaning'']"
  by (simp add: descriptions_search_def)

lemma names_sentinel:
  "map fst descriptions_sentinel =
     [''sentinel_master_ckquorum_status'',
      ''sentinel_master_ok_sentinels'',
      ''sentinel_master_ok_slaves'',
      ''sentinel_master_sentinels'',
      ''sentinel_master_setting_ckquorum'',
      ''sentinel_master_setting_down_after_milliseconds'',
      ''sentinel_master_setting_failover_timeout'',
      ''sentinel_master_setting_parallel_syncs'',
      ''sentinel_master_slaves'',
      ''sentinel_master_status'',
      ''sentinel_masters'',
      ''sentinel_running_scripts'',
      ''sentinel_scripts_queue_length'',
      ''sentinel_simulate_failure_flags'',
      ''sentinel_tilt'',
      ''sentinel_config_key_value'',
      ''sentinel_config_value'']"
  by (simp add: descriptions_sentinel_def)

lemma names_streams:
  "map fst descriptions_streams =
     [''slave_info'',
      ''slave_repl_offset'',
      ''slowlog_last_id'',
      ''slowlog_length'',
      ''start_time_seconds'',
      ''stream_first_entry_id'',
      ''stream_group_consumer_idle_seconds'',
      ''stream_group_consumer_messages_pending'',
      ''stream_group_consumers'',
      ''stream_group_entries_read'',
      ''stream_group_lag'',
      ''stream_group_last_delivered_id'',
      ''stream_group_messages_pending'',
      ''stream_groups'',
      ''stream_last_entry_id'',
      ''stream_last_generated_id'',
      ''stream_length'',
      ''stream_max_deleted_entry_id'',
      ''stream_radix_tree_keys'',
      ''stream_radix_tree_nodes'',
      ''up'']"
  by (simp add: descriptions_streams_def)

lemmas names_parts = names_instance names_keys names_search names_sentinel names_streams

lemma catalogued_parts:
  "n \<in> set (map fst descriptions_instance) \<Longrightarrow> catalogued n"
  "n \<in> set (map fst descriptions_keys) \<Longrightarrow> catalogued n"
  "n \<in> set (map fst descriptions_search) \<Longrightarrow> catalogued n"
  "n \<in> set (map fst descriptions_sentinel) \<Longrightarrow> catalogued n"
  "n \<in> set (map fst descriptions_streams) \<Longrightarrow> catalogued n"
  by (auto simp: catalogued_def catalogue_names_def catalogue_def)

lemma catalogued_instance [simp]:
  "catalogued ''commands_duration_seconds_total''"
  "catalogued ''commands_failed_calls_total''"
  "catalogued ''commands_latencies_usec''"
  "catalogued ''commands_rejected_calls_total''"
  "catalogued ''commands_total''"
  "catalogued ''config_client_output_buffer_limit_bytes''"
  "catalogued ''config_client_output_buffer_limit_overcome_seconds''"
  "catalogued ''config_key_value''"
  "catalogued ''config_value''"
  "catalogued ''connected_slave_lag_seconds''"
  "catalogued ''connected_slave_offset_bytes''"
  "catalogued ''db_avg_ttl_seconds''"
  "catalogued ''db_keys''"
  "catalogued ''db_keys_cached''"
  "catalogued ''db_keys_expiring''"
  "catalogued ''errors_total''"
  "catalogued ''exporter_last_scrape_error''"
  by - ((rule catalogued_parts(1), unfold names_instance, simp)+)

lemma catalogued_keys [simp]:
  "catalogued ''key_group_count''"
  "catalogued ''key_group_memory_usage_bytes''"
  "catalogued ''key_memory_usage_bytes''"
  "catalogued ''key_size''"
  "catalogued ''key_value''"
  "catalogued ''key_value_as_string''"
  "catalogued ''keys_count''"
  "catalogued ''last_key_groups_scrape_duration_milliseconds''"
  "catalogued ''last_slow_execution_duration_seconds''"
  "catalogued ''latency_percentiles_usec''"
  "catalogued ''latency_spike_duration_seconds''"
  "catalogued ''latency_spike_last''"
  "catalogued ''master_last_io_seconds_ago''"
  "catalogued ''master_link_up''"
  "catalogued ''master_sync_in_progress''"
  "catalogued ''module_info''"
  "catalogued ''number_of_distinct_key_groups''"
  "catalogued ''script_result''"
  "catalogued ''script_values''"
  by - ((rule catalogued_parts(2), unfold names_keys, simp)+)

lemma catalogued_search [simp]:
  "catalogued ''search_index_num_docs''"
  "catalogued ''search_index_max_doc_id''"
  "catalogued ''search_index_num_terms''"
  "catalogued ''search_index_num_records''"
  "catalogued ''search_index_inverted_size_bytes''"
  "catalogued ''search_index_total_inverted_index_blocks''"
  "catalogued ''search_index_vector_index_size_bytes''"
  "catalogued ''search_index_offset_vectors_size_bytes''"
  "catalogued ''search_index_doc_table_size_bytes''"
  "catalogued ''search_index_sortable_values_size_bytes''"
  "catalogued ''search_index_key_table_size_bytes''"
  "catalogued ''search_index_tag_overhead_size_bytes''"
  "catalogued ''search_index_text_overhead_size_bytes''"
  "catalogued ''search_index_total_index_memory_size_bytes''"
  "catalogued ''search_index_geoshapes_size_bytes''"
  "catalogued ''search_index_avg_per_doc_records''"
  "catalogued ''search_index_avg_per_record_bytes''"
  "catalogued ''search_index_avg_per_term_offsets''"
  "catalogued ''search_index_avg_per_record_offset_bits''"
  "catalogued ''search_index_indexing''"
  "catalogued ''search_index_percent_indexed''"
  "catalogued ''search_index_hash_indexing_failures''"
  "catalogued ''search_index_number_of_uses_total''"
  "catalogued ''search_index_cleaning''"
  by - ((rule catalogued_parts(3), unfold names_search, simp)+)

lemma catalogued_sentinel [simp]:
  "catalogued ''sentinel_master_ckquorum_status''"
  "catalogued ''sentinel_master_ok_sentinels''"
  "catalogued ''sentinel_master_ok_slaves''"
  "catalogued ''sentinel_master_sentinels''"
  "catalogued ''sentinel_master_setting_ckquorum''"
  "catalogued ''sentinel_master_setting_down_after_milliseconds''"
  "catalogued ''sentinel_master_setting_failover_timeout''"
  "catalogued ''sentinel_master_setting_parallel_syncs''"
  "catalogued ''sentinel_master_slaves''"
  "catalogued ''sentinel_master_status''"
  "catalogued ''sentinel_masters''"
  "catalogued ''sentinel_running_scripts''"
  "catalogued ''sentinel_scripts_queue_length''"
  "catalogued ''sentinel_simulate_failure_flags''"
  "catalogued ''sentinel_tilt''"
  "catalogued ''sentinel_config_key_value''"
  "catalogued ''sentinel_config_value''"
  by - ((rule catalogued_parts(4), unfold names_sentinel, simp)+)

lemma catalogued_streams [simp]:
  "catalogued ''slave_info''"
  "catalogued ''slave_repl_offset''"
  "catalogued ''slowlog_last_id''"
  "catalogued ''slowlog_length''"
  "catalogued ''start_time_seconds''"
  "catalogued ''stream_first_entry_id''"
  "catalogued ''stream_group_consumer_idle_seconds''"
  "catalogued ''stream_group_consumer_messages_pending''"
  "catalogued ''stream_group_consumers''"
  "catalogued ''stream_group_entries_read''"
  "catalogued ''stream_group_lag''"
  "catalogued ''stream_group_last_delivered_id''"
  "catalogued ''stream_group_messages_pending''"
  "catalogued ''stream_groups''"
  "catalogued ''stream_last_entry_id''"
  "catalogued ''stream_last_generated_id''"
  "catalogued ''stream_length''"
  "catalogued ''stream_max_deleted_entry_id''"
  "catalogued ''stream_radix_tree_keys''"
  "catalogued ''stream_radix_tree_nodes''"
  "catalogued ''up''"
  by - ((rule catalogued_parts(5), unfold names_streams, simp)+)


end
