(* ===== verification/GoFloat.thy ===== *)
theory GoFloat
  imports GoStrings
begin

text \<open>
  Go's \<open>float64\<close>: IEEE 754 double precision, with the operations the exporter uses
  (\<open>strconv.ParseFloat\<close>, conversion from an integer, subtraction, division,
  multiplication, comparison). Every operation computes its exact result as a fraction and
  rounds once, to the nearest double, ties to even, as the standard asks.

  \<open>Finite neg m e\<close> is \<open>m * 2 ^ e\<close> with its sign; the mantissa is below \<open>2 ^ 53\<close>, and the
  exponent is \<open>-1074\<close> or the mantissa is at least \<open>2 ^ 52\<close> (\<open>wf_f64\<close>), so each value has
  one representation.
\<close>

datatype f64 = NaN | Infinity bool | Finite bool int int

section \<open>Rounding\<close>

function bit_len :: "int \<Rightarrow> int" where
  "bit_len n = (if n \<le> 0 then 0 else 1 + bit_len (n div 2))"
  by pat_completeness auto
termination
  by (relation "measure nat") auto

declare bit_len.simps [simp del]

definition round_half_even :: "int \<Rightarrow> int \<Rightarrow> int" where
  "round_half_even n d =
     (let q = n div d; r = n mod d
      in if 2 * r < d \<or> (2 * r = d \<and> even q) then q else q + 1)"

text \<open>\<open>scale p q k\<close> is the fraction \<open>p / q * 2 ^ k\<close>.\<close>

definition scale :: "int \<Rightarrow> int \<Rightarrow> int \<Rightarrow> int \<times> int" where
  "scale p q k = (if 0 \<le> k then (p * 2 ^ nat k, q) else (p, q * 2 ^ nat (- k)))"

text \<open>The double nearest to \<open>p / q * 2 ^ k\<close>, for \<open>0 \<le> p\<close> and \<open>0 < q\<close>.\<close>

definition round_f64 :: "bool \<Rightarrow> int \<Rightarrow> int \<Rightarrow> int \<Rightarrow> f64" where
  "round_f64 neg p q k =
     (if p = 0 then Finite neg 0 (- 1074)
      else
        let e0 = bit_len p - bit_len q - 53 + k;
            (n0, d0) = scale p q (k - e0);
            e1 = max (if 2 ^ 53 * d0 \<le> n0 then e0 + 1 else e0) (- 1074);
            (n1, d1) = scale p q (k - e1);
            m = round_half_even n1 d1;
            (m', e) = (if m = 2 ^ 53 then (2 ^ 52, e1 + 1) else (m, e1))
        in if 971 < e then Infinity neg else Finite neg m' e)"

definition f64_of_int :: "int \<Rightarrow> f64" where
  "f64_of_int n = round_f64 (n < 0) \<bar>n\<bar> 1 0"

section \<open>Arithmetic and comparison\<close>

fun f64_neg :: "f64 \<Rightarrow> f64" where
  "f64_neg NaN = NaN"
| "f64_neg (Infinity s) = Infinity (\<not> s)"
| "f64_neg (Finite s m e) = Finite (\<not> s) m e"

fun f64_mul :: "f64 \<Rightarrow> f64 \<Rightarrow> f64" where
  "f64_mul (Finite s m e) (Finite s' m' e') = round_f64 (s \<noteq> s') (m * m') 1 (e + e')"
| "f64_mul (Infinity s) (Infinity s') = Infinity (s \<noteq> s')"
| "f64_mul (Infinity s) (Finite s' m' e') = (if m' = 0 then NaN else Infinity (s \<noteq> s'))"
| "f64_mul (Finite s m e) (Infinity s') = (if m = 0 then NaN else Infinity (s \<noteq> s'))"
| "f64_mul _ _ = NaN"

fun f64_div :: "f64 \<Rightarrow> f64 \<Rightarrow> f64" where
  "f64_div (Finite s m e) (Finite s' m' e') =
     (if m' = 0 then (if m = 0 then NaN else Infinity (s \<noteq> s'))
      else round_f64 (s \<noteq> s') m m' (e - e'))"
| "f64_div (Infinity s) (Finite s' m' e') = Infinity (s \<noteq> s')"
| "f64_div (Finite s m e) (Infinity s') = Finite (s \<noteq> s') 0 (- 1074)"
| "f64_div _ _ = NaN"

text \<open>The integer \<open>\<plusminus>m * 2 ^ (e - k)\<close> for \<open>k \<le> e\<close>.\<close>

definition signed_at :: "bool \<Rightarrow> int \<Rightarrow> int \<Rightarrow> int \<Rightarrow> int" where
  "signed_at s m e k = (if s then - 1 else 1) * (m * 2 ^ nat (e - k))"

fun f64_add :: "f64 \<Rightarrow> f64 \<Rightarrow> f64" where
  "f64_add (Finite s m e) (Finite s' m' e') =
     (let k = min e e'; n = signed_at s m e k + signed_at s' m' e' k
      in if n = 0 then Finite (s \<and> s') 0 (- 1074) else round_f64 (n < 0) \<bar>n\<bar> 1 k)"
| "f64_add (Infinity s) (Infinity s') = (if s = s' then Infinity s else NaN)"
| "f64_add (Infinity s) (Finite _ _ _) = Infinity s"
| "f64_add (Finite _ _ _) (Infinity s) = Infinity s"
| "f64_add _ _ = NaN"

definition f64_sub :: "f64 \<Rightarrow> f64 \<Rightarrow> f64" where
  "f64_sub x y = f64_add x (f64_neg y)"

fun f64_less :: "f64 \<Rightarrow> f64 \<Rightarrow> bool" where
  "f64_less (Finite s m e) (Finite s' m' e') =
     (let k = min e e' in signed_at s m e k < signed_at s' m' e' k)"
| "f64_less (Infinity s) (Infinity s') = (s \<and> \<not> s')"
| "f64_less (Infinity s) (Finite _ _ _) = s"
| "f64_less (Finite _ _ _) (Infinity s) = (\<not> s)"
| "f64_less _ _ = False"

text \<open>\<open>==\<close> on doubles, the equality of map keys: not reflexive at \<open>NaN\<close>, and the two
  zeros are equal.\<close>

fun f64_eq :: "f64 \<Rightarrow> f64 \<Rightarrow> bool" where
  "f64_eq (Finite s m e) (Finite s' m' e') = (m = m' \<and> e = e' \<and> (s = s' \<or> m = 0))"
| "f64_eq (Infinity s) (Infinity s') = (s = s')"
| "f64_eq _ _ = False"

text \<open>The integer part, as a conversion to an integer type takes it.\<close>

definition f64_trunc :: "f64 \<Rightarrow> int option" where
  "f64_trunc x = (case x of
       Finite s m ex \<Rightarrow>
         let n = (if 0 \<le> ex then m * 2 ^ nat ex else m div 2 ^ nat (- ex))
         in Some (if s then - n else n)
     | _ \<Rightarrow> None)"

section \<open>\<open>strconv.ParseFloat(s, 64)\<close>\<close>

definition lower :: "char \<Rightarrow> char" where
  "lower c = (if 65 \<le> byte c \<and> byte c \<le> 90 then char_of (byte c + 32) else c)"

definition split_sign :: "string \<Rightarrow> bool \<times> string" where
  "split_sign s = (has_prefix s ''-'', if has_prefix s ''-'' \<or> has_prefix s ''+'' then tl s else s)"

definition special_float :: "string \<Rightarrow> f64 option" where
  "special_float s =
     (let (neg, body) = split_sign s; b = map lower body
      in if b = ''inf'' \<or> b = ''infinity'' then Some (Infinity neg)
         else if map lower s = ''nan'' then Some NaN else None)"

text \<open>The mantissa: digits in the base, at most one dot, underscores skipped. The result is
  the digits read as one number, how many of them follow the dot, whether there was a digit,
  and the rest of the string.\<close>

fun scan_mantissa ::
  "bool \<Rightarrow> bool \<Rightarrow> int \<Rightarrow> int \<Rightarrow> bool \<Rightarrow> string \<Rightarrow> int \<times> int \<times> bool \<times> string" where
  "scan_mantissa hex dot m nf seen [] = (m, nf, seen, [])"
| "scan_mantissa hex dot m nf seen (c # cs) =
     (if c = CHR ''_'' then scan_mantissa hex dot m nf seen cs
      else if c = CHR ''.'' then
        (if dot then (m, nf, seen, c # cs) else scan_mantissa hex True m nf seen cs)
      else if is_digit c \<or> (hex \<and> is_hex c) then
        scan_mantissa hex dot (m * (if hex then 16 else 10) + unhex c)
          (if dot then nf + 1 else nf) True cs
      else (m, nf, seen, c # cs))"

text \<open>The digits of the exponent stop counting at 10000.\<close>

definition exponent_val :: "string \<Rightarrow> int" where
  "exponent_val ds =
     foldl (\<lambda>e c. if c = CHR ''_'' \<or> 10000 \<le> e then e else e * 10 + digit_val c) 0 ds"

definition scan_exponent :: "bool \<Rightarrow> string \<Rightarrow> int option" where
  "scan_exponent hex s =
     (case s of
        [] \<Rightarrow> if hex then None else Some 0
      | c # cs \<Rightarrow>
          if lower c = (if hex then CHR ''p'' else CHR ''e'') then
            (let (neg, ds) = split_sign cs
             in if ds \<noteq> [] \<and> is_digit (hd ds) \<and> list_all (\<lambda>d. is_digit d \<or> d = CHR ''_'') ds
                then Some (if neg then - exponent_val ds else exponent_val ds) else None)
          else None)"

datatype underscore_state = AtBegin | AfterDigit | AfterUnderscore | AfterOther

fun underscores_from :: "bool \<Rightarrow> underscore_state \<Rightarrow> string \<Rightarrow> bool" where
  "underscores_from hex st [] = (st \<noteq> AfterUnderscore)"
| "underscores_from hex st (c # cs) =
     (if is_digit c \<or> (hex \<and> is_hex c) then underscores_from hex AfterDigit cs
      else if c = CHR ''_'' then st = AfterDigit \<and> underscores_from hex AfterUnderscore cs
      else st \<noteq> AfterUnderscore \<and> underscores_from hex AfterOther cs)"

definition underscore_ok :: "string \<Rightarrow> bool" where
  "underscore_ok s =
     (let body = snd (split_sign s)
      in case body of
           a # b # r \<Rightarrow>
             if a = CHR ''0'' \<and> lower b \<in> {CHR ''b'', CHR ''o'', CHR ''x''}
             then underscores_from (lower b = CHR ''x'') AfterDigit r
             else underscores_from False AtBegin body
         | _ \<Rightarrow> underscores_from False AtBegin body)"

definition read_float :: "string \<Rightarrow> f64 option" where
  "read_float s =
     (let (neg, body) = split_sign s;
          hex = (2 < length body \<and> body ! 0 = CHR ''0'' \<and> lower (body ! 1) = CHR ''x'');
          (m, nf, seen, rest) = scan_mantissa hex False 0 0 False (if hex then drop 2 body else body)
      in if \<not> seen \<or> (CHR ''_'' \<in> set s \<and> \<not> underscore_ok s) then None
         else case scan_exponent hex rest of
             None \<Rightarrow> None
           | Some e \<Rightarrow>
               Some (if hex then round_f64 neg m 1 (e - 4 * nf)
                     else if nf \<le> e then round_f64 neg (m * 10 ^ nat (e - nf)) 1 0
                     else round_f64 neg m (10 ^ nat (nf - e)) 0))"

text \<open>A value and an error: 0 with \<open>ErrSyntax\<close>, an infinity with \<open>ErrRange\<close>.\<close>

definition f64_zero :: f64 where
  "f64_zero = Finite False 0 (- 1074)"

definition parse_float :: "string \<Rightarrow> f64 \<times> num_error option" where
  "parse_float s =
     (case special_float s of
        Some x \<Rightarrow> (x, None)
      | None \<Rightarrow>
          (case read_float s of
             None \<Rightarrow> (f64_zero, Some ErrSyntax)
           | Some (Infinity neg) \<Rightarrow> (Infinity neg, Some ErrRange)
           | Some x \<Rightarrow> (x, None)))"

section \<open>Facts\<close>

definition wf_f64 :: "f64 \<Rightarrow> bool" where
  "wf_f64 x = (case x of Finite _ m e \<Rightarrow>
       0 \<le> m \<and> m < 2 ^ 53 \<and> - 1074 \<le> e \<and> e \<le> 971 \<and> (e = - 1074 \<or> 2 ^ 52 \<le> m) | _ \<Rightarrow> True)"

lemma parse_float_empty: "parse_float [] = (f64_zero, Some ErrSyntax)"
  by (simp add: parse_float_def special_float_def split_sign_def has_prefix_def read_float_def)

lemma round_half_even_exact: "0 < d \<Longrightarrow> round_half_even (m * d) d = m"
  by (simp add: round_half_even_def)

end
