(* ===== verification/Metrics.thy ===== *)
theory Metrics
  imports Catalogue GoFloat
begin

text \<open>
  The exporter's data (\<open>exporter/exporter.go\<close>), the interfaces to the code outside the
  repository, and the registration of metrics (\<open>exporter/metrics.go\<close>).

  Outside code is a parameter: the record \<open>env\<close> holds the Redis client library (redigo: the
  commands on a connection and the conversions of a reply), the checks of the Prometheus
  library when a metric is made, the clock and the order in which \<open>range\<close> visits a map.
  What the code relies on is stated where it is used, as hypotheses on these parameters.
\<close>

section \<open>Replies and commands\<close>

text \<open>The dynamic types a redigo reply has: \<open>nil\<close>, \<open>int64\<close>, \<open>[]byte\<close>, \<open>string\<close>,
  \<open>[]interface{}\<close>, \<open>redis.Error\<close>; and the arguments the exporter passes to a command.
  A Go result \<open>(value, error)\<close> whose value is zero on an error is a sum.\<close>

datatype reply =
    RNil
  | RInt int
  | RBytes string
  | RString string
  | RArray "reply list"
  | RError string

datatype arg = AStr string | AInt int | ABytes string

type_synonym 'a goresult = "string + 'a"
type_synonym conn = nat

section \<open>Metrics\<close>

datatype desc =
  Desc (desc_namespace: string) (desc_name: string) (desc_help: string) (desc_labels: "string list")

text \<open>The full name of a metric.\<close>

definition fq_name :: "string \<Rightarrow> string \<Rightarrow> string" where
  "fq_name namespace name = (if namespace = [] then name else namespace @ ''_'' @ name)"

definition desc_fq :: "desc \<Rightarrow> string" where
  "desc_fq d = fq_name (desc_namespace d) (desc_name d)"

text \<open>The collectors of the Prometheus library that a registry can hold beside the exporter.\<close>

datatype outsideCollector = ProcessCollector | GoCollector

datatype valueType = CounterValue | GaugeValue

datatype metric =
    ConstMetric desc valueType f64 "string list"
  | ConstSummary desc int f64 "(f64 \<times> f64) list" "string list"
  | ConstHistogram desc int f64 "(f64 \<times> int) list" "string list"
  | OwnCounter string int
  | OwnSummary string "f64 list"
  | OwnGauge string "(string \<times> string) list" f64

fun metric_desc :: "metric \<Rightarrow> desc option" where
  "metric_desc (ConstMetric d _ _ _) = Some d"
| "metric_desc (ConstSummary d _ _ _ _) = Some d"
| "metric_desc (ConstHistogram d _ _ _ _) = Some d"
| "metric_desc _ = None"

fun metric_labels :: "metric \<Rightarrow> string list" where
  "metric_labels (ConstMetric _ _ _ ls) = ls"
| "metric_labels (ConstSummary _ _ _ _ ls) = ls"
| "metric_labels (ConstHistogram _ _ _ _ ls) = ls"
| "metric_labels _ = []"

section \<open>The environment and the world\<close>

text \<open>Destinations of \<open>redis.Scan\<close> and the tagged fields of \<open>redis.ScanStruct\<close>, by the type
  of the Go variable, and the scanned values.\<close>

datatype dest = SkipDest | IntDest | UintDest | UintsDest | FloatDest | StringDest

datatype scanned = SInt int | SUints "int list" | SFloat f64 | SString string

text \<open>The TLS configuration of a client and the options of a new connection; certificates
  and pools of certificates are values of the TLS library, named by strings here.\<close>

record tls_config =
  InsecureSkipVerify :: bool
  Certificates :: "string list"
  RootCAs :: "string list"

datatype dial_option =
    DialConnectTimeout int
  | DialReadTimeout int
  | DialWriteTimeout int
  | DialTLSConfig tls_config
  | DialUseTLS bool
  | DialUsername string
  | DialPassword string

record 'c env =
  conn_do :: "conn \<Rightarrow> arg list \<Rightarrow> 'c \<Rightarrow> reply goresult \<times> 'c"
  conn_send :: "conn \<Rightarrow> arg list \<Rightarrow> 'c \<Rightarrow> string option \<times> 'c"
  conn_flush :: "conn \<Rightarrow> 'c \<Rightarrow> string option \<times> 'c"
  conn_receive :: "conn \<Rightarrow> 'c \<Rightarrow> reply goresult \<times> 'c"
  conn_close :: "conn \<Rightarrow> 'c \<Rightarrow> 'c"
  script_do :: "conn \<Rightarrow> arg list \<Rightarrow> 'c \<Rightarrow> reply goresult \<times> 'c"
  dial_url :: "string \<Rightarrow> dial_option list \<Rightarrow> 'c \<Rightarrow> conn goresult \<times> 'c"
  dial_addr :: "string \<Rightarrow> string \<Rightarrow> dial_option list \<Rightarrow> 'c \<Rightarrow> conn goresult \<times> 'c"
  cluster_refresh :: "string list \<Rightarrow> dial_option list \<Rightarrow> 'c \<Rightarrow> string option \<times> 'c"
  cluster_dial :: "string list \<Rightarrow> dial_option list \<Rightarrow> 'c \<Rightarrow> conn goresult \<times> 'c"
  cluster_retry :: "conn \<Rightarrow> int \<Rightarrow> int \<Rightarrow> 'c \<Rightarrow> conn goresult \<times> 'c"
  read_file :: "string \<Rightarrow> 'c \<Rightarrow> string goresult"
  load_x509_key_pair :: "string \<Rightarrow> string \<Rightarrow> 'c \<Rightarrow> string goresult"
  system_cert_pool :: "'c \<Rightarrow> string list goresult"
  certs_from_pem :: "string \<Rightarrow> string list"
  redis_String :: "reply goresult \<Rightarrow> string goresult"
  redis_Int64 :: "reply goresult \<Rightarrow> int goresult"
  redis_Int :: "reply goresult \<Rightarrow> int goresult"
  redis_Values :: "reply goresult \<Rightarrow> reply list goresult"
  redis_Strings :: "reply goresult \<Rightarrow> string list goresult"
  redis_StringMap :: "reply goresult \<Rightarrow> (string \<times> string) list goresult"
  redis_Scan :: "reply list \<Rightarrow> dest list \<Rightarrow> scanned list goresult"
  redis_ScanStruct :: "reply list \<Rightarrow> (string \<times> dest) list \<Rightarrow> (string \<times> scanned) list goresult"
  regexp_match :: "string \<Rightarrow> (string \<Rightarrow> bool) option"
  const_metric_err :: "desc \<Rightarrow> valueType \<Rightarrow> f64 \<Rightarrow> string list \<Rightarrow> string option"
  const_summary_err :: "desc \<Rightarrow> string list \<Rightarrow> string option"
  const_histogram_err :: "desc \<Rightarrow> string list \<Rightarrow> string option"
  uint64_out_of_range :: "f64 \<Rightarrow> int"
  clock :: "nat \<Rightarrow> int"
  range_order :: "nat \<Rightarrow> string list \<Rightarrow> string list"
  fmt_sharp_v :: "reply list \<Rightarrow> string"
  fmt_url_error :: "string \<Rightarrow> string"
  register_error :: "desc list \<Rightarrow> desc list \<Rightarrow> string option"
  outside_descs :: "outsideCollector \<Rightarrow> desc list"
  mux_message :: "string list \<Rightarrow> string \<Rightarrow> string"
  unicode_name :: "string \<Rightarrow> bool"
  json_error :: "string \<Rightarrow> string"
  bcrypt_matches :: "string \<Rightarrow> string \<Rightarrow> bool"
  bcrypt_cost_error :: "string \<Rightarrow> string option"
  go_version :: string

text \<open>The mutable state: the network (all connections), the descriptions made so far, the
  metrics sent on the channel, a counter of the clock readings and map traversals, each of
  which may turn out differently, and the exporter's metrics about itself (a counter, the
  observations of a summary, and a counter).\<close>

record 'c world =
  net :: 'c
  descs :: "string \<rightharpoonup> desc"
  chan :: "metric list"
  tick :: nat
  totalScrapes :: int
  scrapeDurations :: "f64 list"
  targetErrors :: int

section \<open>Options and the exporter\<close>

record BuildInfo =
  Version :: string
  CommitSha :: string
  Date :: string

record Options =
  User :: string
  Password :: string
  Namespace :: string
  PasswordMap :: "(string \<times> string) list"
  ConfigCommandName :: string
  CheckKeys :: string
  CheckSingleKeys :: string
  CheckStreams :: string
  CheckSingleStreams :: string
  StreamsExcludeConsumerMetrics :: bool
  CheckKeysBatchSize :: int
  CheckKeyGroups :: string
  MaxDistinctKeyGroups :: int
  CountKeys :: string
  LuaScript :: "(string \<times> string) list"
  ClientCertFile :: string
  ClientKeyFile :: string
  CaCertFile :: string
  InclConfigMetrics :: bool
  InclModulesMetrics :: bool
  InclSearchIndexesMetrics :: bool
  CheckSearchIndexes :: string
  DisableExportingKeyValues :: bool
  ExcludeLatencyHistogramMetrics :: bool
  RedactConfigMetrics :: bool
  InclSystemMetrics :: bool
  SkipTLSVerification :: bool
  SetClientName :: bool
  IsTile38 :: bool
  IsCluster :: bool
  ExportClientList :: bool
  ExportClientsInclPort :: bool
  ConnectionTimeouts :: int
  MetricsPath :: string
  RedisMetricsOnly :: bool
  PingOnConnect :: bool
  RedisPwdFile :: string
  BasicAuthUsername :: string
  BasicAuthPassword :: string
  BasicAuthHashPassword :: string
  SkipCheckKeysForRoleMaster :: bool
  InclMetricsForEmptyDatabases :: bool

record Exporter =
  redisAddr :: string
  options :: Options
  metricMapCounters :: "(string \<times> string) list"
  metricMapGauges :: "(string \<times> string) list"
  buildInfo :: BuildInfo

text \<open>A \<open>('c, 'a) io\<close> is code that works on the world.\<close>

type_synonym ('c, 'a) io = "('c world, 'a) prog"

definition doRedisCmd :: "'c env \<Rightarrow> conn \<Rightarrow> arg list \<Rightarrow> ('c, reply goresult) io" where
  "doRedisCmd env c args = act (\<lambda>w. let (r, n) = conn_do env c args (net w) in (r, w\<lparr>net := n\<rparr>))"

definition sendCmd :: "'c env \<Rightarrow> conn \<Rightarrow> arg list \<Rightarrow> ('c, string option) io" where
  "sendCmd env c args = act (\<lambda>w. let (r, n) = conn_send env c args (net w) in (r, w\<lparr>net := n\<rparr>))"

definition flushCmds :: "'c env \<Rightarrow> conn \<Rightarrow> ('c, string option) io" where
  "flushCmds env c = act (\<lambda>w. let (r, n) = conn_flush env c (net w) in (r, w\<lparr>net := n\<rparr>))"

definition receive :: "'c env \<Rightarrow> conn \<Rightarrow> ('c, reply goresult) io" where
  "receive env c = act (\<lambda>w. let (r, n) = conn_receive env c (net w) in (r, w\<lparr>net := n\<rparr>))"

definition scriptDo :: "'c env \<Rightarrow> conn \<Rightarrow> arg list \<Rightarrow> ('c, reply goresult) io" where
  "scriptDo env c args = act (\<lambda>w. let (r, n) = script_do env c args (net w) in (r, w\<lparr>net := n\<rparr>))"

definition timeNow :: "'c env \<Rightarrow> ('c, int) io" where
  "timeNow env = act (\<lambda>w. (clock env (tick w), w\<lparr>tick := Suc (tick w)\<rparr>))"

text \<open>The conversion \<open>uint64(x)\<close> truncates; Go leaves the result open for a value that does not
  fit.\<close>

definition uint64_of_f64 :: "'c env \<Rightarrow> f64 \<Rightarrow> int" where
  "uint64_of_f64 env x = (case f64_trunc x of
       Some n \<Rightarrow> if 0 \<le> n \<and> n \<le> max_uint64 then n else uint64_out_of_range env x
     | None \<Rightarrow> uint64_out_of_range env x)"

text \<open>The clock counts nanoseconds since the epoch. \<open>time.Since\<close> saturates at the range of
  \<open>int64\<close>; \<open>Milliseconds\<close> truncates; \<open>Seconds\<close> adds the whole seconds and the rest as
  floats.\<close>

definition unix_seconds :: "int \<Rightarrow> int" where
  "unix_seconds t = t div 1000000000"

definition time_between :: "int \<Rightarrow> int \<Rightarrow> int" where
  "time_between start now = max min_int64 (min max_int64 (now - start))"

definition trunc_div :: "int \<Rightarrow> int \<Rightarrow> int" where
  "trunc_div a b = (if a < 0 then - ((- a) div b) else a div b)"

definition duration_milliseconds :: "int \<Rightarrow> int" where
  "duration_milliseconds d = trunc_div d 1000000"

definition duration_seconds :: "int \<Rightarrow> f64" where
  "duration_seconds d =
     (let sec = trunc_div d 1000000000; nsec = d - sec * 1000000000
      in f64_add (f64_of_int sec) (f64_div (f64_of_int nsec) (f64_of_int 1000000000)))"

text \<open>\<open>for k, v := range m\<close>: the entries of the map in the order of this traversal.\<close>

definition rangeMap :: "'c env \<Rightarrow> (string \<times> 'v) list \<Rightarrow> ('c, (string \<times> 'v) list) io" where
  "rangeMap env m = act (\<lambda>w.
     (List.map_filter (\<lambda>k. map_option (Pair k) (map_of m k)) (range_order env (tick w) (map fst m)),
      w\<lparr>tick := Suc (tick w)\<rparr>))"

text \<open>The value of a conversion whose error is ignored.\<close>

definition values_or_nil :: "'c env \<Rightarrow> reply \<Rightarrow> reply list" where
  "values_or_nil env r = (case redis_Values env (Inr r) of Inl _ \<Rightarrow> [] | Inr vs \<Rightarrow> vs)"

definition int_or_zero :: "'c env \<Rightarrow> reply \<Rightarrow> int" where
  "int_or_zero env r = (case redis_Int env (Inr r) of Inl _ \<Rightarrow> 0 | Inr i \<Rightarrow> i)"

definition string_or_empty :: "'c env \<Rightarrow> reply goresult \<Rightarrow> string" where
  "string_or_empty env r = (case redis_String env r of Inl _ \<Rightarrow> [] | Inr s \<Rightarrow> s)"

definition int64_or_zero :: "'c env \<Rightarrow> reply \<Rightarrow> int" where
  "int64_or_zero env r = (case redis_Int64 env (Inr r) of Inl _ \<Rightarrow> 0 | Inr i \<Rightarrow> i)"

text \<open>The fields of a scanned structure; a field that is not in the reply keeps the zero
  value.\<close>

definition int_field :: "(string \<times> scanned) list \<Rightarrow> string \<Rightarrow> int" where
  "int_field m k = (case map_of m k of Some (SInt n) \<Rightarrow> n | _ \<Rightarrow> 0)"

definition float_field :: "(string \<times> scanned) list \<Rightarrow> string \<Rightarrow> f64" where
  "float_field m k = (case map_of m k of Some (SFloat x) \<Rightarrow> x | _ \<Rightarrow> f64_zero)"

definition string_field :: "(string \<times> scanned) list \<Rightarrow> string \<Rightarrow> string" where
  "string_field m k = (case map_of m k of Some (SString s) \<Rightarrow> s | _ \<Rightarrow> [])"

definition send_metric :: "metric \<Rightarrow> ('c, unit) io" where
  "send_metric m = modify (\<lambda>w. w\<lparr>chan := chan w @ [m]\<rparr>)"

section \<open>Registration (\<open>exporter/metrics.go\<close>)\<close>

definition metric_char :: "char \<Rightarrow> bool" where
  "metric_char c \<longleftrightarrow>
     (97 \<le> byte c \<and> byte c \<le> 122) \<or> (65 \<le> byte c \<and> byte c \<le> 90) \<or> is_digit c \<or> c = CHR ''_''"

fun sanitizeMetricName :: "string \<Rightarrow> string" where
  "sanitizeMetricName [] = []"
| "sanitizeMetricName (c # cs) =
     (if metric_char c then c # sanitizeMetricName cs
      else CHR ''_'' # sanitizeMetricName (drop (rune_width (c # cs) - 1) cs))"

definition newMetricDescr :: "string \<Rightarrow> string \<Rightarrow> string \<Rightarrow> string list \<Rightarrow> desc" where
  "newMetricDescr namespace metricName docString labels = Desc namespace metricName docString labels"

definition includeMetric :: "Exporter \<Rightarrow> string \<Rightarrow> bool" where
  "includeMetric e s \<longleftrightarrow>
     (if has_prefix s ''db'' \<or> has_prefix s ''cmdstat_'' \<or> has_prefix s ''cluster_'' then True
      else if map_of (metricMapGauges e) s \<noteq> None then True
      else map_of (metricMapCounters e) s \<noteq> None)"

definition mustFindMetricDescription :: "string \<Rightarrow> ('c, desc) io" where
  "mustFindMetricDescription metricName = (\<lambda>w.
     case descs w metricName of
       None \<Rightarrow> Panic (''couldn't find metric description for '' @ metricName)
     | Some description \<Rightarrow> Fine (description, w))"

definition createMetricDescription :: "Exporter \<Rightarrow> string \<Rightarrow> string list \<Rightarrow> ('c, desc) io" where
  "createMetricDescription e metricName labels = (\<lambda>w.
     case descs w metricName of
       Some desc \<Rightarrow> Fine (desc, w)
     | None \<Rightarrow>
         let d = newMetricDescr (Namespace (options e)) metricName (metricName @ '' metric'') labels
         in Fine (d, w\<lparr>descs := (descs w)(metricName \<mapsto> d)\<rparr>))"

text \<open>A call of \<open>createMetricDescription\<close> as a statement.\<close>

definition describe :: "Exporter \<Rightarrow> string \<Rightarrow> string list \<Rightarrow> ('c, unit) io" where
  "describe e metricName labels = andthen (createMetricDescription e metricName labels) skip"

definition registerConstMetric ::
  "'c env \<Rightarrow> Exporter \<Rightarrow> string \<Rightarrow> f64 \<Rightarrow> valueType \<Rightarrow> string list \<Rightarrow> ('c, unit) io" where
  "registerConstMetric env e metric val valType labelValues =
     bnd (if length labelValues = 0 then createMetricDescription e metric []
          else mustFindMetricDescription metric)
       (\<lambda>desc. case const_metric_err env desc valType val labelValues of
          Some err \<Rightarrow> skip
        | None \<Rightarrow> send_metric (ConstMetric desc valType val labelValues))"

definition registerConstMetricGauge ::
  "'c env \<Rightarrow> Exporter \<Rightarrow> string \<Rightarrow> f64 \<Rightarrow> string list \<Rightarrow> ('c, unit) io" where
  "registerConstMetricGauge env e metric val labels =
     registerConstMetric env e metric val GaugeValue labels"

definition registerConstSummary ::
  "'c env \<Rightarrow> Exporter \<Rightarrow> string \<Rightarrow> int \<Rightarrow> f64 \<Rightarrow> (f64 \<times> f64) list \<Rightarrow> string list
   \<Rightarrow> ('c, unit) io" where
  "registerConstSummary env e metric count sm latencyMap labelValues =
     bnd (mustFindMetricDescription metric)
       (\<lambda>desc. case const_summary_err env desc labelValues of
          Some err \<Rightarrow> panic err
        | None \<Rightarrow> send_metric (ConstSummary desc count sm latencyMap labelValues))"

definition registerConstHistogram ::
  "'c env \<Rightarrow> Exporter \<Rightarrow> string \<Rightarrow> int \<Rightarrow> f64 \<Rightarrow> (f64 \<times> int) list \<Rightarrow> string list
   \<Rightarrow> ('c, unit) io" where
  "registerConstHistogram env e metric count sm buckets labelValues =
     bnd (mustFindMetricDescription metric)
       (\<lambda>desc. case const_histogram_err env desc labelValues of
          Some err \<Rightarrow> panic err
        | None \<Rightarrow> send_metric (ConstHistogram desc count sm buckets labelValues))"

definition metric_name_for :: "Exporter \<Rightarrow> string \<Rightarrow> string" where
  "metric_name_for e org =
     (case map_of (metricMapGauges e) org of
        Some newName \<Rightarrow> newName
      | None \<Rightarrow> (case map_of (metricMapCounters e) org of Some newName \<Rightarrow> newName | None \<Rightarrow> org))"

definition field_value :: "string \<Rightarrow> f64 \<times> num_error option" where
  "field_value fieldValue =
     (if fieldValue = ''ok'' \<or> fieldValue = ''true'' then (f64_of_int 1, None)
      else if fieldValue = ''err'' \<or> fieldValue = ''fail'' \<or> fieldValue = ''false''
      then (f64_of_int 0, None)
      else parse_float fieldValue)"

definition parseAndRegisterConstMetric ::
  "'c env \<Rightarrow> Exporter \<Rightarrow> string \<Rightarrow> string \<Rightarrow> ('c, unit) io" where
  "parseAndRegisterConstMetric env e fieldKey fieldValue =
     (let orgMetricName = sanitizeMetricName fieldKey;
          metricName = metric_name_for e orgMetricName;
          (val, err) = field_value fieldValue
      in if err \<noteq> None then skip
         else
           let t = (if get_or [] (metricMapCounters e) orgMetricName \<noteq> [] then CounterValue
                    else GaugeValue);
               (metricName, val) =
                 (if metricName = ''latest_fork_usec''
                  then (''latest_fork_seconds'', f64_div val (f64_of_int 1000000))
                  else (metricName, val))
           in registerConstMetric env e metricName val t [])"

section \<open>Metric names\<close>

lemma sanitize_id: "list_all metric_char s \<Longrightarrow> sanitizeMetricName s = s"
  by (induction s) simp_all

lemma sanitize_chars: "list_all metric_char (sanitizeMetricName s)"
proof (induction s rule: sanitizeMetricName.induct)
  case 1
  show ?case by simp
next
  case (2 c cs)
  have "metric_char CHR ''_''" by (simp add: metric_char_def)
  with 2 show ?case by simp
qed

text \<open>a sanitized name has only characters Prometheus allows in a metric name, a name of such
  characters is left alone, and sanitizing twice is sanitizing once.\<close>

theorem sanitizeMetricName_valid:
  "list_all metric_char (sanitizeMetricName s) \<and>
   sanitizeMetricName (sanitizeMetricName s) = sanitizeMetricName s \<and>
   (sanitizeMetricName s = s \<longleftrightarrow> list_all metric_char s)"
  using sanitize_chars [of s] sanitize_id by metis

section \<open>The description store as an interface\<close>

text \<open>What the rest of the exporter relies on: making a description that exists changes
  nothing and gives the existing one, making a new one adds it and leaves the others alone.\<close>

locale description_store =
  fixes make :: "'k \<Rightarrow> 'l \<Rightarrow> ('s, 'd) prog"
    and look :: "'s \<Rightarrow> 'k \<Rightarrow> 'd option"
  assumes make_found: "look s k = Some d \<Longrightarrow> make k l s = Fine (d, s)"
    and make_new: "look s k = None \<Longrightarrow>
      \<exists>d s'. make k l s = Fine (d, s') \<and> look s' k = Some d \<and> (\<forall>k'. k' \<noteq> k \<longrightarrow> look s' k' = look s k')"
begin

lemma make_stored: "\<exists>d s'. make k l s = Fine (d, s') \<and> look s' k = Some d"
proof (cases "look s k")
  case None
  with make_new show ?thesis by blast
next
  case (Some d)
  with make_found [OF Some] show ?thesis by blast
qed

lemma make_result: "make k l s = Fine (d, s') \<Longrightarrow> look s' k = Some d"
  using make_stored [of k l s] by auto

lemma make_keeps:
  assumes "make k l s = Fine (d, s')" and "look s k' = Some d'"
  shows "look s' k' = Some d'"
proof (cases "k' = k")
  case True
  with assms(2) make_found [of s k d' l] assms(1) show ?thesis by auto
next
  case False
  show ?thesis
  proof (cases "look s k")
    case None
    with make_new [OF None, of l] assms False show ?thesis by auto
  next
    case (Some d0)
    with make_found [OF Some, of l] assms show ?thesis by auto
  qed
qed

text \<open>The first description of a name wins: whatever labels a later call passes, it gets
  the description that is there.\<close>

lemma make_first_wins: "make k l s = Fine (d, s') \<Longrightarrow> make k l' s' = Fine (d, s')"
  by (rule make_found) (rule make_result)

lemma make_idempotent: "andthen (make k l) (make k l') s = make k l s"
  using make_stored [of k l s] by (auto simp: andthen_def bnd_def make_found)

end

interpretation store: description_store "createMetricDescription e" "descs"
  by unfold_locales (auto simp: createMetricDescription_def Let_def)

section \<open>Safety of registration\<close>

text \<open>What Prometheus documents of \<open>NewConstMetric\<close>, \<open>NewConstSummary\<close> and
  \<open>NewConstHistogram\<close>: without as many label values as the description has labels they
  return an error.\<close>

definition prom_checks_labels :: "'c env \<Rightarrow> bool" where
  "prom_checks_labels env \<longleftrightarrow>
     (\<forall>d t v ls. const_metric_err env d t v ls = None \<longrightarrow> length ls = length (desc_labels d)) \<and>
     (\<forall>d ls. const_summary_err env d ls = None \<longrightarrow> length ls = length (desc_labels d)) \<and>
     (\<forall>d ls. const_histogram_err env d ls = None \<longrightarrow> length ls = length (desc_labels d))"

text \<open>And they return none when the number is right and the values are valid UTF-8; plain ASCII
  is.\<close>

definition ascii :: "string \<Rightarrow> bool" where
  "ascii s \<longleftrightarrow> list_all (\<lambda>c. byte c < 128) s"

definition prom_accepts_ascii :: "'c env \<Rightarrow> bool" where
  "prom_accepts_ascii env \<longleftrightarrow>
     (\<forall>d t v ls. length ls = length (desc_labels d) \<longrightarrow> list_all ascii ls \<longrightarrow>
        const_metric_err env d t v ls = None \<and> const_summary_err env d ls = None \<and>
        const_histogram_err env d ls = None)"

definition initial_descs :: "Exporter \<Rightarrow> (string \<rightharpoonup> desc)" where
  "initial_descs e =
     map_of (map (\<lambda>(k, txt, lbls). (k, newMetricDescr (Namespace (options e)) k txt lbls)) catalogue)"

text \<open>A metric on the channel agrees with the description stored under its name.\<close>

definition consistent :: "(string \<rightharpoonup> desc) \<Rightarrow> metric \<Rightarrow> bool" where
  "consistent D m = (case metric_desc m of
       None \<Rightarrow> True
     | Some d \<Rightarrow> D (desc_name d) = Some d \<and> length (metric_labels m) = length (desc_labels d))"

text \<open>What is known at a point of a scrape: names that have a description, the metrics sent
  earlier, descriptions made earlier, and the values of the exporter's own metrics, which no
  collector changes.\<close>

record ctx =
  named :: "string set"
  sent :: "metric list"
  known :: "string \<rightharpoonup> desc"
  counted :: "(int \<times> f64 list \<times> int) option"

definition no_ctx :: ctx where
  "no_ctx = \<lparr>named = {}, sent = [], known = Map.empty, counted = None\<rparr>"

abbreviation add_name :: "string \<Rightarrow> ctx \<Rightarrow> ctx" where
  "add_name m N \<equiv> N\<lparr>named := insert m (named N)\<rparr>"

text \<open>The invariant of a scrape: descriptions are stored under their own name, the initial
  ones are all there, unchanged, what is known is so, and every metric sent so far is
  consistent.\<close>

definition inv :: "Exporter \<Rightarrow> ctx \<Rightarrow> 'c world \<Rightarrow> bool" where
  "inv e N w \<longleftrightarrow>
     (\<forall>k d. descs w k = Some d \<longrightarrow> desc_name d = k) \<and>
     initial_descs e \<subseteq>\<^sub>m descs w \<and>
     named N \<subseteq> dom (descs w) \<and>
     (\<forall>m \<in> set (chan w). consistent (descs w) m) \<and>
     (\<exists>ms. chan w = sent N @ ms) \<and>
     known N \<subseteq>\<^sub>m descs w \<and>
     counted N \<in> {None, Some (totalScrapes w, scrapeDurations w, targetErrors w)}"

definition has_desc :: "ctx \<Rightarrow> string \<Rightarrow> bool" where
  "has_desc N n \<longleftrightarrow> catalogued n \<or> n \<in> named N"

lemma has_desc_simps [simp]:
  "catalogued n \<Longrightarrow> has_desc N n"
  "has_desc (add_name n N) n"
  "has_desc N n \<Longrightarrow> has_desc (add_name m N) n"
  by (auto simp: has_desc_def)

lemma dom_initial_descs: "catalogued n \<longleftrightarrow> n \<in> dom (initial_descs e)"
proof -
  have "fst ` set (map (\<lambda>(k, txt, lbls). (k, newMetricDescr (Namespace (options e)) k txt lbls)) catalogue)
      = fst ` set catalogue"
    by force
  then show ?thesis
    by (simp add: initial_descs_def catalogued_def catalogue_names_def dom_map_of_conv_image_fst)
qed

lemma inv_has_desc: "inv e N w \<Longrightarrow> has_desc N n \<Longrightarrow> \<exists>d. descs w n = Some d \<and> desc_name d = n"
  using dom_initial_descs [of n e]
  by (auto simp: inv_def has_desc_def dom_def map_le_def)

lemma inv_weaken:
  "inv e N w \<Longrightarrow> named M \<subseteq> named N \<Longrightarrow> sent M = sent N \<Longrightarrow> known M = known N \<Longrightarrow>
   counted M = counted N \<Longrightarrow> inv e M w"
  by (auto simp: inv_def)

lemma inv_world [simp]:
  "inv e N (w\<lparr>net := n\<rparr>) = inv e N w"
  "inv e N (w\<lparr>tick := t\<rparr>) = inv e N w"
  by (simp_all add: inv_def)

lemma consistent_mono: "consistent D m \<Longrightarrow> D \<subseteq>\<^sub>m D' \<Longrightarrow> consistent D' m"
  by (auto simp: consistent_def map_le_def dom_def split: option.splits)

lemma inv_create:
  assumes "inv e N w" and "descs w m = None"
  shows "inv e (add_name m N) (w\<lparr>descs := (descs w)(m \<mapsto> newMetricDescr ns m h ls)\<rparr>)"
proof -
  let ?D = "(descs w)(m \<mapsto> newMetricDescr ns m h ls)"
  have le: "descs w \<subseteq>\<^sub>m ?D" using assms(2) by (auto simp: map_le_def)
  have "initial_descs e \<subseteq>\<^sub>m ?D"
    using assms(1) le by (auto simp: inv_def intro: map_le_trans)
  moreover have "\<forall>m' \<in> set (chan w). consistent ?D m'"
    using assms(1) le by (auto simp: inv_def intro: consistent_mono)
  moreover have "known N \<subseteq>\<^sub>m ?D"
    using assms(1) le by (auto simp: inv_def intro: map_le_trans)
  ultimately show ?thesis
    using assms(1) by (auto simp: inv_def newMetricDescr_def)
qed

lemma inv_send:
  assumes "inv e N w" and "consistent (descs w) m"
  shows "inv e N (w\<lparr>chan := chan w @ [m]\<rparr>)"
  using assms by (auto simp: inv_def)

lemma holds_create: "holds (inv e N) (createMetricDescription e m ls)
    (\<lambda>d w. inv e (add_name m N) w \<and> descs w m = Some d)"
proof (rule holdsI)
  fix w :: "'a world"
  assume "inv e N w"
  then show "case createMetricDescription e m ls w of
      Fine (d, w') \<Rightarrow> inv e (add_name m N) w' \<and> descs w' m = Some d | Panic _ \<Rightarrow> False | Hang \<Rightarrow> True"
    using inv_create [of e N w m "Namespace (options e)" "m @ '' metric''" ls]
    by (cases "descs w m") (auto simp: createMetricDescription_def Let_def inv_def)
qed

lemma holds_find: "has_desc N m \<Longrightarrow>
    holds (inv e N) (mustFindMetricDescription m) (\<lambda>d w. inv e N w \<and> descs w m = Some d)"
  using inv_has_desc
  by (fastforce simp: holds_def mustFindMetricDescription_def)

lemma keeps_send_checked:
  fixes g :: "string \<Rightarrow> ('c, unit) io"
  assumes "f d = None \<longrightarrow> length ls = length (desc_labels d)"
    and "metric_desc mt = Some d" and "metric_labels mt = ls"
    and "\<And>x. f d = Some x \<Longrightarrow> keeps (inv e N) (g x)"
  shows "holds (\<lambda>w. inv e N w \<and> descs w m = Some d)
      (case f d of Some x \<Rightarrow> g x | None \<Rightarrow> send_metric mt) (\<lambda>_. inv e N)"
proof (cases "f d")
  case None
  show ?thesis
  proof (rule holdsI)
    fix w :: "'c world"
    assume w: "inv e N w \<and> descs w m = Some d"
    then have "desc_name d = m" by (auto simp: inv_def)
    with w None assms(1-3) have "consistent (descs w) mt" by (simp add: consistent_def)
    with w None show "case (case f d of Some x \<Rightarrow> g x | None \<Rightarrow> send_metric mt) w of
        Fine (a, s') \<Rightarrow> inv e N s' | Panic _ \<Rightarrow> False | Hang \<Rightarrow> True"
      by (simp add: send_metric_def modify_def inv_send)
  qed
next
  case (Some x)
  with assms(4) show ?thesis by (auto intro: holds_pre)
qed

lemma keeps_registerConstMetric [hoare_rules]:
  assumes "prom_checks_labels env" and "ls = [] \<or> has_desc N m"
  shows "keeps (inv e N) (registerConstMetric env e m v t ls)"
proof -
  have get: "holds (inv e N) (if length ls = 0 then createMetricDescription e m [] else mustFindMetricDescription m)
      (\<lambda>d w. inv e N w \<and> descs w m = Some d)"
  proof (cases "ls = []")
    case True
    have "holds (inv e N) (createMetricDescription e m []) (\<lambda>d w. inv e N w \<and> descs w m = Some d)"
      by (rule holds_post [OF holds_create]) (auto intro: inv_weaken)
    with True show ?thesis by simp
  next
    case False
    with assms(2) show ?thesis by (simp add: holds_find)
  qed
  show ?thesis
    unfolding registerConstMetric_def
    by (rule holds_bnd [OF get], rule keeps_send_checked)
      (use assms(1) in \<open>auto simp: prom_checks_labels_def intro: keeps_skip\<close>)
qed

lemma keeps_gauge [hoare_rules]:
  "prom_checks_labels env \<Longrightarrow> ls = [] \<or> has_desc N m \<Longrightarrow>
   keeps (inv e N) (registerConstMetricGauge env e m v ls)"
  by (simp add: registerConstMetricGauge_def keeps_registerConstMetric)

lemma keeps_create [hoare_rules]: "keeps (inv e N) (createMetricDescription e m ls)"
  by (rule holds_post [OF holds_create]) (auto intro: inv_weaken)

lemma keeps_after_create:
  assumes "keeps (inv e (add_name m N)) n"
  shows "keeps (inv e N) (andthen (createMetricDescription e m ls) n)"
  unfolding andthen_def
proof (rule holds_bnd [OF holds_create])
  fix d
  show "holds (\<lambda>w. inv e (add_name m N) w \<and> descs w m = Some d) n (\<lambda>_. inv e N)"
    by (rule holds_pre [OF holds_post [OF assms]]) (auto intro: inv_weaken)
qed

lemma keeps_describe [hoare_rules]: "keeps (inv e N) (describe e m ls)"
  unfolding describe_def by (intro hoare_rules)

lemma holds_describe: "holds (inv e N) (describe e m ls) (\<lambda>_. inv e (add_name m N))"
  unfolding describe_def
  by (rule holds_andthen [OF holds_post [OF holds_create] keeps_skip]) simp

lemma holds_describe_all:
  "holds (inv e N) (for_each (\<lambda>m. describe e m ls) ms) (\<lambda>_. inv e (N\<lparr>named := set ms \<union> named N\<rparr>))"
proof (induction ms arbitrary: N)
  case Nil
  then show ?case by (simp add: keeps_skip)
next
  case (Cons m ms)
  from Cons [of "add_name m N"] show ?case
    unfolding for_each.simps by (intro holds_andthen [OF holds_describe]) simp
qed

lemma keeps_after_describe: "keeps (inv e (add_name m N)) n \<Longrightarrow> keeps (inv e N) (andthen (describe e m ls) n)"
  by (rule holds_andthen [OF holds_describe], erule holds_post) (auto intro: inv_weaken)

lemma keeps_net [hoare_rules]:
  "keeps (inv e N) (doRedisCmd env c args)" "keeps (inv e N) (sendCmd env c args)"
  "keeps (inv e N) (flushCmds env c)" "keeps (inv e N) (receive env c)"
  "keeps (inv e N) (timeNow env)" "keeps (inv e N) (rangeMap env m)" "keeps (inv e N) (scriptDo env c args)"
  by (simp_all add: holds_def doRedisCmd_def sendCmd_def flushCmds_def receive_def timeNow_def
      rangeMap_def scriptDo_def act_def split: prod.splits)

text \<open>A command whose replies have a property \<open>Q\<close> on this server.\<close>

lemma holds_reply:
  assumes "\<And>n. Q (fst (conn_do env c args n))" and "\<And>r. Q r \<Longrightarrow> holds (inv e N) (f r) R"
  shows "holds (inv e N) (bnd (doRedisCmd env c args) f) R"
proof (rule holds_bnd [where Q = "\<lambda>r w. Q r \<and> inv e N w"])
  show "holds (inv e N) (doRedisCmd env c args) (\<lambda>r w. Q r \<and> inv e N w)"
    using assms(1) by (auto simp: holds_def doRedisCmd_def act_def split: prod.splits) (metis fst_conv)
  show "holds (\<lambda>w. Q r \<and> inv e N w) (f r) R" for r
    by (rule holds_assume) (rule assms(2))
qed

lemma keeps_parseAndRegister [hoare_rules]:
  "prom_checks_labels env \<Longrightarrow> keeps (inv e N) (parseAndRegisterConstMetric env e k v)"
  by (auto simp: parseAndRegisterConstMetric_def Let_def split: prod.splits
      intro!: keeps_skip keeps_registerConstMetric)

text \<open>What is kept in every context only ever adds metrics and descriptions.\<close>

lemma keeps_grows:
  assumes "\<And>N. keeps (inv e N) m" and "inv e N w" and "m w = Fine (a, w')"
  shows "(\<exists>ms. chan w' = chan w @ ms) \<and> descs w \<subseteq>\<^sub>m descs w' \<and> totalScrapes w' = totalScrapes w \<and>
    scrapeDurations w' = scrapeDurations w \<and> targetErrors w' = targetErrors w"
proof -
  let ?N = "N\<lparr>sent := chan w, known := descs w,
    counted := Some (totalScrapes w, scrapeDurations w, targetErrors w)\<rparr>"
  have "inv e ?N w" using assms(2) by (simp add: inv_def)
  with assms(1,3) have "inv e ?N w'" by (blast dest: holds_Fine)
  then show ?thesis by (simp add: inv_def)
qed

lemma holds_with_chan:
  assumes "\<And>N. holds (inv e N) m (\<lambda>a w. Q a (chan w) \<and> inv e N w)"
    and "\<And>xs ys. P xs \<Longrightarrow> P (xs @ ys)"
  shows "holds (\<lambda>w. P (chan w) \<and> inv e N w) m (\<lambda>a w. Q a (chan w) \<and> P (chan w) \<and> inv e N w)"
proof (rule holdsI)
  fix w :: "'a world"
  assume w: "P (chan w) \<and> inv e N w"
  then have s: "inv e (N\<lparr>sent := chan w\<rparr>) w" by (simp add: inv_def)
  show "case m w of Fine (a, w') \<Rightarrow> Q a (chan w') \<and> P (chan w') \<and> inv e N w'
      | Panic _ \<Rightarrow> False | Hang \<Rightarrow> True"
  proof (cases "m w")
    case (Fine r)
    obtain a w' where r: "r = (a, w')" by (cases r)
    with Fine holds_Fine [OF assms(1) s] holds_Fine [OF assms(1)] w
    have "Q a (chan w')" "inv e (N\<lparr>sent := chan w\<rparr>) w'" "inv e N w'" by blast+
    moreover from this(2) obtain ms where "chan w' = chan w @ ms" by (auto simp: inv_def)
    ultimately show ?thesis using w assms(2) r Fine by simp
  next
    case (Panic msg)
    with holds_no_panic [OF assms(1) s, of msg] show ?thesis by simp
  qed simp
qed

lemma keeps_with_chan:
  assumes "\<And>N. keeps (inv e N) m" and "\<And>xs ys. P xs \<Longrightarrow> P (xs @ ys)"
  shows "holds (\<lambda>w. P (chan w) \<and> inv e N w) m (\<lambda>_ w. P (chan w) \<and> inv e N w)"
  using holds_with_chan [of e m "\<lambda>_ _. True" P N] assms by simp

text \<open>Summaries and histograms are made with the \<open>Must\<close> functions, which panic on an error: their
  names must be in the catalogue with as many labels as values are given, and the values must be
  acceptable.\<close>

lemma initial_descs_map_of:
  "initial_descs e m = map_option (\<lambda>(txt, lbls). newMetricDescr (Namespace (options e)) m txt lbls)
     (map_of catalogue m)"
proof -
  have "map_of (map (\<lambda>(k, txt, lbls). (k, newMetricDescr ns k txt lbls)) xs) m =
      map_option (\<lambda>(txt, lbls). newMetricDescr ns m txt lbls) (map_of xs m)"
    for ns and xs :: "(string \<times> string \<times> string list) list"
    by (induction xs) auto
  then show ?thesis by (simp add: initial_descs_def)
qed

lemma initial_descs_None: "map_of catalogue m = None \<Longrightarrow> initial_descs e m = None"
  by (simp add: initial_descs_map_of)

lemma inv_catalogue:
  assumes "inv e N w" and "map_of catalogue m = Some (txt, ls)"
  shows "\<exists>d. descs w m = Some d \<and> desc_name d = m \<and> desc_labels d = ls"
proof -
  have "initial_descs e m = Some (newMetricDescr (Namespace (options e)) m txt ls)"
    using assms(2) by (simp add: initial_descs_map_of)
  with assms(1) have "descs w m = Some (newMetricDescr (Namespace (options e)) m txt ls)"
    by (auto simp: inv_def map_le_def dom_def)
  then show ?thesis by (simp add: newMetricDescr_def)
qed

lemma keeps_must:
  assumes "map_of catalogue m = Some (txt, lbls)" and "length ls = length lbls"
    and "\<And>d. length ls = length (desc_labels d) \<Longrightarrow> f d = None"
    and "\<And>d. metric_desc (mk d) = Some d \<and> metric_labels (mk d) = ls"
  shows "keeps (inv e N) (bnd (mustFindMetricDescription m)
      (\<lambda>desc. case f desc of Some err \<Rightarrow> panic err | None \<Rightarrow> send_metric (mk desc)))"
proof (rule holdsI)
  fix w :: "'a world"
  assume w: "inv e N w"
  with assms(1) obtain d where d: "descs w m = Some d" "desc_name d = m" "desc_labels d = lbls"
    using inv_catalogue by blast
  with assms have "f d = None" and "consistent (descs w) (mk d)"
    by (simp_all add: consistent_def)
  with w d show "case bnd (mustFindMetricDescription m)
      (\<lambda>desc. case f desc of Some err \<Rightarrow> panic err | None \<Rightarrow> send_metric (mk desc)) w of
      Fine (a, s') \<Rightarrow> inv e N s' | Panic _ \<Rightarrow> False | Hang \<Rightarrow> True"
    by (simp add: bnd_def mustFindMetricDescription_def send_metric_def modify_def inv_send)
qed

lemma keeps_registerConstSummary:
  assumes "prom_accepts_ascii env" and "list_all ascii ls"
    and "map_of catalogue m = Some (txt, lbls)" and "length ls = length lbls"
  shows "keeps (inv e N) (registerConstSummary env e m cnt sm lm ls)"
  unfolding registerConstSummary_def
  by (rule keeps_must [OF assms(3,4)]) (use assms(1,2) in \<open>simp_all add: prom_accepts_ascii_def\<close>)

lemma keeps_registerConstHistogram:
  assumes "prom_accepts_ascii env" and "list_all ascii ls"
    and "map_of catalogue m = Some (txt, lbls)" and "length ls = length lbls"
  shows "keeps (inv e N) (registerConstHistogram env e m cnt sm bs ls)"
  unfolding registerConstHistogram_def
  by (rule keeps_must [OF assms(3,4)]) (use assms(1,2) in \<open>simp_all add: prom_accepts_ascii_def\<close>)

text \<open>A gauge of the catalogue with acceptable labels is sent.\<close>

lemma holds_gauge_sent:
  assumes "prom_accepts_ascii env" and "map_of catalogue m = Some (txt, lbls)"
    and "length ls = length lbls" and "ls \<noteq> []" and "list_all ascii ls"
  shows "holds (inv e N) (registerConstMetricGauge env e m v ls)
    (\<lambda>_ w. (\<exists>d. ConstMetric d GaugeValue v ls \<in> set (chan w) \<and> desc_name d = m) \<and> inv e N w)"
proof (rule holdsI)
  fix w :: "'a world"
  assume w: "inv e N w"
  with assms(2) obtain d where d: "descs w m = Some d" "desc_name d = m" "desc_labels d = lbls"
    using inv_catalogue by blast
  with assms have "const_metric_err env d GaugeValue v ls = None"
    and "consistent (descs w) (ConstMetric d GaugeValue v ls)"
    by (simp_all add: consistent_def prom_accepts_ascii_def)
  with w d assms(4) show "case registerConstMetricGauge env e m v ls w of
      Fine (a, s') \<Rightarrow> (\<exists>d. ConstMetric d GaugeValue v ls \<in> set (chan s') \<and> desc_name d = m) \<and> inv e N s'
    | Panic _ \<Rightarrow> False | Hang \<Rightarrow> True"
    by (auto simp: registerConstMetricGauge_def registerConstMetric_def bnd_def
        mustFindMetricDescription_def send_metric_def modify_def inv_send)
qed

text \<open>Some descriptions of the catalogue that are looked up in proofs.\<close>

lemma catalogue_cmd_metrics:
  "map_of catalogue ''latency_percentiles_usec'' =
     Some (''A summary of latency percentile distribution per command'', [''cmd''])"
  "map_of catalogue ''commands_latencies_usec'' =
     Some (''A histogram of latencies per command'', [''cmd''])"
  by code_simp+

lemma catalogue_db_metrics:
  "map_of catalogue ''db_keys'' = Some (''Total number of keys by DB'', [''db''])"
  "map_of catalogue ''db_keys_expiring'' = Some (''Total number of expiring keys by DB'', [''db''])"
  by code_simp+

text \<open>Commands and registration end.\<close>

lemma finishes_net [finish_rules]:
  "finishes (doRedisCmd env c args)" "finishes (sendCmd env c args)" "finishes (flushCmds env c)"
  "finishes (receive env c)" "finishes (timeNow env)" "finishes (rangeMap env m)"
  "finishes (scriptDo env c args)"
  by (simp_all add: doRedisCmd_def sendCmd_def flushCmds_def receive_def timeNow_def
      rangeMap_def scriptDo_def finishes_basic)

lemma finishes_find [finish_rules]: "finishes (mustFindMetricDescription m)"
  by (simp add: finishes_def mustFindMetricDescription_def split: option.split)

lemma finishes_create [finish_rules]: "finishes (createMetricDescription e m ls)"
  by (simp add: finishes_def createMetricDescription_def Let_def split: option.split)

lemma finishes_describe [finish_rules]: "finishes (describe e m ls)"
  unfolding describe_def by (intro finish_rules)

lemma finishes_register [finish_rules]:
  "finishes (registerConstMetric env e m v t ls)" "finishes (registerConstMetricGauge env e m v ls)"
  "finishes (registerConstSummary env e m n sm lm ls)" "finishes (registerConstHistogram env e m n sm bs ls)"
  unfolding registerConstMetricGauge_def registerConstMetric_def registerConstSummary_def
    registerConstHistogram_def send_metric_def
  by (intro finish_rules)+

lemma finishes_parseAndRegister [finish_rules]: "finishes (parseAndRegisterConstMetric env e k v)"
  unfolding parseAndRegisterConstMetric_def Let_def by (intro finish_rules)

end
