(* ===== verification/Demo.thy ===== *)
theory Demo
  imports Metrics
begin

text \<open>
  A concrete environment, used where a theorem is applied at a concrete input and where
  a behaviour is shown on an example: the connection is a script, a list of replies that
  commands (and \<open>Receive\<close>) consume in order; the conversions follow redigo's documentation;
  a metric is refused when the number of label values is wrong.
\<close>

definition demo_next :: "reply goresult list \<Rightarrow> reply goresult \<times> reply goresult list" where
  "demo_next q = (case q of [] \<Rightarrow> (Inl ''EOF'', []) | r # rs \<Rightarrow> (r, rs))"

fun demo_String :: "reply goresult \<Rightarrow> string goresult" where
  "demo_String (Inl err) = Inl err"
| "demo_String (Inr (RBytes s)) = Inr s"
| "demo_String (Inr (RString s)) = Inr s"
| "demo_String (Inr (RError e)) = Inl e"
| "demo_String (Inr RNil) = Inl ''redigo: nil returned''"
| "demo_String (Inr _) = Inl ''redigo: unexpected type for String''"

fun demo_Int :: "reply goresult \<Rightarrow> int goresult" where
  "demo_Int (Inl err) = Inl err"
| "demo_Int (Inr (RInt n)) = Inr n"
| "demo_Int (Inr (RBytes s)) = (case parse_int s of (n, None) \<Rightarrow> Inr n | _ \<Rightarrow> Inl ''parse error'')"
| "demo_Int (Inr (RError e)) = Inl e"
| "demo_Int (Inr RNil) = Inl ''redigo: nil returned''"
| "demo_Int (Inr _) = Inl ''redigo: unexpected type for Int''"

fun demo_Values :: "reply goresult \<Rightarrow> reply list goresult" where
  "demo_Values (Inl err) = Inl err"
| "demo_Values (Inr (RArray xs)) = Inr xs"
| "demo_Values (Inr (RError e)) = Inl e"
| "demo_Values (Inr RNil) = Inl ''redigo: nil returned''"
| "demo_Values (Inr _) = Inl ''redigo: unexpected type for Values''"

fun demo_strings :: "reply list \<Rightarrow> string list goresult" where
  "demo_strings [] = Inr []"
| "demo_strings (r # rs) =
     (case (case r of RNil \<Rightarrow> Inr [] | _ \<Rightarrow> demo_String (Inr r)) of
        Inl err \<Rightarrow> Inl err
      | Inr s \<Rightarrow> (case demo_strings rs of Inl err \<Rightarrow> Inl err | Inr ss \<Rightarrow> Inr (s # ss)))"

definition demo_Strings :: "reply goresult \<Rightarrow> string list goresult" where
  "demo_Strings r = (case demo_Values r of Inl err \<Rightarrow> Inl err | Inr xs \<Rightarrow> demo_strings xs)"

fun demo_pairs :: "string list \<Rightarrow> (string \<times> string) list goresult" where
  "demo_pairs [] = Inr []"
| "demo_pairs [x] = Inl ''redigo: StringMap expects even number of values result''"
| "demo_pairs (k # v # r) =
     (case demo_pairs r of Inl err \<Rightarrow> Inl err | Inr m \<Rightarrow> Inr ((k, v) # m))"

definition demo_StringMap :: "reply goresult \<Rightarrow> (string \<times> string) list goresult" where
  "demo_StringMap r = (case demo_Strings r of
       Inl err \<Rightarrow> Inl err
     | Inr xs \<Rightarrow> map_sum id (foldl (\<lambda>m (k, v). put k v m) []) (demo_pairs xs))"

text \<open>\<open>redis.Scan\<close>: one value after the other; too few values or a value of another kind
  is an error, and nil leaves the zero value. \<open>redis.ScanStruct\<close>: pairs of a name and a
  value, unknown names skipped.\<close>

fun demo_uints :: "reply list \<Rightarrow> int list goresult" where
  "demo_uints [] = Inr []"
| "demo_uints (RInt n # rs) = map_sum id ((#) n) (demo_uints rs)"
| "demo_uints (_ # rs) = Inl ''cannot convert''"

fun demo_scan1 :: "dest \<Rightarrow> reply \<Rightarrow> scanned goresult" where
  "demo_scan1 SkipDest _ = Inr (SInt 0)"
| "demo_scan1 IntDest r = (if r = RNil then Inr (SInt 0) else map_sum id SInt (demo_Int (Inr r)))"
| "demo_scan1 UintDest r = (if r = RNil then Inr (SInt 0) else map_sum id SInt (demo_Int (Inr r)))"
| "demo_scan1 UintsDest r =
     (case r of RArray rs \<Rightarrow> map_sum id SUints (demo_uints rs) | RNil \<Rightarrow> Inr (SUints [])
      | _ \<Rightarrow> Inl ''cannot convert'')"
| "demo_scan1 FloatDest r =
     (case r of RNil \<Rightarrow> Inr (SFloat f64_zero)
      | RBytes s \<Rightarrow> (case parse_float s of (x, None) \<Rightarrow> Inr (SFloat x) | _ \<Rightarrow> Inl ''cannot convert'')
      | _ \<Rightarrow> Inl ''cannot convert'')"
| "demo_scan1 StringDest r =
     (if r = RNil then Inr (SString []) else map_sum id SString (demo_String (Inr r)))"

fun demo_Scan :: "reply list \<Rightarrow> dest list \<Rightarrow> scanned list goresult" where
  "demo_Scan rs [] = Inr []"
| "demo_Scan [] (d # ds) = Inl ''redigo.Scan: array short''"
| "demo_Scan (r # rs) (d # ds) =
     (case demo_scan1 d r of Inl err \<Rightarrow> Inl err | Inr x \<Rightarrow> map_sum id ((#) x) (demo_Scan rs ds))"

fun demo_ScanStruct ::
  "reply list \<Rightarrow> (string \<times> dest) list \<Rightarrow> (string \<times> scanned) list goresult" where
  "demo_ScanStruct (RBytes k # v # rs) fs =
     (case map_of fs k of
        None \<Rightarrow> demo_ScanStruct rs fs
      | Some d \<Rightarrow> (case demo_scan1 d v of
            Inl err \<Rightarrow> Inl err
          | Inr x \<Rightarrow> map_sum id ((#) (k, x)) (demo_ScanStruct rs fs)))"
| "demo_ScanStruct [] fs = Inr []"
| "demo_ScanStruct _ fs = Inl ''redigo.ScanStruct: number of values not a multiple of 2''"

definition demo_label_check :: "desc \<Rightarrow> string list \<Rightarrow> string option" where
  "demo_label_check d ls =
     (if length ls = length (desc_labels d) then None else Some ''inconsistent label cardinality'')"

text \<open>A registry that refuses a name it has, and the names of two metrics of each collector.\<close>

definition demo_register :: "desc list \<Rightarrow> desc list \<Rightarrow> string option" where
  "demo_register reg ds =
     (if list_ex (\<lambda>d. desc_fq d \<in> set (map desc_fq reg)) ds then Some ''duplicate metrics collector registration'' else None)"

fun demo_outside :: "outsideCollector \<Rightarrow> desc list" where
  "demo_outside ProcessCollector =
     [Desc [] ''process_cpu_seconds_total'' ''Total user and system CPU time spent in seconds.'' [],
      Desc [] ''process_start_time_seconds'' ''Start time of the process since unix epoch in seconds.'' []]"
| "demo_outside GoCollector =
     [Desc [] ''go_goroutines'' ''Number of goroutines that currently exist.'' [],
      Desc [] ''go_threads'' ''Number of OS threads created.'' []]"

definition demo_env :: "reply goresult list env" where
  "demo_env = \<lparr>
     conn_do = (\<lambda>_ _ q. demo_next q),
     conn_send = (\<lambda>_ _ q. (None, q)),
     conn_flush = (\<lambda>_ q. (None, q)),
     conn_receive = (\<lambda>_ q. demo_next q),
     conn_close = (\<lambda>_ q. q),
     script_do = (\<lambda>_ _ q. demo_next q),
     dial_url = (\<lambda>_ _ q. (Inr 0, q)),
     dial_addr = (\<lambda>_ _ _ q. (Inr 0, q)),
     cluster_refresh = (\<lambda>_ _ q. (None, q)),
     cluster_dial = (\<lambda>_ _ q. (Inr 1, q)),
     cluster_retry = (\<lambda>c _ _ q. (Inr c, q)),
     read_file = (\<lambda>_ _. Inl ''no such file''),
     load_x509_key_pair = (\<lambda>_ _ _. Inl ''no such file''),
     system_cert_pool = (\<lambda>_. Inr []),
     certs_from_pem = (\<lambda>_. []),
     redis_String = demo_String,
     redis_Int64 = demo_Int,
     redis_Int = demo_Int,
     redis_Values = demo_Values,
     redis_Strings = demo_Strings,
     redis_StringMap = demo_StringMap,
     redis_Scan = demo_Scan,
     redis_ScanStruct = demo_ScanStruct,
     regexp_match = (\<lambda>p. if p = ''.*'' then Some (\<lambda>_. True) else None),
     const_metric_err = (\<lambda>d _ _ ls. demo_label_check d ls),
     const_summary_err = demo_label_check,
     const_histogram_err = demo_label_check,
     uint64_out_of_range = (\<lambda>_. 2 ^ 63),
     clock = (\<lambda>_. 1700000000000000000),
     range_order = (\<lambda>_ ks. ks),
     fmt_sharp_v = (\<lambda>_. ''[]interface {}{...}''),
     fmt_url_error = (\<lambda>_. ''parse error''),
     register_error = demo_register,
     outside_descs = demo_outside,
     mux_message = (\<lambda>_ p. ''pattern '' @ p @ '' was refused''),
     unicode_name = (\<lambda>_. False),
     json_error = (\<lambda>_. ''invalid character''),
     bcrypt_matches = (\<lambda>hash pw. hash = pw),
     bcrypt_cost_error = (\<lambda>_. None),
     go_version = ''go1.25.0''\<rparr>"

definition demo_options :: Options where
  "demo_options = \<lparr>
     User = [], Password = [], Namespace = ''redis'', PasswordMap = [],
     ConfigCommandName = ''CONFIG'', CheckKeys = [], CheckSingleKeys = [], CheckStreams = [],
     CheckSingleStreams = [], StreamsExcludeConsumerMetrics = False, CheckKeysBatchSize = 1000,
     CheckKeyGroups = [], MaxDistinctKeyGroups = 100, CountKeys = [], LuaScript = [],
     ClientCertFile = [], ClientKeyFile = [], CaCertFile = [], InclConfigMetrics = False,
     InclModulesMetrics = False, InclSearchIndexesMetrics = False, CheckSearchIndexes = ''.*'',
     DisableExportingKeyValues = False, ExcludeLatencyHistogramMetrics = False,
     RedactConfigMetrics = True, InclSystemMetrics = False, SkipTLSVerification = False,
     SetClientName = True, IsTile38 = False, IsCluster = False, ExportClientList = False,
     ExportClientsInclPort = False, ConnectionTimeouts = 15, MetricsPath = ''/metrics'',
     RedisMetricsOnly = False, PingOnConnect = False, RedisPwdFile = [], BasicAuthUsername = [],
     BasicAuthPassword = [], BasicAuthHashPassword = [], SkipCheckKeysForRoleMaster = False,
     InclMetricsForEmptyDatabases = True\<rparr>"

definition demo_exporter :: Exporter where
  "demo_exporter = \<lparr>redisAddr = ''redis://localhost:6379'', options = demo_options,
     metricMapCounters = counter_table, metricMapGauges = gauge_table,
     buildInfo = \<lparr>Version = ''v1'', CommitSha = [], Date = []\<rparr>\<rparr>"

text \<open>The world at the start of a scrape of a new exporter.\<close>

definition start_world :: "Exporter \<Rightarrow> 'c \<Rightarrow> 'c world" where
  "start_world e n = \<lparr>net = n, descs = initial_descs e, chan = [], tick = 0,
     totalScrapes = 0, scrapeDurations = [], targetErrors = 0\<rparr>"

lemma demo_env_fields [simp]:
  "conn_do demo_env = (\<lambda>_ _ q. demo_next q)"
  "conn_send demo_env = (\<lambda>_ _ q. (None, q))"
  "conn_flush demo_env = (\<lambda>_ q. (None, q))"
  "conn_receive demo_env = (\<lambda>_ q. demo_next q)"
  "conn_close demo_env = (\<lambda>_ q. q)"
  "script_do demo_env = (\<lambda>_ _ q. demo_next q)"
  "dial_url demo_env = (\<lambda>_ _ q. (Inr 0, q))"
  "dial_addr demo_env = (\<lambda>_ _ _ q. (Inr 0, q))"
  "cluster_refresh demo_env = (\<lambda>_ _ q. (None, q))"
  "cluster_dial demo_env = (\<lambda>_ _ q. (Inr 1, q))"
  "cluster_retry demo_env = (\<lambda>c _ _ q. (Inr c, q))"
  "read_file demo_env = (\<lambda>_ _. Inl ''no such file'')"
  "load_x509_key_pair demo_env = (\<lambda>_ _ _. Inl ''no such file'')"
  "system_cert_pool demo_env = (\<lambda>_. Inr [])"
  "certs_from_pem demo_env = (\<lambda>_. [])"
  "redis_String demo_env = demo_String"
  "redis_Int64 demo_env = demo_Int"
  "redis_Int demo_env = demo_Int"
  "redis_Values demo_env = demo_Values"
  "redis_Strings demo_env = demo_Strings"
  "redis_StringMap demo_env = demo_StringMap"
  "redis_Scan demo_env = demo_Scan"
  "redis_ScanStruct demo_env = demo_ScanStruct"
  "regexp_match demo_env = (\<lambda>p. if p = ''.*'' then Some (\<lambda>_. True) else None)"
  "const_metric_err demo_env = (\<lambda>d _ _ ls. demo_label_check d ls)"
  "const_summary_err demo_env = demo_label_check"
  "const_histogram_err demo_env = demo_label_check"
  "uint64_out_of_range demo_env = (\<lambda>_. 2 ^ 63)"
  "clock demo_env = (\<lambda>_. 1700000000000000000)"
  "range_order demo_env = (\<lambda>_ ks. ks)"
  "register_error demo_env = demo_register"
  "outside_descs demo_env = demo_outside"
  "mux_message demo_env = (\<lambda>_ p. ''pattern '' @ p @ '' was refused'')"
  "unicode_name demo_env = (\<lambda>_. False)"
  "json_error demo_env = (\<lambda>_. ''invalid character'')"
  "bcrypt_matches demo_env = (\<lambda>hash pw. hash = pw)"
  "bcrypt_cost_error demo_env = (\<lambda>_. None)"
  "go_version demo_env = ''go1.25.0''"
  by (simp_all add: demo_env_def)

lemma start_world_fields [simp]:
  "net (start_world e n) = n" "descs (start_world e n) = initial_descs e"
  "chan (start_world e n) = []" "tick (start_world e n) = 0"
  "totalScrapes (start_world e n) = 0" "scrapeDurations (start_world e n) = []"
  "targetErrors (start_world e n) = 0"
  by (simp_all add: start_world_def)

lemma start_world_net [simp]: "start_world e n\<lparr>net := m\<rparr> = start_world e m"
  by (simp add: start_world_def)

lemma demo_env_checks [simp]: "prom_checks_labels demo_env"
  by (simp add: prom_checks_labels_def demo_env_def demo_label_check_def)

lemma demo_env_accepts [simp]: "prom_accepts_ascii demo_env"
  by (simp add: prom_accepts_ascii_def demo_label_check_def)

lemma inv_start [simp]: "inv e no_ctx (start_world e n)"
proof -
  have "desc_name d = k" if "initial_descs e k = Some d" for k d
    using map_of_SomeD [OF that [unfolded initial_descs_def]]
    by (auto simp: newMetricDescr_def)
  then show ?thesis by (simp add: inv_def start_world_def map_le_def no_ctx_def)
qed

end
