(* ===== verification/Keys.thy ===== *)
theory Keys
  imports Metrics Demo
begin

text \<open>
  Key metrics (\<open>exporter/keys.go\<close>): the parsing of the key arguments, the SCAN loop, the
  expansion of key patterns, and the collection of type, size, memory use and value of each
  key, once with pipelined commands and once command by command (cluster mode).

  The SCAN loop runs until the server answers with cursor 0, so it is a
  \<^theory_text>\<open>partial_function\<close>; \<open>served\<close> describes the servers that do so.
\<close>

section \<open>Key arguments\<close>

record dbKeyPair =
  db_of :: string
  key_of :: string

abbreviation mkPair :: "string \<Rightarrow> string \<Rightarrow> dbKeyPair" where
  "mkPair d k \<equiv> \<lparr>db_of = d, key_of = k\<rparr>"

text \<open>One element of the comma separated list: an error, nothing (an empty element or an
  empty database or key), or a pair.\<close>

definition parseKeyElem :: "string \<Rightarrow> dbKeyPair option goresult" where
  "parseKeyElem k =
     (if k = [] then Inr None
      else
        let frags = go_split k ''='';
            parsed =
              (case frags of
                 [f] \<Rightarrow> Inr (''0'', query_unescape (trim_space f))
               | [d, f] \<Rightarrow> Inr (replace_all (trim_space d) ''db'' [], query_unescape (trim_space f))
               | _ \<Rightarrow> Inl (''invalid key list argument: '' @ k))
        in case parsed of
             Inl err \<Rightarrow> Inl err
           | Inr (d, None) \<Rightarrow> Inl (''couldn't parse db/key string: '' @ k)
           | Inr (d, Some key) \<Rightarrow>
               if d = [] \<or> key = [] then Inr None
               else
                 let (number, err) = atoi d
                 in if err \<noteq> None \<or> number < 0
                    then Inl (''invalid database index for db '' @ dquote d @ '': '' @ atoi_error d err)
                    else Inr (Some (mkPair d key)))"

fun parseKeyElems :: "string list \<Rightarrow> dbKeyPair list goresult" where
  "parseKeyElems [] = Inr []"
| "parseKeyElems (k # ks) =
     (case parseKeyElem k of
        Inl err \<Rightarrow> Inl err
      | Inr None \<Rightarrow> parseKeyElems ks
      | Inr (Some p) \<Rightarrow>
          (case parseKeyElems ks of Inl err \<Rightarrow> Inl err | Inr ps \<Rightarrow> Inr (p # ps)))"

definition parseKeyArg :: "string \<Rightarrow> dbKeyPair list goresult" where
  "parseKeyArg keysArgString =
     (if keysArgString = [] then Inr [] else parseKeyElems (go_split keysArgString '',''))"

section \<open>The SCAN loop\<close>

datatype fault = Failed string | Panicked string

text \<open>A loop over a server cursor: a step asks for the page at the cursor and gives a fault,
  or the accumulator with the page and the next cursor; cursor 0 ends the loop.\<close>

partial_function (option) cursor_loop ::
  "(int \<Rightarrow> 'a \<Rightarrow> 'c \<Rightarrow> (fault + 'a \<times> int) \<times> 'c) \<Rightarrow> int \<Rightarrow> 'a \<Rightarrow> 'c \<Rightarrow> ((fault + 'a) \<times> 'c) option"
where
  "cursor_loop step iter acc n =
     (case step iter acc n of
        (Inl err, n') \<Rightarrow> Some (Inl err, n')
      | (Inr (acc', iter'), n') \<Rightarrow>
          if iter' = 0 then Some (Inr acc', n') else cursor_loop step iter' acc' n')"

declare cursor_loop.simps [code]

text \<open>The loop as code that works on the world; a loop that never ends hangs.\<close>

definition run_cursor_loop ::
  "(int \<Rightarrow> 'a \<Rightarrow> 'c \<Rightarrow> (fault + 'a \<times> int) \<times> 'c) \<Rightarrow> 'a \<Rightarrow> ('c, 'a goresult) io" where
  "run_cursor_loop step acc = (\<lambda>w.
     case cursor_loop step 0 acc (net w) of
       None \<Rightarrow> Hang
     | Some (Inl (Panicked e), n) \<Rightarrow> Panic e
     | Some (Inl (Failed e), n) \<Rightarrow> Fine (Inl e, w\<lparr>net := n\<rparr>)
     | Some (Inr a, n) \<Rightarrow> Fine (Inr a, w\<lparr>net := n\<rparr>))"

definition scanKeys_step ::
  "'c env \<Rightarrow> conn \<Rightarrow> string \<Rightarrow> int \<Rightarrow> int \<Rightarrow> reply list \<Rightarrow> 'c \<Rightarrow> (fault + reply list \<times> int) \<times> 'c"
where
  "scanKeys_step env c pattern count iter keys n =
     (let (r, n') =
        conn_do env c [AStr ''SCAN'', AInt iter, AStr ''MATCH'', AStr pattern, AStr ''COUNT'', AInt count] n
      in case redis_Values env r of
           Inl err \<Rightarrow> (Inl (Failed (''error retrieving '' @ squote pattern @ '' keys err: '' @ err)), n')
         | Inr [cursor, page] \<Rightarrow> (Inr (keys @ values_or_nil env page, int_or_zero env cursor), n')
         | Inr _ \<Rightarrow> (Inl (Failed (''invalid response from SCAN for pattern: '' @ pattern)), n'))"

definition scanKeys ::
  "'c env \<Rightarrow> conn \<Rightarrow> string \<Rightarrow> int \<Rightarrow> ('c, reply list goresult) io" where
  "scanKeys env c pattern count =
     (if pattern = [] then ret (Inl ''pattern shouldn't be empty'')
      else run_cursor_loop (scanKeys_step env c pattern count) [])"

definition getKeysCount :: "'c env \<Rightarrow> conn \<Rightarrow> string \<Rightarrow> int \<Rightarrow> ('c, int goresult) io" where
  "getKeysCount env c pattern count =
     bnd (scanKeys env c pattern count) (\<lambda>r. case r of
         Inl err \<Rightarrow> ret (Inl (''error retrieving '' @ squote pattern @ '' keys err: '' @ err))
       | Inr keys \<Rightarrow> ret (Inr (int (length keys))))"

section \<open>Key patterns\<close>

definition globPattern :: "string \<Rightarrow> bool" where
  "globPattern key \<longleftrightarrow> list_ex (\<lambda>c. c \<in> set ''?*[]^'') key"

fun expandKeys ::
  "'c env \<Rightarrow> conn \<Rightarrow> int \<Rightarrow> dbKeyPair list \<Rightarrow> dbKeyPair list \<Rightarrow> ('c, dbKeyPair list goresult) io"
where
  "expandKeys env c count expandedKeys [] = ret (Inr expandedKeys)"
| "expandKeys env c count expandedKeys (k # ks) =
     (if globPattern (key_of k) then
        bnd (doRedisCmd env c [AStr ''SELECT'', AStr (db_of k)]) (\<lambda>r. case r of
            Inl err \<Rightarrow> ret (Inl err)
          | Inr _ \<Rightarrow>
              bnd (scanKeys env c (key_of k) count) (\<lambda>scanned.
                case redis_Strings env (map_sum id RArray scanned) of
                  Inl err \<Rightarrow> expandKeys env c count expandedKeys ks
                | Inr keyNames \<Rightarrow>
                    expandKeys env c count
                      (expandedKeys @ map (\<lambda>keyName. mkPair (db_of k) keyName) keyNames) ks))
      else expandKeys env c count (expandedKeys @ [k]) ks)"

definition getKeysFromPatterns ::
  "'c env \<Rightarrow> conn \<Rightarrow> dbKeyPair list \<Rightarrow> int \<Rightarrow> ('c, dbKeyPair list goresult) io" where
  "getKeysFromPatterns env c keys count = expandKeys env c count [] keys"

section \<open>One key, command by command\<close>

text \<open>The value, the type, the size and the error of the named results.\<close>

definition getStringInfoNotPipelined ::
  "'c env \<Rightarrow> conn \<Rightarrow> string \<Rightarrow> ('c, string \<times> string \<times> int \<times> string option) io" where
  "getStringInfoNotPipelined env c key =
     bnd (doRedisCmd env c [AStr ''GET'', AStr key]) (\<lambda>g.
       let strVal = string_or_empty env g in
       bnd (doRedisCmd env c [AStr ''PFCOUNT'', AStr key]) (\<lambda>p. case redis_Int64 env p of
           Inr sz \<Rightarrow> ret (strVal, ''HLL'', sz, None)
         | Inl _ \<Rightarrow>
             bnd (doRedisCmd env c [AStr ''STRLEN'', AStr key]) (\<lambda>l. case redis_Int64 env l of
                 Inr sz \<Rightarrow> ret (strVal, ''string'', sz, None)
               | Inl err \<Rightarrow> ret (strVal, [], 0, Some err))))"

text \<open>The command that gives the size of a key of the types other than string.\<close>

definition size_command :: "string \<Rightarrow> string option" where
  "size_command keyType =
     (if keyType = ''list'' then Some ''LLEN''
      else if keyType = ''set'' then Some ''SCARD''
      else if keyType = ''zset'' then Some ''ZCARD''
      else if keyType = ''hash'' then Some ''HLEN''
      else if keyType = ''stream'' then Some ''XLEN''
      else None)"

definition registerKeyValue ::
  "'c env \<Rightarrow> Exporter \<Rightarrow> string \<Rightarrow> string \<Rightarrow> string \<Rightarrow> string \<Rightarrow> ('c, unit) io" where
  "registerKeyValue env e dbLabel keyName keyType strVal =
     (if keyType = ''string'' \<and> \<not> DisableExportingKeyValues (options e) \<and> strVal \<noteq> [] then
        (case parse_float strVal of
           (val, None) \<Rightarrow> registerConstMetricGauge env e ''key_value'' val [dbLabel, keyName]
         | (_, Some _) \<Rightarrow>
             registerConstMetricGauge env e ''key_value_as_string'' (f64_of_int 1)
               [dbLabel, keyName, strVal])
      else skip)"

definition getKeyInfo ::
  "'c env \<Rightarrow> Exporter \<Rightarrow> conn \<Rightarrow> string \<Rightarrow> string \<Rightarrow> string \<Rightarrow> ('c, unit) io" where
  "getKeyInfo env e c dbLabel keyType keyName =
     (if keyType = ''none'' then
        registerConstMetricGauge env e ''key_size'' (f64_of_int 0) [dbLabel, keyName]
      else
        bnd (if keyType = ''string'' then getStringInfoNotPipelined env c keyName
             else case size_command keyType of
                 Some cmd \<Rightarrow>
                   bnd (doRedisCmd env c [AStr cmd, AStr keyName]) (\<lambda>r. case redis_Int64 env r of
                       Inr sz \<Rightarrow> ret ([], keyType, sz, None)
                     | Inl err \<Rightarrow> ret ([], keyType, 0, Some err))
               | None \<Rightarrow>
                   ret ([], keyType, 0,
                     Some (''unknown type: '' @ keyType @ '' for key: '' @ keyName)))
          (\<lambda>(strVal, keyType, sz, err).
             if err \<noteq> None then skip
             else andthen
               (registerConstMetricGauge env e ''key_size'' (f64_of_int sz) [dbLabel, keyName])
               (registerKeyValue env e dbLabel keyName keyType strVal)))"

definition notPipelinedKey :: "'c env \<Rightarrow> Exporter \<Rightarrow> conn \<Rightarrow> string \<Rightarrow> ('c, unit) io" where
  "notPipelinedKey env e c key =
     bnd (doRedisCmd env c [AStr ''TYPE'', AStr key]) (\<lambda>t. case redis_String env t of
         Inl err \<Rightarrow> skip
       | Inr keyType \<Rightarrow>
           andthen
             (bnd (doRedisCmd env c [AStr ''MEMORY'', AStr ''USAGE'', AStr key]) (\<lambda>m.
                case redis_Int64 env m of
                  Inr memUsageInBytes \<Rightarrow>
                    registerConstMetricGauge env e ''key_memory_usage_bytes''
                      (f64_of_int memUsageInBytes) [''db0'', key]
                | Inl err \<Rightarrow> skip))
             (getKeyInfo env e c ''db0'' keyType key))"

definition extractCheckKeyMetricsNotPipelined ::
  "'c env \<Rightarrow> Exporter \<Rightarrow> conn \<Rightarrow> dbKeyPair list \<Rightarrow> ('c, unit) io" where
  "extractCheckKeyMetricsNotPipelined env e c allKeys =
     for_each (\<lambda>k. notPipelinedKey env e c (key_of k)) allKeys"

section \<open>All keys of a database, pipelined\<close>

text \<open>The commands sent for one key in the second batch; \<open>True\<close> when sending failed.\<close>

fun sendAll :: "'c env \<Rightarrow> conn \<Rightarrow> arg list list \<Rightarrow> ('c, bool) io" where
  "sendAll env c [] = ret False"
| "sendAll env c (cmd # cmds) =
     bnd (sendCmd env c cmd) (\<lambda>err. if err \<noteq> None then ret True else sendAll env c cmds)"

definition info_commands :: "string \<Rightarrow> string \<Rightarrow> arg list list" where
  "info_commands keyType keyName =
     (if keyType = ''none'' then []
      else if keyType = ''string'' then
        [[AStr ''PFCOUNT'', AStr keyName], [AStr ''STRLEN'', AStr keyName], [AStr ''GET'', AStr keyName]]
      else case size_command keyType of Some cmd \<Rightarrow> [[AStr cmd, AStr keyName]] | None \<Rightarrow> [])"

text \<open>The replies read for one key: \<open>None\<close> when the loop goes on to the next key without a
  metric, otherwise the value, the type and the size.\<close>

definition receiveKeyInfo ::
  "'c env \<Rightarrow> conn \<Rightarrow> string \<Rightarrow> ('c, (string \<times> string \<times> int) option) io" where
  "receiveKeyInfo env c keyType =
     (if keyType = ''none'' then ret (Some ([], keyType, 0))
      else if keyType = ''string'' then
        bnd (receive env c) (\<lambda>h. bnd (receive env c) (\<lambda>s. bnd (receive env c) (\<lambda>v.
          let strVal = string_or_empty env v in
          case redis_Int64 env h of
            Inr hllSize \<Rightarrow> ret (Some (strVal, ''HLL'', hllSize))
          | Inl _ \<Rightarrow>
              (case redis_Int64 env s of
                 Inr strSize \<Rightarrow> ret (Some (strVal, ''string'', strSize))
               | Inl _ \<Rightarrow> ret None))))
      else case size_command keyType of
          Some _ \<Rightarrow>
            bnd (receive env c) (\<lambda>r. case redis_Int64 env r of
                Inr sz \<Rightarrow> ret (Some ([], keyType, sz))
              | Inl _ \<Rightarrow> ret None)
        | None \<Rightarrow> ret None)"

definition getKeyInfoPipelined ::
  "'c env \<Rightarrow> Exporter \<Rightarrow> conn \<Rightarrow> string \<Rightarrow> string list \<Rightarrow> string list \<Rightarrow> ('c, unit) io" where
  "getKeyInfoPipelined env e c dbLabel arrayOfKeys keyTypes =
     bnd (for_until (\<lambda>(idx, keyName). at_index keyTypes idx (\<lambda>keyType.
            sendAll env c (info_commands keyType keyName))) (indexed 0 arrayOfKeys))
       (\<lambda>failed. if failed then skip
          else bnd (flushCmds env c) (\<lambda>err. if err \<noteq> None then skip
            else for_each (\<lambda>(idx, keyName). at_index keyTypes idx (\<lambda>keyType.
                bnd (receiveKeyInfo env c keyType) (\<lambda>info. case info of
                    None \<Rightarrow> skip
                  | Some (strVal, keyType, sz) \<Rightarrow>
                      andthen
                        (registerKeyValue env e dbLabel keyName keyType strVal)
                        (registerConstMetricGauge env e ''key_size'' (f64_of_int sz)
                           [dbLabel, keyName]))))
              (indexed 0 arrayOfKeys)))"

definition keysByDb :: "dbKeyPair list \<Rightarrow> (string \<times> string list) list" where
  "keysByDb allKeys =
     foldl (\<lambda>m k. case map_of m (db_of k) of
         Some a \<Rightarrow> put (db_of k) (a @ [key_of k]) m
       | None \<Rightarrow> put (db_of k) [key_of k] m) [] allKeys"

text \<open>The types of the keys of one database, with the memory metric sent on the way.\<close>

definition receiveType ::
  "'c env \<Rightarrow> Exporter \<Rightarrow> conn \<Rightarrow> string \<Rightarrow> string list \<Rightarrow> string \<Rightarrow> ('c, string list) io" where
  "receiveType env e c dbLabel keyTypes keyName =
     bnd (receive env c) (\<lambda>t. case redis_String env t of
         Inl err \<Rightarrow> ret (keyTypes @ [[]])
       | Inr keyType \<Rightarrow>
           bnd (receive env c) (\<lambda>m. case redis_Int64 env m of
               Inl err \<Rightarrow> ret (keyTypes @ [keyType])
             | Inr memUsageInBytes \<Rightarrow>
                 andthen
                   (registerConstMetricGauge env e ''key_memory_usage_bytes''
                      (f64_of_int memUsageInBytes) [dbLabel, keyName])
                   (ret (keyTypes @ [keyType]))))"

definition receiveTypes ::
  "'c env \<Rightarrow> Exporter \<Rightarrow> conn \<Rightarrow> string \<Rightarrow> string list \<Rightarrow> ('c, string list) io" where
  "receiveTypes env e c dbLabel arrayOfKeys = for_fold (receiveType env e c dbLabel) [] arrayOfKeys"

text \<open>One database; \<open>True\<close> when the function returned.\<close>

definition pipelinedDb ::
  "'c env \<Rightarrow> Exporter \<Rightarrow> conn \<Rightarrow> string \<Rightarrow> string list \<Rightarrow> ('c, bool) io" where
  "pipelinedDb env e c dbNum arrayOfKeys =
     bnd (sendCmd env c [AStr ''SELECT'', AStr dbNum]) (\<lambda>err. if err \<noteq> None then ret False else
     bnd (for_until (\<lambda>keyName. sendAll env c
            [[AStr ''TYPE'', AStr keyName], [AStr ''MEMORY'', AStr ''USAGE'', AStr keyName]])
          arrayOfKeys) (\<lambda>failed. if failed then ret True else
     bnd (flushCmds env c) (\<lambda>err. if err \<noteq> None then ret True else
     bnd (receive env c) (\<lambda>r. case redis_String env r of
         Inl err \<Rightarrow> ret False
       | Inr _ \<Rightarrow>
           bnd (receiveTypes env e c (''db'' @ dbNum) arrayOfKeys) (\<lambda>keyTypes.
             andthen (getKeyInfoPipelined env e c (''db'' @ dbNum) arrayOfKeys keyTypes)
               (ret False))))))"

definition extractCheckKeyMetricsPipelined ::
  "'c env \<Rightarrow> Exporter \<Rightarrow> conn \<Rightarrow> dbKeyPair list \<Rightarrow> ('c, unit) io" where
  "extractCheckKeyMetricsPipelined env e c allKeys =
     bnd (rangeMap env (keysByDb allKeys)) (\<lambda>dbs.
       bnd (for_until (\<lambda>(dbNum, arrayOfKeys). pipelinedDb env e c dbNum arrayOfKeys) dbs)
         (\<lambda>_. skip))"

section \<open>The entry points of a scrape\<close>

definition extractCheckKeyMetrics ::
  "'c env \<Rightarrow> Exporter \<Rightarrow> conn \<Rightarrow> ('c, string option) io" where
  "extractCheckKeyMetrics env e c =
     (case parseKeyArg (CheckKeys (options e)) of
        Inl err \<Rightarrow> ret (Some (''couldn't parse check-keys: '' @ err))
      | Inr keys \<Rightarrow>
          (case parseKeyArg (CheckSingleKeys (options e)) of
             Inl err \<Rightarrow> ret (Some (''couldn't parse check-single-keys: '' @ err))
           | Inr singleKeys \<Rightarrow>
               bnd (getKeysFromPatterns env c keys (CheckKeysBatchSize (options e))) (\<lambda>r.
                 let allKeys = singleKeys @ (case r of Inr scannedKeys \<Rightarrow> scannedKeys | Inl _ \<Rightarrow> [])
                 in andthen
                      (if IsCluster (options e)
                       then extractCheckKeyMetricsNotPipelined env e c allKeys
                       else extractCheckKeyMetricsPipelined env e c allKeys)
                      (ret None))))"

definition countKeysOf :: "'c env \<Rightarrow> Exporter \<Rightarrow> conn \<Rightarrow> dbKeyPair \<Rightarrow> ('c, unit) io" where
  "countKeysOf env e c k =
     bnd (doRedisCmd env c [AStr ''SELECT'', AStr (db_of k)]) (\<lambda>r. case r of
         Inl err \<Rightarrow> skip
       | Inr _ \<Rightarrow>
           bnd (getKeysCount env c (key_of k) (CheckKeysBatchSize (options e))) (\<lambda>r. case r of
               Inl err \<Rightarrow> skip
             | Inr cnt \<Rightarrow>
                 registerConstMetricGauge env e ''keys_count'' (f64_of_int cnt)
                   [''db'' @ db_of k, key_of k]))"

definition extractCountKeysMetrics :: "'c env \<Rightarrow> Exporter \<Rightarrow> conn \<Rightarrow> ('c, unit) io" where
  "extractCountKeysMetrics env e c =
     (case parseKeyArg (CountKeys (options e)) of
        Inl err \<Rightarrow> skip
      | Inr cntKeys \<Rightarrow> for_each (countKeysOf env e c) cntKeys)"


section \<open>Facts about key arguments\<close>

lemma parseKeyElem_valid:
  "parseKeyElem k = Inr (Some p) \<Longrightarrow>
   key_of p \<noteq> [] \<and> db_of p \<noteq> [] \<and> (\<exists>n. atoi (db_of p) = (n, None) \<and> 0 \<le> n)"
  by (auto simp: parseKeyElem_def Let_def split: if_splits list.splits option.splits prod.splits)

lemma parseKeyElems_valid:
  "parseKeyElems xs = Inr ps \<Longrightarrow> p \<in> set ps \<Longrightarrow> \<exists>x \<in> set xs. parseKeyElem x = Inr (Some p)"
  by (induction xs arbitrary: ps) (auto split: sum.splits option.splits)

text \<open>every pair \<open>parseKeyArg\<close> returns has a key and a database that is a
  non-negative number, so no invalid value reaches a Redis command.\<close>
theorem parseKeyArg_valid:
  assumes "parseKeyArg s = Inr ks" and "k \<in> set ks"
  shows "key_of k \<noteq> [] \<and> db_of k \<noteq> [] \<and> (\<exists>n. atoi (db_of k) = (n, None) \<and> 0 \<le> n)"
  using assms parseKeyElems_valid parseKeyElem_valid
  by (fastforce simp: parseKeyArg_def split: if_splits)

theorem parseKeyArg_valid_witness:
  "parseKeyArg ''db3=a%20b,x'' = Inr [mkPair ''3'' ''a b'', mkPair ''0'' ''x''] \<and>
   (\<exists>n. atoi ''3'' = (n, None) \<and> 0 \<le> n)"
proof -
  have h: "parseKeyArg ''db3=a%20b,x'' = Inr [mkPair ''3'' ''a b'', mkPair ''0'' ''x'']"
    by code_simp
  from parseKeyArg_valid [OF h, of "mkPair ''3'' ''a b''"] h show ?thesis by simp
qed

text \<open>The inverse of \<open>query_unescape\<close> used by the round trip: every byte that is not a
  letter or a digit becomes a percent escape.\<close>

definition hex_digit :: "int \<Rightarrow> char" where
  "hex_digit n = char_of (if n < 10 then 48 + n else 55 + n)"

definition alnum :: "char \<Rightarrow> bool" where
  "alnum c \<longleftrightarrow> is_digit c \<or> (97 \<le> byte c \<and> byte c \<le> 122) \<or> (65 \<le> byte c \<and> byte c \<le> 90)"

definition escape_char :: "char \<Rightarrow> string" where
  "escape_char c =
     (if alnum c then [c] else [CHR ''%'', hex_digit (byte c div 16), hex_digit (byte c mod 16)])"

definition query_escape :: "string \<Rightarrow> string" where
  "query_escape s = concat (map escape_char s)"

definition renderKeyArg :: "(int \<times> string) list \<Rightarrow> string" where
  "renderKeyArg ps =
     go_join (map (\<lambda>(n, k). ''db'' @ nat_digits n @ ''='' @ query_escape k) ps) '',''"

lemma byte_char_of: "0 \<le> n \<Longrightarrow> n < 256 \<Longrightarrow> byte (char_of n) = n"
  by (simp add: byte_def)

lemma nibbles: "0 \<le> (n::int) \<Longrightarrow> n < 256 \<Longrightarrow> 0 \<le> n div 16 \<and> n div 16 < 16"
  by presburger

lemma hex_digit_props:
  assumes "0 \<le> n" and "n < 16"
  shows "is_hex (hex_digit n)" and "unhex (hex_digit n) = n" and "alnum (hex_digit n)"
  using assms by (auto simp: is_hex_def unhex_def hex_digit_def is_digit_def byte_char_of alnum_def)

lemma unescape_escape_char:
  "query_unescape (escape_char c @ s) = map_option ((#) c) (query_unescape s)"
proof (cases "alnum c")
  case True
  then have "c \<noteq> CHR ''%''" and "c \<noteq> CHR ''+''"
    by (auto simp: alnum_def is_digit_def byte_def)
  with True show ?thesis by (simp add: escape_char_def)
next
  case False
  have "0 \<le> byte c div 16" "byte c div 16 < 16" "0 \<le> byte c mod 16" "byte c mod 16 < 16"
    using byte_range [of c] nibbles [of "byte c"] by simp_all
  moreover have "16 * (byte c div 16) + byte c mod 16 = byte c" by simp
  ultimately show ?thesis
    using False by (simp add: escape_char_def hex_digit_props del: mult_div_mod_eq)
qed

lemma unescape_escape: "query_unescape (query_escape s) = Some s"
  by (induction s) (simp_all add: query_escape_def unescape_escape_char)

text \<open>Characters that are no white space and no separator of a key argument.\<close>

definition plain_char :: "char \<Rightarrow> bool" where
  "plain_char c \<longleftrightarrow> alnum c \<or> c = CHR ''%''"

lemma plain_query_escape: "c \<in> set (query_escape s) \<Longrightarrow> plain_char c"
proof -
  have "\<forall>c \<in> set (escape_char x). plain_char c" for x
    using byte_range [of x] nibbles [of "byte x"] hex_digit_props(3) [of "byte x div 16"] hex_digit_props(3) [of "byte x mod 16"]
    by (auto simp: escape_char_def plain_char_def)
  then show "c \<in> set (query_escape s) \<Longrightarrow> plain_char c"
    by (auto simp: query_escape_def)
qed

lemma query_escape_ne: "s \<noteq> [] \<Longrightarrow> query_escape s \<noteq> []"
  by (cases s) (simp_all add: query_escape_def escape_char_def)

lemma plain_not_sep: "plain_char c \<Longrightarrow> c \<noteq> CHR '','' \<and> c \<noteq> CHR ''=''"
  by (auto simp: plain_char_def alnum_def is_digit_def byte_def)

lemma space_runes_not_plain:
  "\<forall>w \<in> set space_runes. w \<noteq> [] \<and> \<not> plain_char (hd w) \<and> \<not> plain_char (last w)"
  unfolding Ball_set [symmetric] by code_simp

lemma space_width_plain:
  assumes "\<forall>w \<in> set ws. w \<noteq> [] \<and> \<not> plain_char (hd w)" and "plain_char c"
  shows "space_width ws (c # cs) = 0"
proof -
  have "\<not> has_prefix (c # cs) w" if w: "w \<in> set ws" for w
  proof
    assume "has_prefix (c # cs) w"
    then obtain t where t: "c # cs = w @ t" by (auto simp: has_prefix_iff)
    from w assms(1) have "w \<noteq> []" and "\<not> plain_char (hd w)" by auto
    with t assms(2) show False by (cases w) auto
  qed
  then have "filter (has_prefix (c # cs)) ws = []" by (simp add: filter_empty_conv)
  then show ?thesis by (simp add: space_width_def)
qed

lemma strip_left_plain:
  "\<forall>w \<in> set ws. w \<noteq> [] \<and> \<not> plain_char (hd w) \<Longrightarrow> list_all plain_char s \<Longrightarrow> strip_left ws s = s"
  by (cases s) (simp_all add: space_width_plain)

lemma trim_space_plain: "list_all plain_char s \<Longrightarrow> trim_space s = s"
proof -
  assume s: "list_all plain_char s"
  have "\<forall>w \<in> set (map rev space_runes). w \<noteq> [] \<and> \<not> plain_char (hd w)"
    using space_runes_not_plain by (auto simp: hd_rev)
  moreover have "\<forall>w \<in> set space_runes. w \<noteq> [] \<and> \<not> plain_char (hd w)"
    using space_runes_not_plain by blast
  ultimately show ?thesis
    using s by (simp add: trim_space_def strip_left_plain list_all_iff)
qed

lemma digit_plain: "list_all is_digit s \<Longrightarrow> list_all plain_char s"
  by (auto simp: list_all_iff plain_char_def alnum_def)

lemma digit_not_d: "is_digit c \<Longrightarrow> c \<noteq> CHR ''d''"
  by (auto simp: is_digit_def byte_def)

lemma replace_db:
  assumes "list_all is_digit s"
  shows "replace_all (''db'' @ s) ''db'' [] = s"
proof -
  have "replace_all s ''db'' [] = s"
    using assms by (induction s) (auto simp: has_prefix_def digit_not_d)
  then show ?thesis by (simp add: has_prefix_def)
qed

lemma parseKeyElem_rendered:
  assumes "0 \<le> n" and "n \<le> max_int64" and "k \<noteq> []"
  shows "parseKeyElem (''db'' @ nat_digits n @ ''='' @ query_escape k) = Inr (Some (mkPair (nat_digits n) k))"
proof -
  have d: "list_all is_digit (nat_digits n)" using assms(1) by (rule nat_digits_digits)
  then have noeq: "CHR ''='' \<notin> set (nat_digits n)" by (auto simp: list_all_iff is_digit_def byte_def)
  have kp: "list_all plain_char (query_escape k)"
    using plain_query_escape by (auto simp: list_all_iff)
  then have "CHR ''='' \<notin> set (query_escape k)" by (auto simp: list_all_iff dest: plain_not_sep)
  with noeq have split: "go_split (''db'' @ nat_digits n @ ''='' @ query_escape k) ''='' =
      [''db'' @ nat_digits n, query_escape k]"
    using split_append [of "CHR ''=''" "''db'' @ nat_digits n" "query_escape k"] by (simp add: split_none)
  have "list_all plain_char (''db'' @ nat_digits n)"
    using digit_plain [OF d] by (simp add: plain_char_def alnum_def byte_def)
  then have "replace_all (trim_space (''db'' @ nat_digits n)) ''db'' [] = nat_digits n"
    using replace_db [OF d] by (simp only: trim_space_plain)
  with split kp assms show ?thesis
    unfolding parseKeyElem_def Let_def split
    by (simp add: trim_space_plain unescape_escape atoi_nat_digits del: append_Cons)
qed

lemma parseKeyElems_rendered:
  "(\<And>n k. (n, k) \<in> set ps \<Longrightarrow> 0 \<le> n \<and> n \<le> max_int64 \<and> k \<noteq> []) \<Longrightarrow>
   parseKeyElems (map (\<lambda>(n, k). ''db'' @ nat_digits n @ ''='' @ query_escape k) ps) =
     Inr (map (\<lambda>(n, k). mkPair (nat_digits n) k) ps)"
proof (induction ps)
  case Nil
  then show ?case by simp
next
  case (Cons p ps)
  obtain n k where p: "p = (n, k)" by (cases p)
  with Cons.prems have "parseKeyElem (''db'' @ nat_digits n @ ''='' @ query_escape k) = Inr (Some (mkPair (nat_digits n) k))"
    by (intro parseKeyElem_rendered) auto
  moreover have "parseKeyElems (map (\<lambda>(n, k). ''db'' @ nat_digits n @ ''='' @ query_escape k) ps) =
      Inr (map (\<lambda>(n, k). mkPair (nat_digits n) k) ps)"
    by (rule Cons.IH) (use Cons.prems in auto)
  ultimately show ?case using p by simp
qed

text \<open>C16: the key argument format round-trips: a list of databases and keys (any non-empty
  byte strings) written as \<open>db<n>=<escaped key>,...\<close> is read back as it was.\<close>

theorem parseKeyArg_roundtrip:
  assumes "\<And>n k. (n, k) \<in> set ps \<Longrightarrow> 0 \<le> n \<and> n \<le> max_int64 \<and> k \<noteq> []"
  shows "parseKeyArg (renderKeyArg ps) = Inr (map (\<lambda>(n, k). mkPair (nat_digits n) k) ps)"
proof (cases "ps = []")
  case True
  then show ?thesis by (simp add: renderKeyArg_def parseKeyArg_def)
next
  case False
  let ?xs = "map (\<lambda>(n, k). ''db'' @ nat_digits n @ ''='' @ query_escape k) ps"
  have "CHR '','' \<notin> set x" if x: "x \<in> set ?xs" for x
  proof -
    from x obtain n k where nk: "(n, k) \<in> set ps" and x: "x = ''db'' @ nat_digits n @ ''='' @ query_escape k"
      by auto
    from assms [OF nk] nat_digits_digits [of n] have "list_all plain_char (nat_digits n)"
      by (simp add: digit_plain)
    with x show ?thesis
      by (auto simp: list_all_iff dest!: plain_query_escape plain_not_sep)
  qed
  then have "go_split (go_join ?xs '','') '','' = ?xs"
    using False by (intro split_join) auto
  moreover have "go_join ?xs '','' \<noteq> []"
    using False by (cases ps) (auto simp: go_join_head split: prod.splits)
  ultimately show ?thesis
    using parseKeyElems_rendered [OF assms] by (simp add: parseKeyArg_def renderKeyArg_def)
qed

theorem parseKeyArg_roundtrip_witness:
  "parseKeyArg (renderKeyArg [(0, ''a,b''), (15, ''x=y z*'')]) =
     Inr [mkPair (nat_digits 0) ''a,b'', mkPair (nat_digits 15) ''x=y z*'']"
proof -
  have "parseKeyArg (renderKeyArg [(0, ''a,b''), (15, ''x=y z*'')]) =
      Inr (map (\<lambda>(n, k). mkPair (nat_digits n) k) [(0, ''a,b''), (15, ''x=y z*'')])"
    by (rule parseKeyArg_roundtrip) (auto simp: max_int64_def)
  then show ?thesis by simp
qed

section \<open>Facts about the SCAN loop\<close>

text \<open>A server that answers the requests from cursor \<open>i\<close> on with the given pages and ends
  with cursor 0.\<close>

inductive served ::
  "(int \<Rightarrow> 'c \<Rightarrow> ('p \<times> int \<times> 'c) option) \<Rightarrow> int \<Rightarrow> 'c \<Rightarrow> 'p list \<Rightarrow> 'c \<Rightarrow> bool"
  for serve where
  last_page: "serve i n = Some (p, 0, n') \<Longrightarrow> served serve i n [p] n'"
| more_pages: "serve i n = Some (p, i', n1) \<Longrightarrow> i' \<noteq> 0 \<Longrightarrow> served serve i' n1 ps n2 \<Longrightarrow>
    served serve i n (p # ps) n2"

inductive_cases served_ConsE: "served serve i n (p # ps) n'"

text \<open>The contract between a cursor loop and its server: a step adds the page the server
  sends to the accumulator and goes on from its cursor, or fails where there is no page.\<close>

locale cursor_server =
  fixes step :: "int \<Rightarrow> 'a \<Rightarrow> 'c \<Rightarrow> (fault + 'a \<times> int) \<times> 'c"
    and serve :: "int \<Rightarrow> 'c \<Rightarrow> ('p \<times> int \<times> 'c) option"
    and add :: "'a \<Rightarrow> 'p \<Rightarrow> 'a"
  assumes step_served: "serve i n = Some (p, i', n') \<Longrightarrow> step i acc n = (Inr (add acc p, i'), n')"
    and step_refused: "serve i n = None \<Longrightarrow> \<exists>f n'. step i acc n = (Inl f, n')"
begin

lemma loop_served:
  "served serve i n ps n' \<Longrightarrow> cursor_loop step i acc n = Some (Inr (foldl add acc ps), n')"
proof (induction arbitrary: acc rule: served.induct)
  case (last_page i n p n')
  then show ?case by (subst cursor_loop.simps) (simp add: step_served)
next
  case (more_pages i n p i' n1 ps n2)
  then show ?case by (subst cursor_loop.simps) (simp add: step_served)
qed

lemma loop_complete:
  assumes "cursor_loop step i acc n = Some (r, n')" and "r = Inr a"
  shows "\<exists>ps. served serve i n ps n' \<and> a = foldl add acc ps"
proof -
  have "\<forall>a. fst rn = Inr a \<longrightarrow> (\<exists>ps. served serve i n ps (snd rn) \<and> a = foldl add acc ps)"
    if "cursor_loop step i acc n = Some rn" for rn
  proof (rule cursor_loop.raw_induct [where P = "\<lambda>st i acc n rn. st = step \<longrightarrow>
      (\<forall>a. fst rn = Inr a \<longrightarrow> (\<exists>ps. served serve i n ps (snd rn) \<and> a = foldl add acc ps))",
      OF _ that, THEN mp, OF _ refl])
    fix loop st i acc n rn
    assume IH: "\<And>st i acc n rn. loop st i acc n = Some rn \<Longrightarrow> st = step \<longrightarrow>
        (\<forall>a. fst rn = Inr a \<longrightarrow> (\<exists>ps. served serve i n ps (snd rn) \<and> a = foldl add acc ps))"
      and eq: "(case st i acc n of (Inl err, n') \<Rightarrow> Some (Inl err, n')
        | (Inr (acc', iter'), n') \<Rightarrow> if iter' = 0 then Some (Inr acc', n') else loop st iter' acc' n') = Some rn"
    show "st = step \<longrightarrow> (\<forall>a. fst rn = Inr a \<longrightarrow>
        (\<exists>ps. served serve i n ps (snd rn) \<and> a = foldl add acc ps))"
    proof (intro impI allI)
      fix a assume st: "st = step" and a: "fst rn = Inr a"
      show "\<exists>ps. served serve i n ps (snd rn) \<and> a = foldl add acc ps"
      proof (cases "serve i n")
        case None
        then obtain f n' where "step i acc n = (Inl f, n')" using step_refused by blast
        with eq a st show ?thesis by auto
      next
        case (Some q)
        obtain p i' n1 where q: "q = (p, i', n1)" by (cases q)
        with Some have s: "serve i n = Some (p, i', n1)" by simp
        show ?thesis
        proof (cases "i' = 0")
          case True
          with s eq a st step_served [OF s, of acc] show ?thesis
            by (auto intro!: exI [of _ "[p]"] served.last_page)
        next
          case False
          with eq st step_served [OF s, of acc] have "loop step i' (add acc p) n1 = Some rn" by simp
          from IH [OF this] a obtain ps where "served serve i' n1 ps (snd rn)"
            and "a = foldl add (add acc p) ps" by auto
          with s False show ?thesis by (auto intro!: exI [of _ "p # ps"] served.more_pages)
        qed
      qed
    qed
  qed
  with assms show ?thesis by fastforce
qed

end

text \<open>The page a SCAN reply holds: the server side of the contract for \<open>scanKeys\<close>.\<close>

definition scanKeys_page ::
  "'c env \<Rightarrow> conn \<Rightarrow> string \<Rightarrow> int \<Rightarrow> int \<Rightarrow> 'c \<Rightarrow> (reply list \<times> int \<times> 'c) option" where
  "scanKeys_page env c pattern count iter n =
     (let (r, n') =
        conn_do env c [AStr ''SCAN'', AInt iter, AStr ''MATCH'', AStr pattern, AStr ''COUNT'', AInt count] n
      in case redis_Values env r of
           Inr [cursor, page] \<Rightarrow> Some (values_or_nil env page, int_or_zero env cursor, n')
         | _ \<Rightarrow> None)"

interpretation scan: cursor_server "scanKeys_step env c pattern count"
    "scanKeys_page env c pattern count" "(@)"
proof unfold_locales
  fix i n p i' n' acc
  assume "scanKeys_page env c pattern count i n = Some (p, i', n')"
  then show "scanKeys_step env c pattern count i acc n = (Inr (acc @ p, i'), n')"
    by (auto simp: scanKeys_page_def scanKeys_step_def Let_def split: prod.splits sum.splits list.splits)
next
  fix i n acc
  assume "scanKeys_page env c pattern count i n = None"
  then show "\<exists>f n'. scanKeys_step env c pattern count i acc n = (Inl f, n')"
    by (auto simp: scanKeys_page_def scanKeys_step_def Let_def split: prod.splits sum.splits list.splits)
qed

lemma foldl_append [simp]: "foldl (@) xs ps = xs @ concat ps"
  by (induction ps arbitrary: xs) simp_all

text \<open>C17: a SCAN that the server completes (its cursor comes back to 0 after finitely many
  pages) returns, with the keys of all pages in the order they came.\<close>

theorem scanKeys_returns:
  assumes "pattern \<noteq> []" and "served (scanKeys_page env c pattern count) 0 (net w) pages n'"
  shows "scanKeys env c pattern count w = Fine (Inr (concat pages), w\<lparr>net := n'\<rparr>)"
  using assms scan.loop_served [OF assms(2), of "[]"]
  by (simp add: scanKeys_def run_cursor_loop_def)

text \<open>C18: what \<open>scanKeys\<close> returns without an error is exactly the keys of the pages of a
  completed SCAN; no page is lost or read twice.\<close>

theorem scanKeys_complete:
  assumes "scanKeys env c pattern count w = Fine (Inr keys, w')"
  shows "\<exists>pages. served (scanKeys_page env c pattern count) 0 (net w) pages (net w') \<and>
           keys = concat pages"
proof -
  from assms obtain n' where
    "cursor_loop (scanKeys_step env c pattern count) 0 [] (net w) = Some (Inr keys, n')"
    and "w' = w\<lparr>net := n'\<rparr>"
    by (auto simp: scanKeys_def ret_def run_cursor_loop_def
        split: if_splits option.splits prod.splits sum.splits fault.splits)
  with scan.loop_complete [of env c pattern count 0 "[]" "net w"] show ?thesis by fastforce
qed

text \<open>A fault of the loop is a fault of one of its steps; so a loop whose steps never panic
  does not panic.\<close>

lemma cursor_loop_fault:
  assumes "cursor_loop step i acc n = Some (r, n')" and "r = Inl f"
  shows "\<exists>i acc n n'. step i acc n = (Inl f, n')"
proof -
  have "fst rn = Inl f \<longrightarrow> (\<exists>i acc n n'. step i acc n = (Inl f, n'))"
    if "cursor_loop step i acc n = Some rn" for rn
  proof (rule cursor_loop.raw_induct [where P = "\<lambda>st i acc n rn.
      fst rn = Inl f \<longrightarrow> (\<exists>i acc n n'. st i acc n = (Inl f, n'))", OF _ that])
    fix loop st i acc n rn
    assume IH: "\<And>st i acc n rn. loop st i acc n = Some rn \<Longrightarrow>
        fst rn = Inl f \<longrightarrow> (\<exists>i acc n n'. st i acc n = (Inl f, n'))"
      and eq: "(case st i acc n of (Inl err, n') \<Rightarrow> Some (Inl err, n')
        | (Inr (acc', iter'), n') \<Rightarrow> if iter' = 0 then Some (Inr acc', n') else loop st iter' acc' n') = Some rn"
    show "fst rn = Inl f \<longrightarrow> (\<exists>i acc n n'. st i acc n = (Inl f, n'))"
    proof (intro impI)
      assume f: "fst rn = Inl f"
      show "\<exists>i acc n n'. st i acc n = (Inl f, n')"
      proof (cases "st i acc n")
        case (Pair s n')
        show ?thesis
        proof (cases s)
          case (Inl g)
          with Pair eq f show ?thesis by (auto, blast)
        next
          case (Inr ai)
          obtain acc' i' where ai: "ai = (acc', i')" by (cases ai)
          with Pair Inr eq f have "loop st i' acc' n' = Some rn" by (auto split: if_splits)
          from IH [OF this] f show ?thesis by blast
        qed
      qed
    qed
  qed
  with assms show ?thesis by fastforce
qed

lemma keeps_cursor_loop:
  assumes "\<And>i acc n e n'. step i acc n \<noteq> (Inl (Panicked e), n')"
  shows "keeps (inv e N) (run_cursor_loop step acc)"
proof (rule holdsI)
  fix w :: "'b world"
  assume w: "inv e N w"
  have "r \<noteq> Inl (Panicked x)" if "cursor_loop step 0 acc (net w) = Some (r, n)" for r n x
    using cursor_loop_fault [OF that] assms by blast
  with w show "case run_cursor_loop step acc w of
      Fine (a, s') \<Rightarrow> inv e N s' | Panic _ \<Rightarrow> False | Hang \<Rightarrow> True"
    by (auto simp: run_cursor_loop_def split: option.splits sum.splits fault.splits)
qed

lemma keeps_scanKeys [hoare_rules]: "keeps (inv e N) (scanKeys env c pattern count)"
proof -
  have "scanKeys_step env c pattern count i acc n \<noteq> (Inl (Panicked x), n')" for i acc n x n'
    by (auto simp: scanKeys_step_def Let_def split: prod.splits sum.splits list.splits)
  then show ?thesis
    by (auto simp: scanKeys_def intro!: keeps_ret keeps_cursor_loop)
qed

section \<open>Facts about key patterns and databases\<close>

text \<open>keys without pattern characters are passed on as they are, without any command.\<close>

theorem getKeysFromPatterns_plain:
  assumes "\<And>k. k \<in> set ks \<Longrightarrow> \<not> globPattern (key_of k)"
  shows "getKeysFromPatterns env c ks count w = Fine (Inr ks, w)"
proof -
  have "expandKeys env c count acc ks w = Fine (Inr (acc @ ks), w)" for acc
    using assms by (induction ks arbitrary: acc) (simp_all add: ret_def)
  then show ?thesis by (simp add: getKeysFromPatterns_def)
qed

lemma keysByDb_snoc:
  "keysByDb (ks @ [k]) =
     (case map_of (keysByDb ks) (db_of k) of
        Some a \<Rightarrow> put (db_of k) (a @ [key_of k]) (keysByDb ks)
      | None \<Rightarrow> put (db_of k) [key_of k] (keysByDb ks))"
  unfolding keysByDb_def by simp

lemma keysByDb_lookup:
  "map_of (keysByDb ks) d =
     (if d \<in> db_of ` set ks then Some (map key_of (filter (\<lambda>k. db_of k = d) ks)) else None)"
proof (induction ks rule: rev_induct)
  case Nil
  then show ?case by (simp add: keysByDb_def)
next
  case (snoc k ks)
  then show ?case by (auto simp: keysByDb_snoc filter_empty_conv image_iff split: option.splits if_splits)
qed

text \<open>grouping the keys by database loses and repeats nothing: there is one group per
  database, and it holds the keys of that database in their order.\<close>

theorem keysByDb_groups:
  "distinct (map fst (keysByDb ks)) \<and> fst ` set (keysByDb ks) = db_of ` set ks \<and>
   (\<forall>(d, keys) \<in> set (keysByDb ks). keys = map key_of (filter (\<lambda>k. db_of k = d) ks))"
proof -
  have d: "distinct (map fst (keysByDb ks))"
  proof (induction ks rule: rev_induct)
    case Nil
    then show ?case by (simp add: keysByDb_def)
  next
    case (snoc k ks)
    then show ?case by (auto simp: keysByDb_snoc split: option.splits)
  qed
  have "fst ` set (keysByDb ks) = dom (map_of (keysByDb ks))"
    by (simp add: dom_map_of_conv_image_fst)
  also have "\<dots> = db_of ` set ks" by (auto simp: keysByDb_lookup split: if_splits)
  finally show ?thesis
    using d by (auto simp: keysByDb_lookup map_of_eq_Some_iff [OF d, symmetric] split: if_splits)
qed

section \<open>Safety of the key metrics\<close>

lemma keeps_expandKeys [hoare_rules]: "keeps (inv e N) (expandKeys env c count acc ks)"
proof (induction ks arbitrary: acc)
  case Nil
  show ?case by (simp add: keeps_ret)
next
  case (Cons k ks)
  then show ?case by (auto intro!: hoare_rules)
qed

lemma keeps_registerKeyValue [hoare_rules]:
  "prom_checks_labels env \<Longrightarrow> keeps (inv e N) (registerKeyValue env e dbLabel keyName keyType strVal)"
  by (auto simp: registerKeyValue_def split: prod.splits option.splits intro!: hoare_rules)

lemma keeps_getKeyInfo [hoare_rules]:
  "prom_checks_labels env \<Longrightarrow> keeps (inv e N) (getKeyInfo env e c dbLabel keyType keyName)"
  unfolding getKeyInfo_def getStringInfoNotPipelined_def Let_def
  by (intro hoare_rules) (auto intro!: hoare_rules)

lemma keeps_notPipelined [hoare_rules]:
  "prom_checks_labels env \<Longrightarrow> keeps (inv e N) (extractCheckKeyMetricsNotPipelined env e c ks)"
  unfolding extractCheckKeyMetricsNotPipelined_def notPipelinedKey_def
  by (intro hoare_rules) auto

lemma keeps_sendAll [hoare_rules]: "keeps (inv e N) (sendAll env c cmds)"
  by (induction cmds) (auto intro!: hoare_rules)

lemma keeps_receiveKeyInfo [hoare_rules]: "keeps (inv e N) (receiveKeyInfo env c keyType)"
  unfolding receiveKeyInfo_def Let_def by (intro hoare_rules)

lemma set_indexed: "(i, x) \<in> set (indexed n xs) \<Longrightarrow> n \<le> i \<and> i < n + length xs"
  by (induction xs arbitrary: n) fastforce+

lemma keeps_getKeyInfoPipelined:
  assumes "prom_checks_labels env" and "length keyTypes = length ks"
  shows "keeps (inv e N) (getKeyInfoPipelined env e c dbLabel ks keyTypes)"
proof -
  have "i < length keyTypes" if "(i, k) \<in> set (indexed 0 ks)" for i k
    using set_indexed [OF that] assms(2) by simp
  then show ?thesis
    unfolding getKeyInfoPipelined_def using assms(1)
    by (intro hoare_rules) auto
qed

lemma holds_receiveTypes:
  fixes env :: "'c env"
  assumes "prom_checks_labels env"
  shows "holds (inv e N) (receiveTypes env e c dbLabel ks)
    (\<lambda>types w. length types = length ks \<and> inv e N w)"
proof -
  let ?J = "\<lambda>(done :: string list) (types :: string list) (w :: 'c world). length types = length done \<and> inv e N w"
  have "holds (?J [] []) (receiveTypes env e c dbLabel ks) (?J ks)"
    unfolding receiveTypes_def
  proof (rule holds_for_fold [where J = ?J])
    fix ys zs :: "string list" and types :: "string list" and k :: string
    have "holds (inv e N) (receiveType env e c dbLabel types k)
        (\<lambda>ts w. length ts = Suc (length types) \<and> inv e N w)"
      unfolding receiveType_def by (intro hoare_rules assms holds_ret) simp_all
    then show "holds (?J ys types) (receiveType env e c dbLabel types k) (?J (ys @ [k]))"
      by (auto simp: holds_def split: outcome.splits prod.splits)
  qed
  then show ?thesis by (rule holds_pre) simp
qed

lemma keeps_pipelinedDb [hoare_rules]:
  assumes "prom_checks_labels env"
  shows "keeps (inv e N) (pipelinedDb env e c dbNum ks)"
proof -
  have infos: "keeps (inv e N) (bnd (receiveTypes env e c (''db'' @ dbNum) ks)
      (\<lambda>keyTypes. andthen (getKeyInfoPipelined env e c (''db'' @ dbNum) ks keyTypes) (ret False)))"
    using assms
    by (intro holds_bnd [OF holds_receiveTypes] holds_assume hoare_rules keeps_getKeyInfoPipelined)
  show ?thesis
    unfolding pipelinedDb_def by (intro infos hoare_rules)
qed

lemma keeps_pipelined [hoare_rules]:
  "prom_checks_labels env \<Longrightarrow> keeps (inv e N) (extractCheckKeyMetricsPipelined env e c ks)"
  unfolding extractCheckKeyMetricsPipelined_def
  by (intro hoare_rules) (auto split: prod.splits intro: keeps_pipelinedDb)

lemma keeps_extractCheckKeyMetrics [hoare_rules]:
  "prom_checks_labels env \<Longrightarrow> keeps (inv e N) (extractCheckKeyMetrics env e c)"
  unfolding extractCheckKeyMetrics_def getKeysFromPatterns_def Let_def by (intro hoare_rules)

lemma keeps_extractCountKeysMetrics [hoare_rules]:
  "prom_checks_labels env \<Longrightarrow> keeps (inv e N) (extractCountKeysMetrics env e c)"
  unfolding extractCountKeysMetrics_def countKeysOf_def getKeysCount_def
  by (intro hoare_rules) simp_all


section \<open>The theorems on a concrete server\<close>

definition demo_scan_replies :: "reply goresult list" where
  "demo_scan_replies =
     [Inr (RArray [RBytes ''7'', RArray [RBytes ''a'']]),
      Inr (RArray [RBytes ''0'', RArray [RBytes ''b'', RBytes ''c'']])]"

lemma demo_scan_pages:
  "scanKeys_page demo_env 0 ''*'' 10 0 demo_scan_replies = Some ([RBytes ''a''], 7, tl demo_scan_replies)"
  "scanKeys_page demo_env 0 ''*'' 10 7 (tl demo_scan_replies) = Some ([RBytes ''b'', RBytes ''c''], 0, [])"
  by (simp_all add: scanKeys_page_def demo_scan_replies_def demo_next_def
      values_or_nil_def int_or_zero_def parse_int_def has_prefix_def is_digit_def digits_val_def
      digit_val_def byte_def max_int64_def min_int64_def)

lemma demo_scan_served:
  "served (scanKeys_page demo_env 0 ''*'' 10) 0 demo_scan_replies
     [[RBytes ''a''], [RBytes ''b'', RBytes ''c'']] []"
  by (rule served.more_pages, rule demo_scan_pages, simp, rule served.last_page, rule demo_scan_pages)

theorem scanKeys_returns_witness:
  "scanKeys demo_env 0 ''*'' 10 (start_world demo_exporter demo_scan_replies) =
     Fine (Inr [RBytes ''a'', RBytes ''b'', RBytes ''c''], start_world demo_exporter [])"
  using scanKeys_returns [of "''*''" demo_env 0 10 "start_world demo_exporter demo_scan_replies"]
    demo_scan_served by simp

theorem scanKeys_complete_witness:
  "\<exists>pages. served (scanKeys_page demo_env 0 ''*'' 10) 0 demo_scan_replies pages [] \<and>
     [RBytes ''a'', RBytes ''b'', RBytes ''c''] = concat pages"
proof -
  have "cursor_loop (scanKeys_step demo_env 0 ''*'' 10) 0 [] demo_scan_replies =
      Some (Inr [RBytes ''a'', RBytes ''b'', RBytes ''c''], [])"
    using scan.loop_served [OF demo_scan_served, of "[]"] by simp
  then have "scanKeys demo_env 0 ''*'' 10 (start_world demo_exporter demo_scan_replies) =
      Fine (Inr [RBytes ''a'', RBytes ''b'', RBytes ''c''], start_world demo_exporter [])"
    by (simp add: scanKeys_def run_cursor_loop_def)
  from scanKeys_complete [OF this] show ?thesis by simp
qed

theorem getKeysFromPatterns_plain_witness:
  "getKeysFromPatterns demo_env 0 [mkPair ''0'' ''a'', mkPair ''3'' ''b''] 10
     (start_world demo_exporter []) =
   Fine (Inr [mkPair ''0'' ''a'', mkPair ''3'' ''b''], start_world demo_exporter [])"
  by (rule getKeysFromPatterns_plain) (auto simp: globPattern_def)

section \<open>A failed TYPE reply\<close>

text \<open>C37: the pipelined collector has sent TYPE and MEMORY USAGE for every key; when the reply
  to TYPE is an error it goes on to the next key without reading the reply to MEMORY USAGE, so
  every later reply of the batch is taken for the answer to an earlier command.\<close>

theorem type_error_leaves_reply:
  assumes "\<And>q. conn_receive env c q = demo_next q" and "redis_String env t = Inl err"
    and "net w = t # mem # q"
  shows "receiveType env e c dbLabel keyTypes keyName w =
    Fine (keyTypes @ [[]], w\<lparr>net := mem # q\<rparr>)"
  using assms by (simp add: receiveType_def receive_def demo_next_def prog_defs)

theorem type_error_leaves_reply_witness:
  "receiveType demo_env demo_exporter 0 ''db0'' [] ''a''
     (start_world demo_exporter [Inr (RError ''NOPERM''), Inr (RInt 56), Inr (RString ''list'')]) =
   Fine ([[]], start_world demo_exporter [Inr (RInt 56), Inr (RString ''list'')])"
  using type_error_leaves_reply [of demo_env 0 "Inr (RError ''NOPERM'')" "''NOPERM''"
      "start_world demo_exporter [Inr (RError ''NOPERM''), Inr (RInt 56), Inr (RString ''list'')]"
      "Inr (RInt 56)" "[Inr (RString ''list'')]" demo_exporter "''db0''" "[]" "''a''"]
  by simp

theorem keysByDb_groups_witness:
  "keysByDb [mkPair ''0'' ''a'', mkPair ''1'' ''b'', mkPair ''0'' ''c''] =
     [(''0'', [''a'', ''c'']), (''1'', [''b''])] \<and>
   [''a'', ''c''] = map key_of (filter (\<lambda>k. db_of k = ''0'')
     [mkPair ''0'' ''a'', mkPair ''1'' ''b'', mkPair ''0'' ''c''])"
proof -
  let ?ks = "[mkPair ''0'' ''a'', mkPair ''1'' ''b'', mkPair ''0'' ''c'']"
  have h: "keysByDb ?ks = [(''0'', [''a'', ''c'']), (''1'', [''b''])]"
    by (simp add: keysByDb_def)
  have "(''0'', [''a'', ''c'']) \<in> set (keysByDb ?ks)" by (simp add: h)
  with keysByDb_groups [of ?ks] h show ?thesis by blast
qed

end
