(* ===== verification/Ranges.thy ===== *)
theory Ranges
  imports Metrics "HOL-Library.Multiset"
begin

text \<open>
  Traversals of Go maps: every entry is visited once, in an order Go does not fix. The order
  is the parameter \<open>range_order\<close> of the environment.
\<close>

text \<open>What Go promises of \<open>range\<close> over a map: every entry is visited once.\<close>

definition ranges_all :: "'c env \<Rightarrow> bool" where
  "ranges_all env \<longleftrightarrow> (\<forall>t ks. mset (range_order env t ks) = mset ks)"

lemma range_entries:
  assumes "mset ks = mset (map fst m)" and "distinct (map fst m)"
  shows "mset (List.map_filter (\<lambda>k. map_option (Pair k) (map_of m k)) ks) = mset m"
proof -
  let ?f = "\<lambda>k. (k, the (map_of m k))"
  have sets: "set ks = fst ` set m"
    using assms(1) by (metis mset_eq_setD set_map)
  have "List.map_filter (\<lambda>k. map_option (Pair k) (map_of m k)) ks = map ?f ks"
    if "set ks \<subseteq> fst ` set m" for ks
    using that
  proof (induction ks)
    case Nil
    show ?case by (simp add: List.map_filter_simps)
  next
    case (Cons k ks)
    then have "map_of m k \<noteq> None" by (simp add: map_of_eq_None_iff)
    with Cons show ?case by (auto simp: List.map_filter_simps)
  qed
  with sets have "List.map_filter (\<lambda>k. map_option (Pair k) (map_of m k)) ks = map ?f ks" by simp
  then have "mset (List.map_filter (\<lambda>k. map_option (Pair k) (map_of m k)) ks) = image_mset ?f (mset (map fst m))"
    using assms(1) by simp
  also have "\<dots> = mset (map ?f (map fst m))" by (simp only: mset_map)
  also have "map ?f (map fst m) = m"
    using assms(2) by (auto intro!: map_idI)
  finally show ?thesis .
qed

lemma holds_rangeMap:
  assumes "ranges_all env" and "distinct (map fst m)"
  shows "holds (inv e N) (rangeMap env m) (\<lambda>es w. mset es = mset m \<and> inv e N w)"
proof (rule holdsI)
  fix w :: "'a world"
  assume w: "inv e N w"
  have "mset (range_order env (tick w) (map fst m)) = mset (map fst m)"
    using assms(1) unfolding ranges_all_def by blast
  from range_entries [OF this assms(2)] w
  show "case rangeMap env m w of Fine (es, w) \<Rightarrow> mset es = mset m \<and> inv e N w | Panic _ \<Rightarrow> False | Hang \<Rightarrow> True"
    by (simp add: rangeMap_def act_def)
qed

end
