(* ===== verification/KeyGroups.thy ===== *)
theory KeyGroups
  imports Keys Ranges
begin

text \<open>
  Key groups (\<open>exporter/key_groups.go\<close>): a Lua script groups the keys of a database page by
  page; the exporter adds the pages up, and when a database has more groups than the
  configured maximum it exports the groups that use the most memory and one \<open>overflow\<close>
  aggregate of the others. The script runs in Redis, so its reply is a parameter
  (\<open>script_do\<close>). The order \<open>sort.Slice\<close> uses is the \<open>linorder\<close> instance below.
\<close>

section \<open>The CSV record of the group patterns\<close>

text \<open>\<open>csv.NewReader(\<dots>).Read()\<close> with the default options. A line is read with its newline; a
  carriage return before the newline, or at the end of the input, is dropped.\<close>

abbreviation newline :: char where "newline \<equiv> CHR 0x0A"
abbreviation carriage_return :: char where "carriage_return \<equiv> CHR 0x0D"

definition drop_cr :: "string \<Rightarrow> string" where
  "drop_cr l = (if l \<noteq> [] \<and> last l = carriage_return then butlast l else l)"

definition csv_line :: "string \<Rightarrow> (string \<times> string) option" where
  "csv_line s =
     (if s = [] then None
      else if newline \<in> set s
      then Some (drop_cr (takeWhile (\<lambda>c. c \<noteq> newline) s) @ [newline],
                 tl (dropWhile (\<lambda>c. c \<noteq> newline) s))
      else Some (drop_cr s, []))"

lemma csv_line_shorter: "csv_line s = Some (l, s') \<Longrightarrow> length l + length s' \<le> length s \<and> length s' < length s"
proof -
  assume a: "csv_line s = Some (l, s')"
  have d: "length (drop_cr x) \<le> length x" for x by (simp add: drop_cr_def)
  show ?thesis
  proof (cases "newline \<in> set s")
    case True
    then obtain t r where s: "s = t @ newline # r" and "newline \<notin> set t"
      by (auto dest: split_list_first)
    then have "takeWhile (\<lambda>c. c \<noteq> newline) s = t" "dropWhile (\<lambda>c. c \<noteq> newline) s = newline # r"
      by (auto simp: takeWhile_append dropWhile_append)
    with a s d [of t] show ?thesis by (auto simp: csv_line_def)
  next
    case False
    with a d [of s] show ?thesis by (auto simp: csv_line_def split: if_splits)
  qed
qed

function csv_start :: "string \<Rightarrow> (string \<times> string) option" where
  "csv_start s =
     (case csv_line s of
        None \<Rightarrow> None
      | Some (l, s') \<Rightarrow> if l = [] \<or> l = [newline] then csv_start s' else Some (l, s'))"
  by auto
termination
proof (relation "measure length", goal_cases)
  case (2 s x l s')
  then show ?case using csv_line_shorter [of s l s'] by simp
qed simp

text \<open>A quoted field, from after the opening quote: the field, what is left of the line when a
  comma follows, and the input after the line.\<close>

function csv_quoted ::
  "string \<Rightarrow> string \<Rightarrow> string \<Rightarrow> (string \<times> string option \<times> string) goresult" where
  "csv_quoted acc [] rest =
     (case csv_line rest of
        None \<Rightarrow> Inl ''extraneous or missing quote in quoted-field''
      | Some (l, rest') \<Rightarrow> csv_quoted acc l rest')"
| "csv_quoted acc (c # line) rest =
     (if c \<noteq> CHR 0x22 then csv_quoted (acc @ [c]) line rest
      else if line = [] \<or> line = [newline] then Inr (acc, None, rest)
      else if hd line = CHR 0x22 then csv_quoted (acc @ [CHR 0x22]) (tl line) rest
      else if hd line = CHR '','' then Inr (acc, Some (tl line), rest)
      else Inl ''extraneous or missing quote in quoted-field'')"
  by pat_completeness auto
termination
  by (relation "measure (\<lambda>(acc, line, rest). 2 * length line + 2 * length rest + (if line = [] then 1 else 0))")
    (auto dest!: csv_line_shorter simp: neq_Nil_conv)

lemma csv_quoted_shorter:
  "csv_quoted acc line rest = Inr (f, Some l, rest') \<Longrightarrow>
   length l + length rest' < length line + length rest"
  by (induction acc line rest rule: csv_quoted.induct)
    (fastforce split: option.splits if_splits dest: csv_line_shorter simp: neq_Nil_conv)+

function csv_fields :: "string \<Rightarrow> string \<Rightarrow> string list goresult" where
  "csv_fields line rest =
     (if has_prefix line [CHR 0x22] then
        (case csv_quoted [] (tl line) rest of
           Inl err \<Rightarrow> Inl err
         | Inr (f, None, _) \<Rightarrow> Inr [f]
         | Inr (f, Some line', rest') \<Rightarrow> map_sum id ((#) f) (csv_fields line' rest'))
      else
        let f = takeWhile (\<lambda>c. c \<noteq> CHR '','') line; more = dropWhile (\<lambda>c. c \<noteq> CHR '','') line;
            f = (if more = [] \<and> f \<noteq> [] \<and> last f = newline then butlast f else f)
        in if CHR 0x22 \<in> set f then Inl ''bare quote in non-quoted-field''
           else if more = [] then Inr [f]
           else map_sum id ((#) f) (csv_fields (tl more) rest))"
  by pat_completeness auto
termination
proof (relation "measure (\<lambda>(line, rest). length line + length rest)", goal_cases)
  case (2 line rest x b xa x2 rest' line')
  then have "csv_quoted [] (tl line) rest = Inr (b, Some line', rest')" by auto
  from csv_quoted_shorter [OF this] show ?case by simp
next
  case (3 line rest f more f')
  have "length (dropWhile (\<lambda>c. c \<noteq> CHR '','') line) \<le> length line"
    by (rule length_dropWhile_le)
  with 3 show ?case by (cases "dropWhile (\<lambda>c. c \<noteq> CHR '','') line") auto
qed simp

declare csv_start.simps [simp del] csv_quoted.simps [simp del] csv_fields.simps [simp del]

definition csv_read :: "string \<Rightarrow> string list goresult" where
  "csv_read s = (case csv_start s of None \<Rightarrow> Inl ''EOF'' | Some (line, rest) \<Rightarrow> csv_fields line rest)"

section \<open>Groups and their order\<close>

datatype keyGroupMetrics = KeyGroup (keyGroup: string) (count: int) (memoryUsage: int)

text \<open>The order of \<open>sort.Slice\<close>: more memory first, then the smaller count, then the name.\<close>

definition group_before :: "keyGroupMetrics \<Rightarrow> keyGroupMetrics \<Rightarrow> bool" where
  "group_before a b \<longleftrightarrow>
     (if memoryUsage a = memoryUsage b then
        if count a = count b then keyGroup a < keyGroup b else count a < count b
      else memoryUsage a > memoryUsage b)"

text \<open>It is a linear order, so that the sorting of the library can be used with it.\<close>

instantiation keyGroupMetrics :: linorder
begin

definition less_keyGroupMetrics :: "keyGroupMetrics \<Rightarrow> keyGroupMetrics \<Rightarrow> bool" where
  "less_keyGroupMetrics = group_before"

definition less_eq_keyGroupMetrics :: "keyGroupMetrics \<Rightarrow> keyGroupMetrics \<Rightarrow> bool" where
  "less_eq_keyGroupMetrics a b \<longleftrightarrow> a = b \<or> a < b"

instance
  by intro_classes
    (auto simp: less_eq_keyGroupMetrics_def less_keyGroupMetrics_def group_before_def
      intro: keyGroupMetrics.expand split: if_splits)

end

lemmas group_order = less_eq_keyGroupMetrics_def less_keyGroupMetrics_def group_before_def

section \<open>Adding up the pages\<close>

type_synonym groups = "(string \<times> keyGroupMetrics) list"

text \<open>One row of a page: name, count and memory use, read by index; \<open>None\<close> when the row is too
  short for one of the three.\<close>

definition group_row :: "'c env \<Rightarrow> reply \<Rightarrow> (string \<times> int \<times> int) option" where
  "group_row env grp =
     (let metricsArr = values_or_nil env grp
      in case (index metricsArr 0, index metricsArr 1, index metricsArr 2) of
           (Some name, Some cnt, Some mem) \<Rightarrow>
             Some (string_or_empty env (Inr name), int64_or_zero env cnt, int64_or_zero env mem)
         | _ \<Rightarrow> None)"

definition add_group :: "groups \<Rightarrow> string \<times> int \<times> int \<Rightarrow> groups" where
  "add_group allGroups row =
     (let (name, cnt, mem) = row
      in case map_of allGroups name of
           Some currentMetrics \<Rightarrow>
             put name (KeyGroup (keyGroup currentMetrics) (wrap64 (count currentMetrics + cnt))
                        (wrap64 (memoryUsage currentMetrics + mem))) allGroups
         | None \<Rightarrow> put name (KeyGroup name cnt mem) allGroups)"

definition add_page :: "groups \<Rightarrow> (string \<times> int \<times> int) list \<Rightarrow> groups" where
  "add_page allGroups rows = foldl add_group allGroups rows"

definition gatherKeyGroupMetrics_step ::
  "'c env \<Rightarrow> conn \<Rightarrow> int \<Rightarrow> string list \<Rightarrow> int \<Rightarrow> groups \<Rightarrow> 'c \<Rightarrow> (fault + groups \<times> int) \<times> 'c"
where
  "gatherKeyGroupMetrics_step env c batchSize keyGroups iter allGroups n =
     (let (r, n') = script_do env c ([AInt iter, AInt batchSize] @ map AStr keyGroups) n
      in case redis_Values env r of
           Inl err \<Rightarrow> (Inl (Failed err), n')
         | Inr [cursor, page] \<Rightarrow>
             (case those (map (group_row env) (values_or_nil env page)) of
                None \<Rightarrow> (Inl (Panicked ''index out of range''), n')
              | Some rows \<Rightarrow> (Inr (add_page allGroups rows, int_or_zero env cursor), n'))
         | Inr _ \<Rightarrow>
             (Inl (Failed (''invalid response from key group metrics lua script for groups: '' @
                go_join keyGroups '', '')), n'))"

definition gatherKeyGroupMetrics ::
  "'c env \<Rightarrow> conn \<Rightarrow> int \<Rightarrow> string list \<Rightarrow> ('c, groups goresult) io" where
  "gatherKeyGroupMetrics env c batchSize keyGroups =
     run_cursor_loop (gatherKeyGroupMetrics_step env c batchSize keyGroups) []"

section \<open>All databases\<close>

record overflowedKeyGroupMetrics =
  topMemoryUsageKeyGroups :: "keyGroupMetrics list"
  overflowKeyGroupAggregate :: keyGroupMetrics
  keyGroupsCount :: int

text \<open>One entry per database; \<open>None\<close> is the nil of the Go slices.\<close>

record keyGroupsScrapeResult =
  duration :: int
  all_metrics :: "groups option list"
  overflowedMetrics :: "overflowedKeyGroupMetrics option list"

text \<open>The groups with the most memory and the aggregate of the others; \<open>None\<close> when the slice
  expression panics. \<open>metricsSlice\<close> comes from a map traversal, in any order.\<close>

definition overflow_of :: "int \<Rightarrow> keyGroupMetrics list \<Rightarrow> overflowedKeyGroupMetrics option" where
  "overflow_of maxGroups metricsSlice =
     (if maxGroups < 0 \<or> int (length metricsSlice) < maxGroups then None
      else
        let sorted = sort metricsSlice;
            rest = drop (nat maxGroups) sorted
        in Some \<lparr>topMemoryUsageKeyGroups = take (nat maxGroups) sorted,
                 overflowKeyGroupAggregate =
                   KeyGroup ''overflow''
                     (foldl (\<lambda>n v. wrap64 (n + count v)) 0 rest)
                     (foldl (\<lambda>n v. wrap64 (n + memoryUsage v)) 0 rest),
                 keyGroupsCount = int (length metricsSlice)\<rparr>)"

definition databaseGroups ::
  "'c env \<Rightarrow> Exporter \<Rightarrow> conn \<Rightarrow> string list \<Rightarrow> int
   \<Rightarrow> ('c, groups option \<times> overflowedKeyGroupMetrics option) io" where
  "databaseGroups env e c keyGroups db =
     bnd (doRedisCmd env c [AStr ''SELECT'', AInt db]) (\<lambda>r. case r of
         Inl err \<Rightarrow> ret (None, None)
       | Inr _ \<Rightarrow>
           bnd (gatherKeyGroupMetrics env c (CheckKeysBatchSize (options e)) keyGroups) (\<lambda>g. case g of
               Inl err \<Rightarrow> ret (None, None)
             | Inr allGroups \<Rightarrow>
                 if int (length allGroups) > MaxDistinctKeyGroups (options e) then
                   bnd (rangeMap env allGroups) (\<lambda>entries.
                     case overflow_of (MaxDistinctKeyGroups (options e)) (map snd entries) of
                       None \<Rightarrow> panic ''slice bounds out of range''
                     | Some overflowed \<Rightarrow> ret (Some allGroups, Some overflowed))
                 else ret (Some allGroups, None)))"

text \<open>The configured patterns: one CSV record, without blanks around the fields and without the
  empty fields; \<open>None\<close> when there is nothing to collect.\<close>

definition configuredGroups :: "Exporter \<Rightarrow> string list option" where
  "configuredGroups e =
     (if trim_space (CheckKeyGroups (options e)) = [] then None
      else case csv_read (CheckKeyGroups (options e)) of
          Inl err \<Rightarrow> None
        | Inr keyGroups \<Rightarrow>
            let keyGroupsNoEmptyStrings = filter (\<lambda>v. v \<noteq> []) (map trim_space keyGroups)
            in if keyGroupsNoEmptyStrings = [] then None else Some keyGroupsNoEmptyStrings)"

definition gatherKeyGroupsMetricsForAllDatabases ::
  "'c env \<Rightarrow> Exporter \<Rightarrow> conn \<Rightarrow> int \<Rightarrow> ('c, keyGroupsScrapeResult) io" where
  "gatherKeyGroupsMetricsForAllDatabases env e c dbCount =
     bnd (timeNow env) (\<lambda>start.
       if dbCount < 0 then panic ''makeslice: len out of range''
       else
         bnd (case configuredGroups e of
                None \<Rightarrow> ret (replicate (nat dbCount) (None, None))
              | Some keyGroups \<Rightarrow>
                  for_fold (\<lambda>dbs db. bnd (databaseGroups env e c keyGroups db) (\<lambda>d. ret (dbs @ [d])))
                    [] (map int [0..<nat dbCount]))
           (\<lambda>dbs. bnd (timeNow env) (\<lambda>now.
              ret \<lparr>duration = time_between start now, all_metrics = map fst dbs,
                   overflowedMetrics = map snd dbs\<rparr>)))"

section \<open>The metrics\<close>

definition registerKeyGroupMetrics ::
  "'c env \<Rightarrow> Exporter \<Rightarrow> string \<Rightarrow> keyGroupMetrics \<Rightarrow> ('c, unit) io" where
  "registerKeyGroupMetrics env e dbLabel metrics =
     block
       [registerConstMetricGauge env e ''key_group_count'' (f64_of_int (count metrics))
          [dbLabel, keyGroup metrics],
        registerConstMetricGauge env e ''key_group_memory_usage_bytes''
          (f64_of_int (memoryUsage metrics)) [dbLabel, keyGroup metrics]]"

definition registerDatabaseGroups ::
  "'c env \<Rightarrow> Exporter \<Rightarrow> nat \<Rightarrow> groups option \<Rightarrow> overflowedKeyGroupMetrics option \<Rightarrow> ('c, unit) io"
where
  "registerDatabaseGroups env e db dbKeyGroupMetrics overflowed =
     (let dbLabel = ''db'' @ itoa (int db) in
      case overflowed of
        Some ovf \<Rightarrow>
          block
            [for_each (registerKeyGroupMetrics env e dbLabel) (topMemoryUsageKeyGroups ovf),
             registerKeyGroupMetrics env e dbLabel (overflowKeyGroupAggregate ovf),
             registerConstMetricGauge env e ''number_of_distinct_key_groups''
               (f64_of_int (keyGroupsCount ovf)) [dbLabel]]
      | None \<Rightarrow>
          (case dbKeyGroupMetrics of
             Some groups \<Rightarrow>
               andthen
                 (bnd (rangeMap env groups) (\<lambda>entries.
                    for_each (registerKeyGroupMetrics env e dbLabel) (map snd entries)))
                 (registerConstMetricGauge env e ''number_of_distinct_key_groups''
                    (f64_of_int (int (length groups))) [dbLabel])
           | None \<Rightarrow> skip))"

definition extractKeyGroupMetrics ::
  "'c env \<Rightarrow> Exporter \<Rightarrow> conn \<Rightarrow> int \<Rightarrow> ('c, unit) io" where
  "extractKeyGroupMetrics env e c dbCount =
     bnd (gatherKeyGroupsMetricsForAllDatabases env e c dbCount) (\<lambda>r.
       andthen
         (for_each (\<lambda>(db, groups, overflowed). registerDatabaseGroups env e db groups overflowed)
            (indexed 0 (zip (all_metrics r) (overflowedMetrics r))))
         (registerConstMetricGauge env e ''last_key_groups_scrape_duration_milliseconds''
            (f64_of_int (duration_milliseconds (duration r))) []))"


section \<open>Facts about the overflow\<close>

lemma foldl_wrap64: "foldl (\<lambda>n v. wrap64 (n + f v)) (wrap64 a) vs = wrap64 (a + sum_list (map f vs))"
proof (induction vs arbitrary: a)
  case Nil
  show ?case by simp
next
  case (Cons v vs)
  have "wrap64 (wrap64 a + f v) = wrap64 (a + f v)" by (rule wrap64_add)
  with Cons [of "a + f v"] show ?case by (simp add: add.assoc)
qed

lemma foldl_wrap64_0: "foldl (\<lambda>n v. wrap64 (n + f v)) 0 vs = wrap64 (sum_list (map f vs))"
  using foldl_wrap64 [of f 0 vs] by (simp add: wrap64_def)

lemma memory_of_le: "a \<le> b \<Longrightarrow> memoryUsage b \<le> memoryUsage (a :: keyGroupMetrics)"
  by (auto simp: group_order split: if_splits)

text \<open>C14: when a database has too many groups, the groups exported by name and the groups added
  up as \<open>overflow\<close> are together the groups that were there; no group added up uses more memory
  than one exported by name; there are as many named ones as configured; and the aggregate is
  the sum of its groups in 64-bit arithmetic.\<close>

theorem overflow_partition:
  assumes "overflow_of maxGroups gs = Some ovf"
  shows "\<exists>rest. mset (topMemoryUsageKeyGroups ovf) + mset rest = mset gs \<and>
    (\<forall>a \<in> set (topMemoryUsageKeyGroups ovf). \<forall>b \<in> set rest. memoryUsage b \<le> memoryUsage a) \<and>
    int (length (topMemoryUsageKeyGroups ovf)) = maxGroups \<and>
    keyGroup (overflowKeyGroupAggregate ovf) = ''overflow'' \<and>
    count (overflowKeyGroupAggregate ovf) = wrap64 (sum_list (map count rest)) \<and>
    memoryUsage (overflowKeyGroupAggregate ovf) = wrap64 (sum_list (map memoryUsage rest)) \<and>
    keyGroupsCount ovf = int (length gs)"
proof -
  let ?n = "nat maxGroups"
  from assms have n: "0 \<le> maxGroups" "?n \<le> length gs"
    and ovf: "topMemoryUsageKeyGroups ovf = take ?n (sort gs)"
      "overflowKeyGroupAggregate ovf = KeyGroup ''overflow''
         (foldl (\<lambda>n v. wrap64 (n + count v)) 0 (drop ?n (sort gs)))
         (foldl (\<lambda>n v. wrap64 (n + memoryUsage v)) 0 (drop ?n (sort gs)))"
      "keyGroupsCount ovf = int (length gs)"
    by (auto simp: overflow_of_def Let_def split: if_splits)
  have "mset (take ?n (sort gs)) + mset (drop ?n (sort gs)) = mset gs"
    by (metis append_take_drop_id mset_append mset_sort)
  moreover have "memoryUsage b \<le> memoryUsage a"
    if "a \<in> set (take ?n (sort gs))" "b \<in> set (drop ?n (sort gs))" for a b
  proof -
    have "sorted (take ?n (sort gs) @ drop ?n (sort gs))" by simp
    with that show ?thesis unfolding sorted_append by (blast intro: memory_of_le)
  qed
  ultimately show ?thesis
    using n ovf by (intro exI [of _ "drop ?n (sort gs)"]) (auto simp: foldl_wrap64_0 min_absorb2)
qed

theorem overflow_partition_witness:
  "overflow_of 1 [KeyGroup ''a'' 1 10, KeyGroup ''b'' 2 30, KeyGroup ''c'' 3 5] =
     Some \<lparr>topMemoryUsageKeyGroups = [KeyGroup ''b'' 2 30],
           overflowKeyGroupAggregate = KeyGroup ''overflow'' 4 15, keyGroupsCount = 3\<rparr> \<and>
   (\<exists>rest. mset [KeyGroup ''b'' 2 30] + mset rest =
      mset [KeyGroup ''a'' 1 10, KeyGroup ''b'' 2 30, KeyGroup ''c'' 3 5])"
proof -
  have h: "overflow_of 1 [KeyGroup ''a'' 1 10, KeyGroup ''b'' 2 30, KeyGroup ''c'' 3 5] =
     Some \<lparr>topMemoryUsageKeyGroups = [KeyGroup ''b'' 2 30],
           overflowKeyGroupAggregate = KeyGroup ''overflow'' 4 15, keyGroupsCount = 3\<rparr>"
    by (simp add: overflow_of_def group_order
        wrap64_def)
  from overflow_partition [OF h] h show ?thesis by auto
qed

text \<open>C15: which groups are exported by name does not depend on the order in which Go visits the
  map of the groups.\<close>

theorem overflow_order_irrelevant:
  assumes "mset gs = mset gs'"
  shows "overflow_of maxGroups gs = overflow_of maxGroups gs'"
proof -
  have "sort gs = sort gs'"
    using assms by (metis sorted_list_of_multiset_mset)
  moreover have "length gs = length gs'"
    using assms by (rule mset_eq_length)
  ultimately show ?thesis by (simp add: overflow_of_def)
qed

theorem overflow_order_irrelevant_witness:
  "overflow_of 1 [KeyGroup ''a'' 1 10, KeyGroup ''b'' 2 30] =
   overflow_of 1 [KeyGroup ''b'' 2 30, KeyGroup ''a'' 1 10]"
  by (rule overflow_order_irrelevant) simp

section \<open>Facts about the pages\<close>

text \<open>The script as a server of pages: a short row or a reply of another shape is a refusal.\<close>

definition group_page ::
  "'c env \<Rightarrow> conn \<Rightarrow> int \<Rightarrow> string list \<Rightarrow> int \<Rightarrow> 'c \<Rightarrow> ((string \<times> int \<times> int) list \<times> int \<times> 'c) option"
where
  "group_page env c batchSize keyGroups iter n =
     (let (r, n') = script_do env c ([AInt iter, AInt batchSize] @ map AStr keyGroups) n
      in case redis_Values env r of
           Inr [cursor, page] \<Rightarrow>
             map_option (\<lambda>rows. (rows, int_or_zero env cursor, n'))
               (those (map (group_row env) (values_or_nil env page)))
         | _ \<Rightarrow> None)"

interpretation groups: cursor_server "gatherKeyGroupMetrics_step env c batchSize keyGroups"
    "group_page env c batchSize keyGroups" add_page
proof unfold_locales
  fix i n p i' n' acc
  assume "group_page env c batchSize keyGroups i n = Some (p, i', n')"
  then show "gatherKeyGroupMetrics_step env c batchSize keyGroups i acc n = (Inr (add_page acc p, i'), n')"
    by (auto simp: group_page_def gatherKeyGroupMetrics_step_def Let_def
        split: prod.splits sum.splits list.splits option.splits)
next
  fix i n acc
  assume "group_page env c batchSize keyGroups i n = None"
  then show "\<exists>f n'. gatherKeyGroupMetrics_step env c batchSize keyGroups i acc n = (Inl f, n')"
    by (auto simp: group_page_def gatherKeyGroupMetrics_step_def Let_def
        split: prod.splits sum.splits list.splits option.splits)
qed

lemma foldl_add_page: "foldl add_page g pages = foldl add_group g (concat pages)"
  by (induction pages arbitrary: g) (simp_all add: add_page_def)

text \<open>The rows of one group, and the group they add up to.\<close>

definition rows_of :: "string \<Rightarrow> (string \<times> int \<times> int) list \<Rightarrow> (int \<times> int) list" where
  "rows_of name rows = map snd (filter (\<lambda>r. fst r = name) rows)"

lemma rows_of_snoc:
  "rows_of name (rows @ [(g, c, u)]) = rows_of name rows @ (if g = name then [(c, u)] else [])"
  by (simp add: rows_of_def)

lemma map_of_add_group:
  "map_of (add_group m (g, c, u)) name =
     (if g = name then
        (case map_of m name of
           Some x \<Rightarrow> Some (KeyGroup (keyGroup x) (wrap64 (count x + c)) (wrap64 (memoryUsage x + u)))
         | None \<Rightarrow> Some (KeyGroup name c u))
      else map_of m name)"
  by (auto simp: add_group_def split: option.splits)

lemma map_of_add_groups:
  assumes "\<forall>(g, c, u) \<in> set rows. wrap64 c = c \<and> wrap64 u = u"
  shows "map_of (foldl add_group [] rows) name =
    (if rows_of name rows = [] then None
     else Some (KeyGroup name (wrap64 (sum_list (map fst (rows_of name rows))))
                 (wrap64 (sum_list (map snd (rows_of name rows))))))"
  using assms
proof (induction rows rule: rev_induct)
  case Nil
  show ?case by (simp add: rows_of_def)
next
  case (snoc row rows)
  obtain g c u where row: "row = (g, c, u)" by (cases row)
  from snoc have IH: "map_of (foldl add_group [] rows) name =
      (if rows_of name rows = [] then None
       else Some (KeyGroup name (wrap64 (sum_list (map fst (rows_of name rows))))
                   (wrap64 (sum_list (map snd (rows_of name rows))))))" by simp
  from snoc.prems row have "wrap64 c = c" "wrap64 u = u" by auto
  with IH row show ?case
    by (auto simp: map_of_add_group rows_of_snoc wrap64_add)
qed

text \<open>C19: when the script completes (cursor 0 after finitely many pages), the result has one entry
  per group name that occurs, with the sums over all pages in 64-bit arithmetic.\<close>

theorem gatherKeyGroupMetrics_totals:
  assumes "served (group_page env c batchSize keyGroups) 0 (net w) pages n'"
    and "\<forall>(g, cnt, mem) \<in> set (concat pages). wrap64 cnt = cnt \<and> wrap64 mem = mem"
  shows "\<exists>groups. gatherKeyGroupMetrics env c batchSize keyGroups w = Fine (Inr groups, w\<lparr>net := n'\<rparr>) \<and>
    (\<forall>name. map_of groups name =
       (if rows_of name (concat pages) = [] then None
        else Some (KeyGroup name (wrap64 (sum_list (map fst (rows_of name (concat pages)))))
                    (wrap64 (sum_list (map snd (rows_of name (concat pages))))))))"
proof -
  have "gatherKeyGroupMetrics env c batchSize keyGroups w =
      Fine (Inr (foldl add_group [] (concat pages)), w\<lparr>net := n'\<rparr>)"
    using groups.loop_served [OF assms(1), of "[]"]
    by (simp add: gatherKeyGroupMetrics_def run_cursor_loop_def foldl_add_page)
  with map_of_add_groups [OF assms(2)] show ?thesis by simp
qed

section \<open>Safety of the key groups\<close>

text \<open>What the exporter relies on about the reply of its script: every row of a page has a name,
  a count and a memory use.\<close>

definition script_rows_ok :: "'c env \<Rightarrow> bool" where
  "script_rows_ok env \<longleftrightarrow>
     (\<forall>c args n cursor page. redis_Values env (fst (script_do env c args n)) = Inr [cursor, page] \<longrightarrow>
        (\<forall>grp \<in> set (values_or_nil env page). group_row env grp \<noteq> None))"

lemma those_Some: "(\<And>x. x \<in> set xs \<Longrightarrow> f x \<noteq> None) \<Longrightarrow> those (map f xs) \<noteq> None"
proof (induction xs)
  case Nil
  show ?case by simp
next
  case (Cons x xs)
  then have "f x \<noteq> None" and "those (map f xs) \<noteq> None" by simp_all
  then show ?case by auto
qed

lemma groups_step_no_panic:
  assumes "script_rows_ok env"
  shows "gatherKeyGroupMetrics_step env c batchSize keyGroups i acc n \<noteq> (Inl (Panicked x), n')"
proof -
  let ?r = "script_do env c ([AInt i, AInt batchSize] @ map AStr keyGroups) n"
  have "those (map (group_row env) (values_or_nil env page)) \<noteq> None"
    if "redis_Values env (fst ?r) = Inr [cursor, page]" for cursor page
  proof (rule those_Some)
    fix grp assume "grp \<in> set (values_or_nil env page)"
    with assms that show "group_row env grp \<noteq> None" unfolding script_rows_ok_def by blast
  qed
  then show ?thesis
    by (auto simp: gatherKeyGroupMetrics_step_def Let_def
        split: prod.splits sum.splits list.splits option.splits)
qed

lemma distinct_add_group: "distinct (map fst m) \<Longrightarrow> distinct (map fst (add_group m row))"
  by (cases row) (auto simp: add_group_def split: option.splits)

lemma distinct_add_page: "distinct (map fst m) \<Longrightarrow> distinct (map fst (add_page m rows))"
  unfolding add_page_def by (induction rows arbitrary: m) (simp_all add: distinct_add_group)

lemma holds_gather:
  assumes "script_rows_ok env"
  shows "holds (inv e N) (gatherKeyGroupMetrics env c batchSize keyGroups)
    (\<lambda>r w. (\<forall>g. r = Inr g \<longrightarrow> distinct (map fst g)) \<and> inv e N w)"
proof (rule holdsI)
  fix w :: "'a world"
  assume w: "inv e N w"
  let ?loop = "cursor_loop (gatherKeyGroupMetrics_step env c batchSize keyGroups) 0 [] (net w)"
  have "r \<noteq> Inl (Panicked x)" if "?loop = Some (r, n)" for r n x
    using cursor_loop_fault [OF that] groups_step_no_panic [OF assms] by blast
  moreover have "distinct (map fst g)" if loop: "?loop = Some (Inr g, n)" for g n
  proof -
    obtain pages where "g = foldl add_page [] pages"
      using groups.loop_complete [OF loop] by blast
    moreover have "distinct (map fst (foldl add_page m pages))" if "distinct (map fst m)" for m :: groups
      using that by (induction pages arbitrary: m) (simp_all add: distinct_add_page)
    ultimately show ?thesis by simp
  qed
  ultimately show "case gatherKeyGroupMetrics env c batchSize keyGroups w of
      Fine (r, w) \<Rightarrow> (\<forall>g. r = Inr g \<longrightarrow> distinct (map fst g)) \<and> inv e N w
    | Panic _ \<Rightarrow> False | Hang \<Rightarrow> True"
    using w by (auto simp: gatherKeyGroupMetrics_def run_cursor_loop_def
        split: option.splits sum.splits fault.splits)
qed

lemma keeps_databaseGroups [hoare_rules]:
  assumes "script_rows_ok env" and "ranges_all env" and "0 \<le> MaxDistinctKeyGroups (options e)"
  shows "keeps (inv e N) (databaseGroups env e c keyGroups db)"
proof -
  let ?max = "MaxDistinctKeyGroups (options e)"
  let ?select = "\<lambda>(allGroups :: groups) entries. case overflow_of ?max (map snd entries) of
      None \<Rightarrow> panic ''slice bounds out of range''
    | Some overflowed \<Rightarrow> ret (Some allGroups, Some overflowed)"
  have select: "holds (inv e N) (bnd (rangeMap env allGroups) (?select allGroups)) (\<lambda>_. inv e N)"
    if d: "distinct (map fst allGroups)" and l: "?max < int (length allGroups)" for allGroups
  proof (rule holds_bnd [OF holds_rangeMap [OF assms(2) d]])
    fix entries :: groups
    show "holds (\<lambda>w. mset entries = mset allGroups \<and> inv e N w) (?select allGroups entries) (\<lambda>_. inv e N)"
    proof (rule holds_assume)
      assume "mset entries = mset allGroups"
      then have "length entries = length allGroups" by (rule mset_eq_length)
      with l assms(3) have "overflow_of ?max (map snd entries) \<noteq> None"
        by (simp add: overflow_of_def Let_def)
      then show "holds (inv e N) (?select allGroups entries) (\<lambda>_. inv e N)"
        by (auto intro: keeps_ret)
    qed
  qed
  have rest: "holds (\<lambda>w. (\<forall>g. r = Inr g \<longrightarrow> distinct (map fst g)) \<and> inv e N w)
      (case r of Inl err \<Rightarrow> ret (None, None)
       | Inr allGroups \<Rightarrow>
           if int (length allGroups) > ?max
           then bnd (rangeMap env allGroups) (?select allGroups)
           else ret (Some allGroups, None)) (\<lambda>_. inv e N)" for r :: "groups goresult"
    by (rule holds_assume) (auto split: sum.splits intro!: keeps_ret select)
  show ?thesis
    unfolding databaseGroups_def
    by (intro hoare_rules holds_bnd [OF holds_gather [OF assms(1)]] rest)
qed

lemma keeps_registerDatabaseGroups [hoare_rules]:
  assumes "prom_checks_labels env"
  shows "keeps (inv e N) (registerDatabaseGroups env e db groups overflowed)"
proof -
  have one: "keeps (inv e N) (registerKeyGroupMetrics env e dbLabel m)" for dbLabel m
    unfolding registerKeyGroupMetrics_def using assms by (intro hoare_rules) (auto intro!: keeps_gauge)
  show ?thesis
    unfolding registerDatabaseGroups_def Let_def using assms one
    by (intro hoare_rules) (auto intro!: hoare_rules)
qed

lemma keeps_extractKeyGroupMetrics [hoare_rules]:
  assumes "prom_checks_labels env" and "script_rows_ok env" and "ranges_all env"
    and "0 \<le> MaxDistinctKeyGroups (options e)" and "0 \<le> dbCount"
  shows "keeps (inv e N) (extractKeyGroupMetrics env e c dbCount)"
proof -
  have "keeps (inv e N) (gatherKeyGroupsMetricsForAllDatabases env e c dbCount)"
    unfolding gatherKeyGroupsMetricsForAllDatabases_def using assms
    by (intro hoare_rules) simp_all
  with assms(1) show ?thesis
    unfolding extractKeyGroupMetrics_def
    by (intro hoare_rules) (auto intro!: hoare_rules)
qed

text \<open>C20: with a maximum that is not negative and a script that answers as the exporter's script
  does, collecting the key groups never panics, and every metric sent agrees with the
  description stored under its name.\<close>

theorem extractKeyGroupMetrics_safe:
  assumes "prom_checks_labels env" and "script_rows_ok env" and "ranges_all env"
    and "0 \<le> MaxDistinctKeyGroups (options e)" and "0 \<le> dbCount" and "inv e N w"
  shows "extractKeyGroupMetrics env e c dbCount w \<noteq> Panic msg \<and>
    (\<forall>w'. extractKeyGroupMetrics env e c dbCount w = Fine ((), w') \<longrightarrow> inv e N w')"
  using holds_no_panic [OF keeps_extractKeyGroupMetrics [OF assms(1-5)] assms(6)]
    holds_Fine [OF keeps_extractKeyGroupMetrics [OF assms(1-5)] assms(6)] by blast

text \<open>C38: a negative \<open>max-distinct-key-groups\<close> is accepted by the options, but as soon as one
  database has been scanned the slice expression panics and the process ends.\<close>

theorem negative_max_panics:
  assumes "MaxDistinctKeyGroups (options e) < 0"
    and "conn_do env c [AStr ''SELECT'', AInt db] (net w) = (Inr r, n)"
    and "served (group_page env c (CheckKeysBatchSize (options e)) keyGroups) 0 n pages n'"
  shows "databaseGroups env e c keyGroups db w = Panic ''slice bounds out of range''"
proof -
  let ?g = "foldl add_page [] pages"
  have "gatherKeyGroupMetrics env c (CheckKeysBatchSize (options e)) keyGroups (w\<lparr>net := n\<rparr>) =
      Fine (Inr ?g, w\<lparr>net := n'\<rparr>)"
    using groups.loop_served [OF assms(3), of "[]"]
    by (simp add: gatherKeyGroupMetrics_def run_cursor_loop_def)
  moreover have "MaxDistinctKeyGroups (options e) < int (length ?g)"
    using assms(1) by simp
  ultimately show ?thesis
    using assms(1,2) by (simp add: databaseGroups_def doRedisCmd_def rangeMap_def overflow_of_def prog_defs)
qed

section \<open>The theorems on a concrete server\<close>

definition demo_groups_reply :: "reply goresult" where
  "demo_groups_reply = Inr (RArray [RBytes ''0'', RArray [
     RArray [RBytes ''users'', RInt 2, RInt 5], RArray [RBytes ''carts'', RInt 1, RInt 7],
     RArray [RBytes ''users'', RInt 1, RInt 4]]])"

lemma demo_groups_page:
  "group_page demo_env 0 1000 [''x''] 0 (demo_groups_reply # q) =
     Some ([(''users'', 2, 5), (''carts'', 1, 7), (''users'', 1, 4)], 0, q)"
  by (simp add: group_page_def demo_next_def demo_groups_reply_def values_or_nil_def
      int_or_zero_def group_row_def index_def string_or_empty_def int64_or_zero_def parse_int_def
      has_prefix_def is_digit_def digits_val_def digit_val_def byte_def max_int64_def min_int64_def)

lemma demo_groups_served:
  "served (group_page demo_env 0 1000 [''x'']) 0 (demo_groups_reply # q)
     [[(''users'', 2, 5), (''carts'', 1, 7), (''users'', 1, 4)]] q"
  by (rule served.last_page) (simp_all add: demo_groups_page)

theorem gatherKeyGroupMetrics_totals_witness:
  "\<exists>groups. gatherKeyGroupMetrics demo_env 0 1000 [''x''] (start_world demo_exporter [demo_groups_reply]) =
       Fine (Inr groups, start_world demo_exporter []) \<and>
     map_of groups ''users'' = Some (KeyGroup ''users'' 3 9)"
proof -
  have served: "served (group_page demo_env 0 1000 [''x'']) 0
      (net (start_world demo_exporter [demo_groups_reply]))
      [[(''users'', 2, 5), (''carts'', 1, 7), (''users'', 1, 4)]] []"
    by (simp add: demo_groups_served)
  show ?thesis
    using gatherKeyGroupMetrics_totals [OF served]
    by (auto simp: wrap64_def rows_of_def)
qed

text \<open>A server whose script always gives the reply above.\<close>

definition demo_groups_env :: "reply goresult list env" where
  "demo_groups_env = demo_env\<lparr>script_do := \<lambda>_ _ q. (demo_groups_reply, q)\<rparr>"

theorem extractKeyGroupMetrics_safe_witness:
  "extractKeyGroupMetrics demo_groups_env demo_exporter 0 1
     (start_world demo_exporter [Inr (RString ''OK'')]) \<noteq> Panic ''index out of range''"
proof -
  have "prom_checks_labels demo_groups_env"
    by (simp add: demo_groups_env_def prom_checks_labels_def demo_label_check_def)
  moreover have "script_rows_ok demo_groups_env"
    by (auto simp: script_rows_ok_def demo_groups_env_def demo_groups_reply_def
        values_or_nil_def group_row_def index_def Let_def)
  moreover have "ranges_all demo_groups_env"
    by (simp add: ranges_all_def demo_groups_env_def)
  moreover have "0 \<le> MaxDistinctKeyGroups (options demo_exporter)"
    by (simp add: demo_exporter_def demo_options_def)
  ultimately show ?thesis
    using extractKeyGroupMetrics_safe [of demo_groups_env demo_exporter 1 no_ctx] by simp
qed

theorem negative_max_panics_witness:
  "databaseGroups demo_env
     (demo_exporter\<lparr>options := demo_options\<lparr>MaxDistinctKeyGroups := - 1\<rparr>\<rparr>) 0 [''x''] 0
     (start_world demo_exporter [Inr (RString ''OK''), demo_groups_reply]) =
   Panic ''slice bounds out of range''"
proof (rule negative_max_panics)
  show "served (group_page demo_env 0
      (CheckKeysBatchSize (options (demo_exporter\<lparr>options := demo_options\<lparr>MaxDistinctKeyGroups := - 1\<rparr>\<rparr>)))
      [''x'']) 0 [demo_groups_reply]
      [[(''users'', 2, 5), (''carts'', 1, 7), (''users'', 1, 4)]] []"
    by (simp add: demo_options_def demo_groups_served)
qed (simp_all add: demo_next_def)

end
