(* ===== verification/Clients.thy ===== *)
theory Clients
  imports Metrics Demo
begin

text \<open>
  Connected clients (\<open>exporter/clients.go\<close>): the parser of a line of CLIENT LIST and the
  metrics of each client. The label names of \<open>connected_client_info\<close> depend on the fields a
  client has, but a description is made only once.
\<close>

section \<open>A line of CLIENT LIST\<close>

record ClientInfo =
  ci_Id :: string
  ci_Name :: string
  ci_User :: string
  ci_Flags :: string
  ci_Db :: string
  ci_Host :: string
  ci_Port :: string
  ci_Resp :: string
  ci_CreatedAt :: int
  ci_IdleSince :: int
  ci_Sub :: int
  ci_Psub :: int
  ci_Ssub :: int
  ci_Watch :: int
  ci_Qbuf :: int
  ci_QbufFree :: int
  ci_Obl :: int
  ci_Oll :: int
  ci_OMem :: int
  ci_TotMem :: int

definition new_client :: ClientInfo where
  "new_client = \<lparr>ci_Id = [], ci_Name = [], ci_User = [], ci_Flags = [], ci_Db = [], ci_Host = [],
     ci_Port = [], ci_Resp = [], ci_CreatedAt = 0, ci_IdleSince = 0, ci_Sub = 0, ci_Psub = 0,
     ci_Ssub = - 1, ci_Watch = - 1, ci_Qbuf = 0, ci_QbufFree = 0, ci_Obl = 0, ci_Oll = 0,
     ci_OMem = 0, ci_TotMem = 0\<rparr>"

text \<open>The regular expression \<open>^id=\\d+ addr=\\S+\<close>.\<close>

definition regexp_blank :: "char \<Rightarrow> bool" where
  "regexp_blank c \<longleftrightarrow> byte c \<in> {9, 10, 12, 13, 32}"

definition client_line :: "string \<Rightarrow> bool" where
  "client_line s \<longleftrightarrow>
     has_prefix s ''id='' \<and>
     (let d = takeWhile is_digit (drop 3 s); r = drop (length d) (drop 3 s) in
      d \<noteq> [] \<and> has_prefix r '' addr='' \<and> list_ex (\<lambda>c. \<not> regexp_blank c) (take 1 (drop 6 r)))"

definition durationFieldToTimestamp :: "'c env \<Rightarrow> string \<Rightarrow> ('c, int option) io" where
  "durationFieldToTimestamp env field =
     (case parse_int field of
        (_, Some err) \<Rightarrow> ret None
      | (parsed, None) \<Rightarrow> bnd (timeNow env) (\<lambda>now. ret (Some (wrap64 (unix_seconds now - parsed)))))"

definition client_addr :: "string \<Rightarrow> (string \<times> string) option" where
  "client_addr v =
     (let hostPort = go_split v '':'' in
      if length hostPort < 2 then None
      else Some (go_join (butlast hostPort) '':'', last hostPort))"

abbreviation int_of :: "string \<Rightarrow> int" where
  "int_of v \<equiv> fst (parse_int v)"

definition client_field ::
  "'c env \<Rightarrow> ClientInfo \<Rightarrow> string \<Rightarrow> string \<Rightarrow> ('c, ClientInfo option) io" where
  "client_field env ci k v =
     (if k = ''id'' then ret (Some (ci\<lparr>ci_Id := v\<rparr>))
      else if k = ''name'' then ret (Some (ci\<lparr>ci_Name := v\<rparr>))
      else if k = ''user'' then ret (Some (ci\<lparr>ci_User := v\<rparr>))
      else if k = ''age'' then
        bnd (durationFieldToTimestamp env v) (\<lambda>t. ret (map_option (\<lambda>t. ci\<lparr>ci_CreatedAt := t\<rparr>) t))
      else if k = ''idle'' then
        bnd (durationFieldToTimestamp env v) (\<lambda>t. ret (map_option (\<lambda>t. ci\<lparr>ci_IdleSince := t\<rparr>) t))
      else if k = ''flags'' then ret (Some (ci\<lparr>ci_Flags := v\<rparr>))
      else if k = ''db'' then ret (Some (ci\<lparr>ci_Db := v\<rparr>))
      else if k = ''sub'' then ret (Some (ci\<lparr>ci_Sub := int_of v\<rparr>))
      else if k = ''psub'' then ret (Some (ci\<lparr>ci_Psub := int_of v\<rparr>))
      else if k = ''ssub'' then ret (Some (ci\<lparr>ci_Ssub := int_of v\<rparr>))
      else if k = ''watch'' then ret (Some (ci\<lparr>ci_Watch := int_of v\<rparr>))
      else if k = ''qbuf'' then ret (Some (ci\<lparr>ci_Qbuf := int_of v\<rparr>))
      else if k = ''qbuf-free'' then ret (Some (ci\<lparr>ci_QbufFree := int_of v\<rparr>))
      else if k = ''obl'' then ret (Some (ci\<lparr>ci_Obl := int_of v\<rparr>))
      else if k = ''oll'' then ret (Some (ci\<lparr>ci_Oll := int_of v\<rparr>))
      else if k = ''omem'' then ret (Some (ci\<lparr>ci_OMem := int_of v\<rparr>))
      else if k = ''tot-mem'' then ret (Some (ci\<lparr>ci_TotMem := int_of v\<rparr>))
      else if k = ''addr'' then
        ret (map_option (\<lambda>(h, p). ci\<lparr>ci_Host := h, ci_Port := p\<rparr>) (client_addr v))
      else if k = ''resp'' then ret (Some (ci\<lparr>ci_Resp := v\<rparr>))
      else ret (Some ci))"

text \<open>The loop over the parts of the line; \<open>None\<close> once the line has been given up.\<close>

definition client_part ::
  "'c env \<Rightarrow> ClientInfo option \<Rightarrow> string \<Rightarrow> ('c, ClientInfo option) io" where
  "client_part env st kvPart =
     (case st of
        None \<Rightarrow> ret None
      | Some ci \<Rightarrow> (case go_split kvPart ''='' of [k, v] \<Rightarrow> client_field env ci k v | _ \<Rightarrow> ret None))"

definition parseClientListString :: "'c env \<Rightarrow> string \<Rightarrow> ('c, ClientInfo option) io" where
  "parseClientListString env clientInfo =
     (if \<not> client_line clientInfo then ret None
      else for_fold (client_part env) (Some new_client) (go_split clientInfo '' ''))"

section \<open>The metrics of a client\<close>

text \<open>The optional labels are appended in this order: port, user, resp.\<close>

definition clientInfoLabels :: "Exporter \<Rightarrow> ClientInfo \<Rightarrow> (string \<times> string) list" where
  "clientInfoLabels e info =
     [(''id'', ci_Id info), (''name'', ci_Name info), (''flags'', ci_Flags info), (''db'', ci_Db info),
      (''host'', ci_Host info)] @
     (if ExportClientsInclPort (options e) then [(''port'', ci_Port info)] else []) @
     (if ci_User info \<noteq> [] then [(''user'', ci_User info)] else []) @
     (if ci_Resp info \<noteq> [] then [(''resp'', ci_Resp info)] else [])"

definition registerClientInfo :: "'c env \<Rightarrow> Exporter \<Rightarrow> ClientInfo \<Rightarrow> ('c, unit) io" where
  "registerClientInfo env e info =
     andthen (describe e ''connected_client_info'' (map fst (clientInfoLabels e info)))
       (registerConstMetricGauge env e ''connected_client_info'' (f64_of_int 1)
          (map snd (clientInfoLabels e info)))"

definition client_gauges :: "ClientInfo \<Rightarrow> (string \<times> int) list" where
  "client_gauges info =
     [(''connected_client_output_buffer_memory_usage_bytes'', ci_OMem info),
      (''connected_client_total_memory_consumed_bytes'', ci_TotMem info),
      (''connected_client_created_at_timestamp'', ci_CreatedAt info),
      (''connected_client_idle_since_timestamp'', ci_IdleSince info),
      (''connected_client_channel_subscriptions_count'', ci_Sub info),
      (''connected_client_pattern_matching_subscriptions_count'', ci_Psub info),
      (''connected_client_query_buffer_length_bytes'', ci_Qbuf info),
      (''connected_client_query_buffer_free_space_bytes'', ci_QbufFree info),
      (''connected_client_output_buffer_length_bytes'', ci_Obl info),
      (''connected_client_output_list_length'', ci_Oll info)]"

definition registerOptionalClientGauge ::
  "'c env \<Rightarrow> Exporter \<Rightarrow> string list \<Rightarrow> string \<Rightarrow> int \<Rightarrow> ('c, unit) io" where
  "registerOptionalClientGauge env e labels metric n =
     only_if (n \<noteq> - 1)
       (andthen (describe e metric [''id'', ''name''])
         (registerConstMetricGauge env e metric (f64_of_int n) labels))"

definition registerClient :: "'c env \<Rightarrow> Exporter \<Rightarrow> ClientInfo \<Rightarrow> ('c, unit) io" where
  "registerClient env e info =
     (let labels = [ci_Id info, ci_Name info] in
      block
        [registerClientInfo env e info,
         andthen
           (for_each (\<lambda>metric. describe e metric [''id'', ''name'']) (map fst (client_gauges info)))
           (for_each (\<lambda>(metric, n). registerConstMetricGauge env e metric (f64_of_int n) labels)
              (client_gauges info)),
         registerOptionalClientGauge env e labels
           ''connected_client_shard_channel_subscriptions_count'' (ci_Ssub info),
         registerOptionalClientGauge env e labels
           ''connected_client_shard_channel_watched_keys'' (ci_Watch info)])"

definition parseConnectedClientMetrics :: "'c env \<Rightarrow> Exporter \<Rightarrow> string \<Rightarrow> ('c, unit) io" where
  "parseConnectedClientMetrics env e input =
     for_each (\<lambda>s. bnd (parseClientListString env s) (\<lambda>r. case r of
         None \<Rightarrow> skip
       | Some info \<Rightarrow> registerClient env e info)) (go_split input [CHR 0x0A])"

definition extractConnectedClientMetrics :: "'c env \<Rightarrow> Exporter \<Rightarrow> conn \<Rightarrow> ('c, unit) io" where
  "extractConnectedClientMetrics env e c =
     bnd (doRedisCmd env c [AStr ''CLIENT'', AStr ''LIST'']) (\<lambda>r. case redis_String env r of
         Inl err \<Rightarrow> skip
       | Inr reply \<Rightarrow> parseConnectedClientMetrics env e reply)"

section \<open>Facts about addresses\<close>

text \<open>an address is split at its last colon, so IPv6 addresses keep theirs.\<close>

theorem client_addr_last_colon:
  assumes "CHR '':'' \<notin> set port"
  shows "client_addr (host @ CHR '':'' # port) = Some (host, port)"
proof -
  have "go_split (host @ CHR '':'' # port) '':'' = go_split host '':'' @ [port]"
  proof (induction host)
    case Nil
    then show ?case using assms by (simp add: split_none)
  next
    case (Cons x host)
    then show ?case by (auto split: list.splits)
  qed
  moreover have "go_join (go_split host '':'') '':'' = host" by (rule join_split) simp
  moreover have "0 < length (go_split host '':'')" by simp
  ultimately show ?thesis unfolding client_addr_def Let_def by (simp del: length_go_split_pos)
qed

theorem client_addr_last_colon_witness:
  "client_addr ''fd40:1481:21:dbe0:7021:300:a03:1a06:44426'' =
     Some (''fd40:1481:21:dbe0:7021:300:a03:1a06'', ''44426'')"
  using client_addr_last_colon [of "''44426''" "''fd40:1481:21:dbe0:7021:300:a03:1a06''"] by simp

section \<open>Safety and the shared description\<close>

lemma keeps_parseClientListString [hoare_rules]: "keeps (inv e N) (parseClientListString env s)"
  unfolding parseClientListString_def client_part_def client_field_def durationFieldToTimestamp_def
  by (intro hoare_rules)

lemma keeps_registerClientInfo [hoare_rules]:
  "prom_checks_labels env \<Longrightarrow> keeps (inv e N) (registerClientInfo env e info)"
  unfolding registerClientInfo_def by (intro keeps_after_describe keeps_gauge) simp_all

lemma keeps_registerOptional [hoare_rules]:
  "prom_checks_labels env \<Longrightarrow> keeps (inv e N) (registerOptionalClientGauge env e ls m n)"
  unfolding registerOptionalClientGauge_def
  by (intro keeps_only_if keeps_after_describe keeps_gauge) simp_all

lemma keeps_registerClient [hoare_rules]:
  assumes "prom_checks_labels env"
  shows "keeps (inv e N) (registerClient env e info)"
proof -
  let ?N = "N\<lparr>named := fst ` set (client_gauges info) \<union> named N\<rparr>"
  have "has_desc ?N m" if "(m, n) \<in> set (client_gauges info)" for m n
    using that by (force simp: has_desc_def)
  then have "keeps (inv e ?N)
      (for_each (\<lambda>(metric, n). registerConstMetricGauge env e metric (f64_of_int n) [ci_Id info, ci_Name info])
        (client_gauges info))"
    using assms by (intro keeps_for_each) (auto intro!: keeps_gauge)
  then have gauges: "keeps (inv e N) (andthen
      (for_each (\<lambda>metric. describe e metric [''id'', ''name'']) (map fst (client_gauges info)))
      (for_each (\<lambda>(metric, n). registerConstMetricGauge env e metric (f64_of_int n) [ci_Id info, ci_Name info])
        (client_gauges info)))"
    by (intro holds_andthen [OF holds_describe_all]) (erule holds_pre [OF holds_post], auto intro: inv_weaken)
  with assms show ?thesis
    unfolding registerClient_def Let_def
    by (intro keeps_block) (auto intro: keeps_registerClientInfo keeps_registerOptional)
qed

lemma keeps_clients [hoare_rules]:
  "prom_checks_labels env \<Longrightarrow> keeps (inv e N) (extractConnectedClientMetrics env e c)"
  unfolding extractConnectedClientMetrics_def parseConnectedClientMetrics_def
  by (intro hoare_rules)

lemma finishes_clients [finish_rules]: "finishes (extractConnectedClientMetrics env e c)"
  unfolding extractConnectedClientMetrics_def parseConnectedClientMetrics_def registerClient_def
    registerClientInfo_def registerOptionalClientGauge_def parseClientListString_def client_part_def
    client_field_def durationFieldToTimestamp_def Let_def
  by (intro finish_rules)

text \<open>the description of \<open>connected_client_info\<close> is made for the first client; a later client
  with another number of optional fields (no user, no resp) is left out of that metric without
  any trace.\<close>

theorem client_with_other_fields_dropped:
  assumes "prom_checks_labels env" and "descs w ''connected_client_info'' = Some d"
    and "length (desc_labels d) \<noteq> length (clientInfoLabels e info)"
  shows "registerClientInfo env e info w = Fine ((), w)"
proof -
  have "const_metric_err env d GaugeValue (f64_of_int 1) (map snd (clientInfoLabels e info)) \<noteq> None"
    using assms(1,3) by (fastforce simp: prom_checks_labels_def)
  moreover have "clientInfoLabels e info \<noteq> []" by (simp add: clientInfoLabels_def)
  ultimately show ?thesis
    using assms(2)
    by (auto simp: registerClientInfo_def describe_def createMetricDescription_def registerConstMetricGauge_def
        registerConstMetric_def mustFindMetricDescription_def prog_defs)
qed

definition demo_client :: ClientInfo where
  "demo_client = new_client\<lparr>ci_Id := ''7'', ci_Host := ''10.0.0.2''\<rparr>"

theorem client_with_other_fields_dropped_witness:
  "\<exists>d w. createMetricDescription demo_exporter ''connected_client_info''
        (map fst (clientInfoLabels demo_exporter (demo_client\<lparr>ci_User := ''default''\<rparr>)))
        (start_world demo_exporter []) = Fine (d, w) \<and>
     registerClientInfo demo_env demo_exporter demo_client w = Fine ((), w)"
proof -
  let ?ls = "map fst (clientInfoLabels demo_exporter (demo_client\<lparr>ci_User := ''default''\<rparr>))"
  have none: "initial_descs demo_exporter ''connected_client_info'' = None"
    by (rule initial_descs_None) code_simp
  obtain d w where w: "createMetricDescription demo_exporter ''connected_client_info'' ?ls
      (start_world demo_exporter ([] :: reply goresult list)) = Fine (d, w)" "descs w ''connected_client_info'' = Some d"
    "desc_labels d = ?ls"
    using none by (auto simp: createMetricDescription_def newMetricDescr_def Let_def)
  have "length ?ls \<noteq> length (clientInfoLabels demo_exporter demo_client)"
    by (simp add: clientInfoLabels_def demo_client_def new_client_def demo_exporter_def demo_options_def)
  then have "registerClientInfo demo_env demo_exporter demo_client w = Fine ((), w)"
    using w by (intro client_with_other_fields_dropped [where d = d]) simp_all
  with w(1) show ?thesis by blast
qed

end
