(* ===== verification/Sentinels.thy ===== *)
theory Sentinels
  imports Ranges Demo
begin

text \<open>
  Redis Sentinel (\<open>exporter/sentinels.go\<close>): the sentinel section of INFO, the masters with their
  quorum check and settings, the sentinels and replicas that are not down, and the sentinel
  configuration.
\<close>

section \<open>The sentinel section of INFO\<close>

text \<open>The regular expression \<open>^master\\d+\<close>, and the pairs of a \<open>k=v,k=v\<close> value, where a part
  with another shape is skipped.\<close>

definition numbered :: "string \<Rightarrow> string \<Rightarrow> bool" where
  "numbered p s \<longleftrightarrow> has_prefix s p \<and> list_ex is_digit (take 1 (drop (length p) s))"

definition sentinel_pairs :: "string \<Rightarrow> (string \<times> string) list" where
  "sentinel_pairs masterInfo =
     foldl (\<lambda>m kvPart. case go_split kvPart ''='' of [k, v] \<Rightarrow> put k v m | _ \<Rightarrow> m) []
       (go_split masterInfo '','')"

definition parseSentinelMasterString ::
  "string \<Rightarrow> string \<Rightarrow> (string \<times> string \<times> string \<times> f64 \<times> f64) option" where
  "parseSentinelMasterString master masterInfo =
     (if \<not> numbered ''master'' master then None
      else
        let matched = sentinel_pairs masterInfo
        in case parse_float (get_or [] matched ''slaves'') of
             (_, Some err) \<Rightarrow> None
           | (masterSlaves, None) \<Rightarrow>
               (case parse_float (get_or [] matched ''sentinels'') of
                  (_, Some err) \<Rightarrow> None
                | (masterSentinels, None) \<Rightarrow>
                    Some (get_or [] matched ''name'', get_or [] matched ''status'',
                          get_or [] matched ''address'', masterSlaves, masterSentinels)))"

definition sentinel_numbers :: "string list" where
  "sentinel_numbers =
     [''sentinel_masters'', ''sentinel_tilt'', ''sentinel_running_scripts'',
      ''sentinel_scripts_queue_length'', ''sentinel_simulate_failure_flags'']"

definition handleMetricsSentinel ::
  "'c env \<Rightarrow> Exporter \<Rightarrow> string \<Rightarrow> string \<Rightarrow> ('c, unit) io" where
  "handleMetricsSentinel env e fieldKey fieldValue =
     (if fieldKey \<in> set sentinel_numbers then
        registerConstMetricGauge env e fieldKey (f64_of_int (fst (atoi fieldValue))) []
      else case parseSentinelMasterString fieldKey fieldValue of
          None \<Rightarrow> skip
        | Some (masterName, masterStatus, masterAddress, masterSlaves, masterSentinels) \<Rightarrow>
            block
              [registerConstMetricGauge env e ''sentinel_master_status''
                 (f64_of_int (if masterStatus = ''ok'' then 1 else 0))
                 [masterName, masterAddress, masterStatus],
               registerConstMetricGauge env e ''sentinel_master_slaves'' masterSlaves
                 [masterName, masterAddress],
               registerConstMetricGauge env e ''sentinel_master_sentinels'' masterSentinels
                 [masterName, masterAddress]])"

section \<open>Sentinels and replicas that are up\<close>

definition counts_as_ok :: "'c env \<Rightarrow> reply \<Rightarrow> bool" where
  "counts_as_ok env detail =
     (case redis_StringMap env (Inr detail) of
        Inl err \<Rightarrow> False
      | Inr detailMap \<Rightarrow>
          (case map_of detailMap ''flags'' of
             None \<Rightarrow> False
           | Some flags \<Rightarrow> \<not> go_contains flags ''o_down'' \<and> \<not> go_contains flags ''s_down''))"

definition processSentinelSentinels ::
  "'c env \<Rightarrow> Exporter \<Rightarrow> reply list \<Rightarrow> string list \<Rightarrow> ('c, unit) io" where
  "processSentinelSentinels env e sentinelDetails labels =
     registerConstMetricGauge env e ''sentinel_master_ok_sentinels''
       (f64_of_int (foldl (\<lambda>n d. if counts_as_ok env d then n + 1 else n) 1 sentinelDetails)) labels"

definition processSentinelSlaves ::
  "'c env \<Rightarrow> Exporter \<Rightarrow> reply list \<Rightarrow> string list \<Rightarrow> ('c, unit) io" where
  "processSentinelSlaves env e slaveDetails labels =
     registerConstMetricGauge env e ''sentinel_master_ok_slaves''
       (f64_of_int (foldl (\<lambda>n d. if counts_as_ok env d then n + 1 else n) 0 slaveDetails)) labels"

section \<open>Masters\<close>

definition float_setting :: "(string \<times> string) list \<Rightarrow> string \<Rightarrow> f64" where
  "float_setting m k = fst (parse_float (get_or [] m k))"

text \<open>One master: nothing is exported without a name, an address and a port.\<close>

definition sentinelMaster :: "'c env \<Rightarrow> Exporter \<Rightarrow> conn \<Rightarrow> reply \<Rightarrow> ('c, unit) io" where
  "sentinelMaster env e c masterDetail =
     (case redis_StringMap env (Inr masterDetail) of
        Inl err \<Rightarrow> skip
      | Inr m \<Rightarrow>
          (case (map_of m ''name'', map_of m ''ip'', map_of m ''port'') of
             (Some masterName, Some masterIp, Some masterPort) \<Rightarrow>
               let masterAddr = masterIp @ '':'' @ masterPort in
               bnd (doRedisCmd env c [AStr ''SENTINEL'', AStr ''CKQUORUM'', AStr masterName]) (\<lambda>q.
               andthen
                 (case redis_String env q of
                    Inr msg \<Rightarrow>
                      registerConstMetricGauge env e ''sentinel_master_ckquorum_status''
                        (f64_of_int 1) [masterName, msg]
                  | Inl err \<Rightarrow>
                      registerConstMetricGauge env e ''sentinel_master_ckquorum_status''
                        (f64_of_int 0) [masterName, err])
               (andthen
                 (block
                   [registerConstMetricGauge env e ''sentinel_master_setting_ckquorum''
                      (float_setting m ''quorum'') [masterName, masterAddr],
                    registerConstMetricGauge env e ''sentinel_master_setting_failover_timeout''
                      (float_setting m ''failover-timeout'') [masterName, masterAddr],
                    registerConstMetricGauge env e ''sentinel_master_setting_parallel_syncs''
                      (float_setting m ''parallel-syncs'') [masterName, masterAddr],
                    registerConstMetricGauge env e ''sentinel_master_setting_down_after_milliseconds''
                      (float_setting m ''down-after-milliseconds'') [masterName, masterAddr]])
               (bnd (doRedisCmd env c [AStr ''SENTINEL'', AStr ''SENTINELS'', AStr masterName]) (\<lambda>s.
                  andthen
                    (processSentinelSentinels env e
                       (case redis_Values env s of Inl _ \<Rightarrow> [] | Inr ds \<Rightarrow> ds) [masterName, masterAddr])
               (bnd (doRedisCmd env c [AStr ''SENTINEL'', AStr ''SLAVES'', AStr masterName]) (\<lambda>s.
                  processSentinelSlaves env e
                    (case redis_Values env s of Inl _ \<Rightarrow> [] | Inr ds \<Rightarrow> ds)
                    [masterName, masterAddr]))))))
           | _ \<Rightarrow> skip))"

definition extractSentinelMetrics :: "'c env \<Rightarrow> Exporter \<Rightarrow> conn \<Rightarrow> ('c, unit) io" where
  "extractSentinelMetrics env e c =
     bnd (doRedisCmd env c [AStr ''SENTINEL'', AStr ''MASTERS'']) (\<lambda>r. case redis_Values env r of
         Inl err \<Rightarrow> skip
       | Inr masterDetails \<Rightarrow> for_each (sentinelMaster env e c) masterDetails)"

section \<open>Configuration\<close>

text \<open>The entries of a flat list of names and values.\<close>

fun reply_pairs :: "reply list \<Rightarrow> (reply \<times> reply) list" where
  "reply_pairs (k # v # rs) = (k, v) # reply_pairs rs"
| "reply_pairs _ = []"

definition sentinelConfigEntry :: "'c env \<Rightarrow> Exporter \<Rightarrow> reply \<times> reply \<Rightarrow> ('c, unit) io" where
  "sentinelConfigEntry env e kv =
     (case redis_String env (Inr (fst kv)) of
        Inl err \<Rightarrow> skip
      | Inr strKey \<Rightarrow>
          (case redis_String env (Inr (snd kv)) of
             Inl err \<Rightarrow> skip
           | Inr strVal \<Rightarrow>
               andthen
                 (registerConstMetricGauge env e ''sentinel_config_key_value'' (f64_of_int 1)
                    [strKey, strVal])
                 (case parse_float strVal of
                    (val, None) \<Rightarrow> registerConstMetricGauge env e ''sentinel_config_value'' val [strKey]
                  | (_, Some err) \<Rightarrow> skip)))"

definition extractSentinelConfig :: "'c env \<Rightarrow> Exporter \<Rightarrow> conn \<Rightarrow> ('c, unit) io" where
  "extractSentinelConfig env e c =
     (if \<not> InclConfigMetrics (options e) then skip
      else
        bnd (doRedisCmd env c [AStr ''SENTINEL'', AStr ''config'', AStr ''get'', AStr ''*'']) (\<lambda>r.
          case redis_Values env r of
            Inl err \<Rightarrow> skip
          | Inr sentinelConfig \<Rightarrow>
              if length sentinelConfig mod 2 \<noteq> 0 then skip
              else for_each (sentinelConfigEntry env e) (reply_pairs sentinelConfig)))"

section \<open>Facts\<close>

lemma foldl_count: "foldl (\<lambda>n d. if P d then n + 1 else n) (k :: int) ds = k + int (length (filter P ds))"
  by (induction ds arbitrary: k) simp_all

text \<open>the number of sentinels reported as fine is one (the sentinel asked) plus the number of
  the others whose flags have neither \<open>o_down\<close> nor \<open>s_down\<close>; for the replicas it is that number.\<close>

theorem ok_sentinels_counted:
  "processSentinelSentinels env e ds labels =
     registerConstMetricGauge env e ''sentinel_master_ok_sentinels''
       (f64_of_int (1 + int (length (filter (counts_as_ok env) ds)))) labels \<and>
   processSentinelSlaves env e ds labels =
     registerConstMetricGauge env e ''sentinel_master_ok_slaves''
       (f64_of_int (int (length (filter (counts_as_ok env) ds)))) labels"
  by (simp add: processSentinelSentinels_def processSentinelSlaves_def foldl_count)

lemma keeps_handleMetricsSentinel [hoare_rules]:
  "prom_checks_labels env \<Longrightarrow> keeps (inv e N) (handleMetricsSentinel env e k v)"
  unfolding handleMetricsSentinel_def
  by (intro hoare_rules) (auto intro!: hoare_rules split: prod.splits)

lemma keeps_sentinelMaster [hoare_rules]:
  "prom_checks_labels env \<Longrightarrow> keeps (inv e N) (sentinelMaster env e c d)"
  unfolding sentinelMaster_def processSentinelSentinels_def processSentinelSlaves_def Let_def
  by (intro hoare_rules) (auto intro!: hoare_rules)

lemma keeps_extractSentinelMetrics [hoare_rules]:
  "prom_checks_labels env \<Longrightarrow> keeps (inv e N) (extractSentinelMetrics env e c)"
  unfolding extractSentinelMetrics_def by (intro hoare_rules)

lemma keeps_extractSentinelConfig [hoare_rules]:
  "prom_checks_labels env \<Longrightarrow> keeps (inv e N) (extractSentinelConfig env e c)"
  unfolding extractSentinelConfig_def sentinelConfigEntry_def
  by (intro hoare_rules) (auto intro!: hoare_rules)

lemma finishes_sentinels [finish_rules]:
  "finishes (handleMetricsSentinel env e k v)" "finishes (extractSentinelMetrics env e c)"
  "finishes (extractSentinelConfig env e c)"
  unfolding handleMetricsSentinel_def extractSentinelMetrics_def sentinelMaster_def
    extractSentinelConfig_def sentinelConfigEntry_def processSentinelSentinels_def
    processSentinelSlaves_def Let_def
  by (intro finish_rules)+

end
