(* ===== verification/Info.thy ===== *)
theory Info
  imports Sentinels
begin

text \<open>
  The INFO reply (\<open>exporter/info.go\<close>): its line-by-line state machine (the section header sets
  the class of the fields below it), the parsers of the structured fields, the latency
  summaries made from two sections, the metrics of databases INFO does not mention, and the
  instance information.
\<close>

section \<open>Field values\<close>

definition extractVal :: "string \<Rightarrow> f64 option" where
  "extractVal s =
     (case go_split s ''='' of
        [_, v] \<Rightarrow> (case parse_float v of (val, None) \<Rightarrow> Some val | (_, Some err) \<Rightarrow> None)
      | _ \<Rightarrow> None)"

text \<open>The percentile, the value and the error; \<open>None\<close> when the slice \<open>split[0][1:]\<close> of an empty
  string panics. Without exactly one equals sign all results are zero, the error included.\<close>

definition extractPercentileVal :: "string \<Rightarrow> (f64 \<times> f64 \<times> num_error option) option" where
  "extractPercentileVal s =
     (case go_split s ''='' of
        [k, v] \<Rightarrow>
          if k = [] then None
          else
            (case parse_float (tl k) of
               (percentile, Some err) \<Rightarrow> Some (percentile, f64_zero, Some err)
             | (percentile, None) \<Rightarrow> (case parse_float v of (val, err) \<Rightarrow> Some (percentile, val, err)))
      | _ \<Rightarrow> Some (f64_zero, f64_zero, None))"

text \<open>The regular expressions of the replication section.\<close>

definition master_field :: "string \<Rightarrow> string \<Rightarrow> bool" where
  "master_field suffix s \<longleftrightarrow>
     has_prefix s ''master'' \<and>
     (let r = drop 6 s in
      has_prefix r suffix \<or>
      (has_prefix r ''_'' \<and>
       (let d = takeWhile is_digit (tl r) in d \<noteq> [] \<and> has_prefix (drop (length d) (tl r)) suffix)))"

abbreviation reMasterHost :: "string \<Rightarrow> bool" where "reMasterHost \<equiv> master_field ''_host''"
abbreviation reMasterPort :: "string \<Rightarrow> bool" where "reMasterPort \<equiv> master_field ''_port''"
abbreviation reMasterLinkStatus :: "string \<Rightarrow> bool" where
  "reMasterLinkStatus \<equiv> master_field ''_link_status''"

definition reMasterDirect :: "string \<Rightarrow> bool" where
  "reMasterDirect s \<longleftrightarrow>
     master_field ''_last_io_seconds_ago'' s \<or> master_field ''_sync_in_progress'' s \<or>
     has_prefix s ''slave_repl_offset''"

definition parseDBKeyspaceString :: "string \<Rightarrow> string \<Rightarrow> (f64 \<times> f64 \<times> f64 \<times> f64) option" where
  "parseDBKeyspaceString inputKey inputVal =
     (if \<not> has_prefix inputKey ''db'' then None
      else
        let split = go_split inputVal '','' in
        if length split < 2 \<or> length split > 4 then None
        else
          (case (extractVal (split ! 0), extractVal (split ! 1)) of
             (Some keysTotal, Some keysExpiringTotal) \<Rightarrow>
               (case (if length split > 2
                      then map_option (\<lambda>v. f64_div v (f64_of_int 1000)) (extractVal (split ! 2))
                      else Some (f64_of_int (- 1))) of
                  None \<Rightarrow> None
                | Some avgTTL \<Rightarrow>
                    (case (if length split > 3 then extractVal (split ! 3) else Some (f64_of_int (- 1))) of
                       None \<Rightarrow> None
                     | Some keysCachedTotal \<Rightarrow>
                         Some (keysTotal, keysExpiringTotal, avgTTL, keysCachedTotal)))
           | _ \<Rightarrow> None))"

text \<open>The pairs of \<open>k=v,k=v\<close>; \<open>None\<close> when a part has another shape.\<close>

fun pairs_into :: "(string \<times> string) list \<Rightarrow> string list \<Rightarrow> (string \<times> string) list option" where
  "pairs_into m [] = Some m"
| "pairs_into m (kvPart # parts) =
     (case go_split kvPart ''='' of [k, v] \<Rightarrow> pairs_into (put k v m) parts | _ \<Rightarrow> None)"

definition parseConnectedSlaveString ::
  "string \<Rightarrow> string \<Rightarrow> (f64 \<times> string \<times> string \<times> string \<times> f64) option" where
  "parseConnectedSlaveString slaveName keyValues =
     (if \<not> numbered ''slave'' slaveName then None
      else case pairs_into [] (go_split keyValues '','') of
          None \<Rightarrow> None
        | Some m \<Rightarrow>
            (case parse_float (get_or [] m ''offset'') of
               (_, Some err) \<Rightarrow> None
             | (offset, None) \<Rightarrow>
                 (case (case map_of m ''lag'' of
                          None \<Rightarrow> (f64_of_int (- 1), None)
                        | Some lagStr \<Rightarrow> parse_float lagStr) of
                    (_, Some err) \<Rightarrow> None
                  | (lag, None) \<Rightarrow>
                      Some (offset, get_or [] m ''ip'', get_or [] m ''port'', get_or [] m ''state'', lag))))"

text \<open>Command statistics: the results a caller sees, also with an error: what was parsed up to
  there. The last component says whether there was an error.\<close>

record command_stats =
  cs_cmd :: string
  cs_calls :: f64
  cs_rejected :: f64
  cs_failed :: f64
  cs_usec :: f64
  cs_extended :: bool
  cs_error :: bool

definition no_stats :: "string \<Rightarrow> command_stats" where
  "no_stats cmd = \<lparr>cs_cmd = cmd, cs_calls = f64_zero, cs_rejected = f64_zero, cs_failed = f64_zero,
     cs_usec = f64_zero, cs_extended = False, cs_error = True\<rparr>"

definition parseMetricsCommandStats :: "string \<Rightarrow> string \<Rightarrow> command_stats" where
  "parseMetricsCommandStats fieldKey fieldValue =
     (if \<not> has_prefix fieldKey ''cmdstat_'' then no_stats []
      else
        let cmd = trim_prefix fieldKey ''cmdstat_'';
            splitValue = go_split fieldValue '',''
        in if length splitValue < 3 then no_stats cmd
           else case extractVal (splitValue ! 0) of
               None \<Rightarrow> no_stats cmd
             | Some calls \<Rightarrow>
                 (case extractVal (splitValue ! 1) of
                    None \<Rightarrow> (no_stats cmd)\<lparr>cs_calls := calls\<rparr>
                  | Some usecTotal \<Rightarrow>
                      let stats = (no_stats cmd)\<lparr>cs_calls := calls, cs_usec := usecTotal\<rparr> in
                      if length splitValue < 5 then stats\<lparr>cs_error := False\<rparr>
                      else case extractVal (splitValue ! 3) of
                          None \<Rightarrow> stats
                        | Some rejected \<Rightarrow>
                            (case extractVal (splitValue ! 4) of
                               None \<Rightarrow> stats\<lparr>cs_rejected := rejected\<rparr>
                             | Some failed \<Rightarrow>
                                 stats\<lparr>cs_rejected := rejected, cs_failed := failed,
                                       cs_extended := True, cs_error := False\<rparr>)))"

text \<open>A Go map with float keys: an assignment to an equal key replaces the entry; no key equals
  NaN.\<close>

fun put_float :: "f64 \<Rightarrow> 'v \<Rightarrow> (f64 \<times> 'v) list \<Rightarrow> (f64 \<times> 'v) list" where
  "put_float k v [] = [(k, v)]"
| "put_float k v ((k', v') # m) =
     (if f64_eq k k' then (k, v) # m else (k', v') # put_float k v m)"

text \<open>The pairs of a latency field: \<open>None\<close> for a panic.\<close>

fun latency_pairs ::
  "nat \<Rightarrow> (f64 \<times> f64) list \<Rightarrow> string list \<Rightarrow> (f64 \<times> f64) list goresult option" where
  "latency_pairs pos m [] = Some (Inr m)"
| "latency_pairs pos m (kv # kvs) =
     (case extractPercentileVal kv of
        None \<Rightarrow> None
      | Some (percentile, val, Some err) \<Rightarrow>
          Some (Inl (''invalid splitValue['' @ itoa (int pos) @ '']''))
      | Some (percentile, val, None) \<Rightarrow> latency_pairs (Suc pos) (put_float percentile val m) kvs)"

definition parseMetricsLatencyStats ::
  "string \<Rightarrow> string \<Rightarrow> (string \<times> (f64 \<times> f64) list) goresult option" where
  "parseMetricsLatencyStats fieldKey fieldValue =
     (if \<not> has_prefix fieldKey ''latency_percentiles_usec_'' then Some (Inl ''invalid fieldKey'')
      else
        map_option (map_sum id (\<lambda>m. (trim_prefix fieldKey ''latency_percentiles_usec_'', m)))
          (latency_pairs 0 [] (go_split fieldValue '','')))"

definition parseMetricsErrorStats :: "string \<Rightarrow> string \<Rightarrow> (string \<times> f64) goresult" where
  "parseMetricsErrorStats fieldKey fieldValue =
     (if \<not> has_prefix fieldKey ''errorstat_''
      then Inl ''invalid fieldKey. errorstat_ prefix not present''
      else case extractVal fieldValue of
          None \<Rightarrow> Inl ''invalid error type on splitValue[0]''
        | Some cnt \<Rightarrow> Inr (trim_prefix fieldKey ''errorstat_'', cnt))"

section \<open>Handlers of the sections\<close>

text \<open>The metric a directly exported replication field goes to.\<close>

definition direct_metric :: "string \<Rightarrow> string" where
  "direct_metric fieldKey =
     (if has_suffix fieldKey ''last_io_seconds_ago'' then ''master_last_io_seconds_ago''
      else if has_suffix fieldKey ''sync_in_progress'' then ''master_sync_in_progress''
      else fieldKey)"

definition handleMetricsReplication ::
  "'c env \<Rightarrow> Exporter \<Rightarrow> string \<Rightarrow> string \<Rightarrow> string \<Rightarrow> string \<Rightarrow> ('c, bool) io" where
  "handleMetricsReplication env e masterHost masterPort fieldKey fieldValue =
     (if reMasterLinkStatus fieldKey then
        andthen
          (registerConstMetricGauge env e ''master_link_up''
             (f64_of_int (if fieldValue = ''up'' then 1 else 0)) [masterHost, masterPort])
          (ret True)
      else if reMasterDirect fieldKey then
        andthen
          (registerConstMetricGauge env e (direct_metric fieldKey)
             (f64_of_int (fst (atoi fieldValue))) [masterHost, masterPort])
          (ret True)
      else case parseConnectedSlaveString fieldKey fieldValue of
          None \<Rightarrow> ret False
        | Some (slaveOffset, slaveIP, slavePort, slaveState, slaveLag) \<Rightarrow>
            andthen
              (registerConstMetricGauge env e ''connected_slave_offset_bytes'' slaveOffset
                 [slaveIP, slavePort, slaveState])
              (andthen
                (only_if (f64_less (f64_of_int (- 1)) slaveLag)
                  (registerConstMetricGauge env e ''connected_slave_lag_seconds'' slaveLag
                     [slaveIP, slavePort, slaveState]))
                (ret True)))"

definition registerIntGauge ::
  "'c env \<Rightarrow> Exporter \<Rightarrow> string \<Rightarrow> string \<Rightarrow> ('c, unit) io" where
  "registerIntGauge env e metric fieldValue =
     (case parse_int fieldValue of
        (n, None) \<Rightarrow> registerConstMetricGauge env e metric (f64_of_int n) []
      | (_, Some err) \<Rightarrow> skip)"

definition handleMetricsServer :: "'c env \<Rightarrow> Exporter \<Rightarrow> string \<Rightarrow> string \<Rightarrow> ('c, unit) io" where
  "handleMetricsServer env e fieldKey fieldValue =
     block
       [only_if (fieldKey = ''uptime_in_seconds'')
          (case parse_float fieldValue of
             (uptime, None) \<Rightarrow>
               bnd (timeNow env) (\<lambda>now.
                 registerConstMetricGauge env e ''start_time_seconds''
                   (f64_sub (f64_of_int (unix_seconds now)) uptime) [])
           | (_, Some err) \<Rightarrow> skip),
        only_if (fieldKey = ''configured_hz'') (registerIntGauge env e ''configured_hz'' fieldValue),
        only_if (fieldKey = ''hz'') (registerIntGauge env e ''hz'' fieldValue)]"

definition registerCounter ::
  "'c env \<Rightarrow> Exporter \<Rightarrow> string \<Rightarrow> f64 \<Rightarrow> string list \<Rightarrow> ('c, unit) io" where
  "registerCounter env e metric val labels = registerConstMetric env e metric val CounterValue labels"

definition handleMetricsCommandStats ::
  "'c env \<Rightarrow> Exporter \<Rightarrow> string \<Rightarrow> string \<Rightarrow> ('c, string \<times> f64 \<times> f64) io" where
  "handleMetricsCommandStats env e fieldKey fieldValue =
     (let st = parseMetricsCommandStats fieldKey fieldValue;
          result = (cs_cmd st, cs_calls st, cs_usec st)
      in if cs_error st then ret result
         else
           andthen
             (block
               [describe e ''commands_total'' [''cmd''],
                describe e ''commands_duration_seconds_total'' [''cmd''],
                registerCounter env e ''commands_total'' (cs_calls st) [cs_cmd st],
                registerCounter env e ''commands_duration_seconds_total''
                  (f64_div (cs_usec st) (f64_of_int 1000000)) [cs_cmd st],
                only_if (cs_extended st)
                  (block
                    [describe e ''commands_rejected_calls_total'' [''cmd''],
                     describe e ''commands_failed_calls_total'' [''cmd''],
                     registerCounter env e ''commands_rejected_calls_total'' (cs_rejected st) [cs_cmd st],
                     registerCounter env e ''commands_failed_calls_total'' (cs_failed st) [cs_cmd st]])])
             (ret result))"

definition handleMetricsLatencyStats ::
  "string \<Rightarrow> string \<Rightarrow> (string \<times> (f64 \<times> f64) list) list
   \<Rightarrow> ('c, (string \<times> (f64 \<times> f64) list) list) io" where
  "handleMetricsLatencyStats fieldKey fieldValue cmdLatencyMap =
     (case parseMetricsLatencyStats fieldKey fieldValue of
        None \<Rightarrow> panic ''slice bounds out of range''
      | Some (Inl err) \<Rightarrow> ret cmdLatencyMap
      | Some (Inr (cmd, latencyMap)) \<Rightarrow> ret (put cmd latencyMap cmdLatencyMap))"

definition handleMetricsErrorStats :: "'c env \<Rightarrow> Exporter \<Rightarrow> string \<Rightarrow> string \<Rightarrow> ('c, unit) io" where
  "handleMetricsErrorStats env e fieldKey fieldValue =
     (case parseMetricsErrorStats fieldKey fieldValue of
        Inl err \<Rightarrow> skip
      | Inr (errorPrefix, cnt) \<Rightarrow> registerCounter env e ''errors_total'' cnt [errorPrefix])"

definition handleKeyspace ::
  "'c env \<Rightarrow> Exporter \<Rightarrow> string \<Rightarrow> f64 \<times> f64 \<times> f64 \<times> f64 \<Rightarrow> ('c, unit) io" where
  "handleKeyspace env e dbName v =
     (let (keysTotal, keysEx, avgTTL, keysCached) = v in
      block
        [registerConstMetricGauge env e ''db_keys'' keysTotal [dbName],
         registerConstMetricGauge env e ''db_keys_expiring'' keysEx [dbName],
         only_if (f64_less (f64_of_int (- 1)) keysCached)
           (registerConstMetricGauge env e ''db_keys_cached'' keysCached [dbName]),
         only_if (f64_less (f64_of_int (- 1)) avgTTL)
           (registerConstMetricGauge env e ''db_avg_ttl_seconds'' avgTTL [dbName])])"

section \<open>The lines of INFO\<close>

text \<open>The local variables of \<open>extractInfoMetrics\<close>.\<close>

record info_state =
  keyValues :: "(string \<times> string) list"
  handledDBs :: "string list"
  cmdCount :: "(string \<times> int) list"
  cmdSum :: "(string \<times> f64) list"
  cmdLatencyMap :: "(string \<times> (f64 \<times> f64) list) list"
  fieldClass :: string
  masterHost :: string
  masterPort :: string

definition info_start :: info_state where
  "info_start = \<lparr>keyValues = [], handledDBs = [], cmdCount = [], cmdSum = [], cmdLatencyMap = [],
     fieldClass = [], masterHost = [], masterPort = []\<rparr>"

text \<open>The end of the loop body: the field is exported under its mapped name when it is known.\<close>

definition exportField :: "'c env \<Rightarrow> Exporter \<Rightarrow> string \<Rightarrow> string \<Rightarrow> ('c, unit) io" where
  "exportField env e fieldKey fieldValue =
     only_if (includeMetric e fieldKey) (parseAndRegisterConstMetric env e fieldKey fieldValue)"

text \<open>What a line is: a section header, nothing, or a field.\<close>

datatype info_line = Header string | Blank | Field string string

definition classify :: "string \<Rightarrow> info_line" where
  "classify rawLine =
     (let line = trim_space rawLine in
      if has_prefix line ''# '' then Header (drop 2 line)
      else if length line < 2 then Blank
      else case go_cut line '':'' of None \<Rightarrow> Blank | Some (k, v) \<Rightarrow> Field k v)"

text \<open>The bookkeeping before the \<open>switch\<close>.\<close>

definition note_field :: "string \<Rightarrow> string \<Rightarrow> info_state \<Rightarrow> info_state" where
  "note_field k v st =
     st\<lparr>keyValues := put k v (keyValues st),
        masterHost := (if reMasterHost k then v else masterHost st),
        masterPort := (if reMasterPort k then v else masterPort st)\<rparr>"

definition info_field ::
  "'c env \<Rightarrow> Exporter \<Rightarrow> info_state \<Rightarrow> string \<Rightarrow> string \<Rightarrow> ('c, info_state) io" where
  "info_field env e st0 k v =
     (let st = note_field k v st0 in
      if fieldClass st = ''Replication'' then
        bnd (handleMetricsReplication env e (masterHost st) (masterPort st) k v)
          (\<lambda>ok. if ok then ret st else andthen (exportField env e k v) (ret st))
      else if fieldClass st = ''Server'' then
        andthen (handleMetricsServer env e k v) (andthen (exportField env e k v) (ret st))
      else if fieldClass st = ''Commandstats'' then
        bnd (handleMetricsCommandStats env e k v) (\<lambda>(cmd, calls, usecsTotal).
          ret (st\<lparr>cmdCount := put cmd (uint64_of_f64 env calls) (cmdCount st),
                  cmdSum := put cmd usecsTotal (cmdSum st)\<rparr>))
      else if fieldClass st = ''Latencystats'' then
        bnd (handleMetricsLatencyStats k v (cmdLatencyMap st)) (\<lambda>m. ret (st\<lparr>cmdLatencyMap := m\<rparr>))
      else if fieldClass st = ''Errorstats'' then
        andthen (handleMetricsErrorStats env e k v) (ret st)
      else if fieldClass st = ''Keyspace'' then
        (case parseDBKeyspaceString k v of
           Some vals \<Rightarrow>
             andthen (handleKeyspace env e k vals) (ret (st\<lparr>handledDBs := k # handledDBs st\<rparr>))
         | None \<Rightarrow> andthen (exportField env e k v) (ret st))
      else if fieldClass st = ''Sentinel'' then
        andthen (handleMetricsSentinel env e k v) (andthen (exportField env e k v) (ret st))
      else andthen (exportField env e k v) (ret st))"

definition info_step :: "'c env \<Rightarrow> Exporter \<Rightarrow> info_state \<Rightarrow> string \<Rightarrow> ('c, info_state) io" where
  "info_step env e st line =
     (case classify line of
        Header cls \<Rightarrow> ret (st\<lparr>fieldClass := cls\<rparr>)
      | Blank \<Rightarrow> ret st
      | Field k v \<Rightarrow> info_field env e st k v)"

definition generateCommandLatencySummaries ::
  "'c env \<Rightarrow> Exporter \<Rightarrow> (string \<times> (f64 \<times> f64) list) list \<Rightarrow> (string \<times> int) list
   \<Rightarrow> (string \<times> f64) list \<Rightarrow> ('c, unit) io" where
  "generateCommandLatencySummaries env e latencies counts sums =
     bnd (rangeMap env latencies) (\<lambda>entries.
       for_each (\<lambda>(cmd, latencyMap).
         case (map_of counts cmd, map_of sums cmd) of
           (Some cnt, Some sm) \<Rightarrow>
             andthen (describe e ''latency_percentiles_usec'' [''cmd''])
               (registerConstSummary env e ''latency_percentiles_usec'' cnt sm latencyMap [cmd])
         | _ \<Rightarrow> skip) entries)"

definition emptyDatabases :: "'c env \<Rightarrow> Exporter \<Rightarrow> string list \<Rightarrow> int \<Rightarrow> ('c, unit) io" where
  "emptyDatabases env e handled dbCount =
     for_each (\<lambda>dbIndex.
       let dbName = ''db'' @ itoa (int dbIndex) in
       only_if (dbName \<notin> set handled)
         (block
           [registerConstMetricGauge env e ''db_keys'' (f64_of_int 0) [dbName],
            registerConstMetricGauge env e ''db_keys_expiring'' (f64_of_int 0) [dbName]]))
       [0..<nat dbCount]"

definition instance_labels :: "(string \<times> string) list \<Rightarrow> string list \<times> string list" where
  "instance_labels kv =
     (let optional = filter (\<lambda>k. map_of kv k \<noteq> None) [''valkey_version'', ''valkey_release_stage''];
          fields = [''role'', ''redis_version'', ''redis_build_id'', ''redis_mode'', ''os'',
            ''maxmemory_policy'', ''tcp_port'', ''run_id'', ''process_id'', ''master_replid''] @ optional
      in (fields, map (get_or [] kv) fields))"

definition instanceInfo :: "'c env \<Rightarrow> Exporter \<Rightarrow> (string \<times> string) list \<Rightarrow> ('c, string) io" where
  "instanceInfo env e kv =
     (let instanceRole = get_or [] kv ''role'';
          (lbls, lblVals) = instance_labels kv
      in andthen (describe e ''instance_info'' lbls)
         (andthen (registerConstMetricGauge env e ''instance_info'' (f64_of_int 1) lblVals)
         (andthen
           (only_if (instanceRole = ''slave'')
             (registerConstMetricGauge env e ''slave_info'' (f64_of_int 1)
               [get_or [] kv ''master_host'', get_or [] kv ''master_port'',
                get_or [] kv ''slave_read_only'']))
           (ret instanceRole))))"

definition extractInfoMetrics ::
  "'c env \<Rightarrow> Exporter \<Rightarrow> string \<Rightarrow> int \<Rightarrow> ('c, string) io" where
  "extractInfoMetrics env e info dbCount =
     bnd (for_fold (info_step env e) info_start (go_split info [CHR 0x0A])) (\<lambda>st.
     andthen (generateCommandLatencySummaries env e (cmdLatencyMap st) (cmdCount st) (cmdSum st))
     (andthen
       (only_if (InclMetricsForEmptyDatabases (options e))
         (emptyDatabases env e (handledDBs st) dbCount))
       (instanceInfo env e (keyValues st))))"

definition extractClusterInfoMetrics :: "'c env \<Rightarrow> Exporter \<Rightarrow> string \<Rightarrow> ('c, unit) io" where
  "extractClusterInfoMetrics env e info =
     for_each (\<lambda>line. case go_split line '':'' of
         [fieldKey, fieldValue] \<Rightarrow> exportField env e fieldKey fieldValue
       | _ \<Rightarrow> skip) (go_split info [CHR 0x0D, CHR 0x0A])"


section \<open>Safety of the INFO metrics\<close>

text \<open>What keeps the code from a panic: in a replication field the two prefix patterns are
  followed by nothing that changes the metric name, and a latency field has a name before each
  equals sign and a command name Prometheus accepts.\<close>

definition direct_field_ok :: "string \<Rightarrow> bool" where
  "direct_field_ok k \<longleftrightarrow>
     (reMasterDirect k \<longrightarrow> reMasterLinkStatus k \<or>
        direct_metric k \<in> {''master_last_io_seconds_ago'', ''master_sync_in_progress'', ''slave_repl_offset''})"

definition latency_field_ok :: "string \<Rightarrow> string \<Rightarrow> bool" where
  "latency_field_ok k v \<longleftrightarrow>
     (has_prefix k ''latency_percentiles_usec_'' \<longrightarrow>
        ascii k \<and> list_all (\<lambda>kv. extractPercentileVal kv \<noteq> None) (go_split v '',''))"

definition info_line_ok :: "string \<Rightarrow> bool" where
  "info_line_ok line =
     (case classify line of Field k v \<Rightarrow> direct_field_ok k \<and> latency_field_ok k v | _ \<Rightarrow> True)"

definition info_ok :: "string \<Rightarrow> bool" where
  "info_ok info = list_all info_line_ok (go_split info [CHR 0x0A])"

lemma latency_pairs_no_panic:
  "list_all (\<lambda>kv. extractPercentileVal kv \<noteq> None) kvs \<Longrightarrow> latency_pairs pos m kvs \<noteq> None"
  by (induction pos m kvs rule: latency_pairs.induct) (auto split: option.splits)

lemma ascii_trim_prefix: "ascii s \<Longrightarrow> ascii (trim_prefix s p)"
  by (auto simp: ascii_def trim_prefix_def list_all_iff dest: in_set_dropD)

lemma put_key: "(a, b) \<in> set (put k v m) \<Longrightarrow> a = k \<or> a \<in> fst ` set m"
  by (metis fst_conv image_eqI insertE keys_put)

lemma holds_latencyStats:
  fixes m :: "(string \<times> (f64 \<times> f64) list) list"
  assumes "latency_field_ok k v" and "\<forall>c \<in> fst ` set m. ascii c"
  shows "holds (inv e N) (handleMetricsLatencyStats k v m)
    (\<lambda>m' w. (\<forall>c \<in> fst ` set m'. ascii c) \<and> inv e N w)"
proof (cases "parseMetricsLatencyStats k v")
  case None
  with assms(1) latency_pairs_no_panic [of "go_split v '',''" 0 "[]"] show ?thesis
    by (auto simp: parseMetricsLatencyStats_def latency_field_ok_def split: if_splits)
next
  case (Some r)
  have "ascii cmd" if r: "r = Inr (cmd, lm)" for cmd lm
  proof -
    from Some r obtain q where p: "has_prefix k ''latency_percentiles_usec_''"
      and q: "map_sum id (\<lambda>m. (trim_prefix k ''latency_percentiles_usec_'', m)) q = r"
      by (auto simp: parseMetricsLatencyStats_def split: if_splits)
    from q r have "cmd = trim_prefix k ''latency_percentiles_usec_''" by (cases q) auto
    with p assms(1) show ?thesis by (simp add: latency_field_ok_def ascii_trim_prefix)
  qed
  with Some assms(2) show ?thesis
    by (auto simp: handleMetricsLatencyStats_def holds_def ret_def dest!: put_key split: sum.splits)
qed

lemma keeps_handleMetricsReplication [hoare_rules]:
  assumes "prom_checks_labels env" and "direct_field_ok k"
  shows "keeps (inv e N) (handleMetricsReplication env e mh mp k v)"
proof -
  have "has_desc N (direct_metric k)" if "reMasterDirect k" "\<not> reMasterLinkStatus k"
    using assms(2) that unfolding direct_field_ok_def by auto
  then show ?thesis
    unfolding handleMetricsReplication_def using assms(1)
    by (intro hoare_rules) (auto intro!: hoare_rules)
qed

lemma keeps_counter [hoare_rules]:
  "prom_checks_labels env \<Longrightarrow> ls = [] \<or> has_desc N m \<Longrightarrow>
   keeps (inv e N) (registerCounter env e m v ls)"
  unfolding registerCounter_def by (rule keeps_registerConstMetric)

lemma keeps_registerIntGauge [hoare_rules]:
  "prom_checks_labels env \<Longrightarrow> keeps (inv e N) (registerIntGauge env e m v)"
  unfolding registerIntGauge_def by (intro hoare_rules) simp_all

lemma keeps_handleMetricsServer [hoare_rules]:
  assumes "prom_checks_labels env"
  shows "keeps (inv e N) (handleMetricsServer env e k v)"
proof -
  have "keeps (inv e N) (case parse_float v of
      (uptime, None) \<Rightarrow>
        bnd (timeNow env) (\<lambda>now.
          registerConstMetricGauge env e ''start_time_seconds''
            (f64_sub (f64_of_int (unix_seconds now)) uptime) [])
    | (_, Some err) \<Rightarrow> skip)"
    using assms by (intro hoare_rules) simp_all
  with assms show ?thesis
    unfolding handleMetricsServer_def
    by (intro keeps_block) (auto intro!: keeps_only_if keeps_registerIntGauge)
qed

lemma keeps_handleMetricsCommandStats [hoare_rules]:
  "prom_checks_labels env \<Longrightarrow> keeps (inv e N) (handleMetricsCommandStats env e k v)"
  unfolding handleMetricsCommandStats_def Let_def
  by (intro hoare_rules) (auto intro!: hoare_rules)

lemma keeps_handleMetricsErrorStats [hoare_rules]:
  "prom_checks_labels env \<Longrightarrow> keeps (inv e N) (handleMetricsErrorStats env e k v)"
  unfolding handleMetricsErrorStats_def
  by (intro hoare_rules) (auto intro!: hoare_rules)

lemma keeps_handleKeyspace [hoare_rules]:
  "prom_checks_labels env \<Longrightarrow> keeps (inv e N) (handleKeyspace env e db v)"
  unfolding handleKeyspace_def Let_def
  by (intro hoare_rules) (auto intro!: hoare_rules)

lemma keeps_exportField [hoare_rules]:
  "prom_checks_labels env \<Longrightarrow> keeps (inv e N) (exportField env e k v)"
  unfolding exportField_def by (intro hoare_rules)

text \<open>A database is reported when its two main metrics are on the channel.\<close>

definition db_reported :: "metric list \<Rightarrow> string \<Rightarrow> bool" where
  "db_reported ms db \<longleftrightarrow>
     (\<exists>d v. ConstMetric d GaugeValue v [db] \<in> set ms \<and> desc_name d = ''db_keys'') \<and>
     (\<exists>d v. ConstMetric d GaugeValue v [db] \<in> set ms \<and> desc_name d = ''db_keys_expiring'')"

lemma db_reported_append: "db_reported ms db \<Longrightarrow> db_reported (ms @ ms') db"
  by (auto simp: db_reported_def)

lemma holds_database:
  assumes "prom_accepts_ascii env" and "prom_checks_labels env" and "ascii db"
    and "\<And>N. keeps (inv e N) rest"
  shows "holds (inv e N)
    (andthen (registerConstMetricGauge env e ''db_keys'' v [db])
      (andthen (registerConstMetricGauge env e ''db_keys_expiring'' v' [db]) rest))
    (\<lambda>_ w. db_reported (chan w) db \<and> inv e N w)"
proof -
  have one: "holds (\<lambda>w. P (chan w) \<and> inv e N w) (registerConstMetricGauge env e m u [db])
      (\<lambda>_ w. (\<exists>d. ConstMetric d GaugeValue u [db] \<in> set (chan w) \<and> desc_name d = m) \<and> P (chan w) \<and> inv e N w)"
    if "map_of catalogue m = Some (t, [l])" and "\<And>xs ys. P xs \<Longrightarrow> P (xs @ ys)" for m u t l P
  proof -
    have "holds (inv e N) (registerConstMetricGauge env e m u [db])
        (\<lambda>_ w. (\<exists>d. ConstMetric d GaugeValue u [db] \<in> set (chan w) \<and> desc_name d = m) \<and> inv e N w)" for N
      by (rule holds_gauge_sent [OF assms(1) that(1)]) (simp_all add: assms(3))
    then show ?thesis using that(2) by (rule holds_with_chan)
  qed
  have r: "holds (\<lambda>w. db_reported (chan w) db \<and> inv e N w) rest (\<lambda>_ w. db_reported (chan w) db \<and> inv e N w)"
    using keeps_with_chan [OF assms(4), of "\<lambda>ms. db_reported ms db"] db_reported_append by blast
  let ?P = "\<lambda>m ms. \<exists>d v. ConstMetric d GaugeValue v [db] \<in> set ms \<and> desc_name d = m"
  show ?thesis
    unfolding andthen_def
  proof (rule holds_bnd)
    show "holds (inv e N) (registerConstMetricGauge env e ''db_keys'' v [db])
        (\<lambda>_ w. ?P ''db_keys'' (chan w) \<and> inv e N w)"
      by (rule holds_pre [OF holds_post [OF one [OF catalogue_db_metrics(1), of "\<lambda>_. True"]]]) auto
    show "holds (\<lambda>w. ?P ''db_keys'' (chan w) \<and> inv e N w)
        (bnd (registerConstMetricGauge env e ''db_keys_expiring'' v' [db]) (\<lambda>_. rest))
        (\<lambda>_ w. db_reported (chan w) db \<and> inv e N w)"
    proof (rule holds_bnd)
      show "holds (\<lambda>w. ?P ''db_keys'' (chan w) \<and> inv e N w)
          (registerConstMetricGauge env e ''db_keys_expiring'' v' [db])
          (\<lambda>_ w. db_reported (chan w) db \<and> inv e N w)"
        by (rule holds_post [OF one [OF catalogue_db_metrics(2)]]) (auto simp: db_reported_def)
    qed (rule r)
  qed
qed

text \<open>The invariant of the loop over the lines: the databases noted as handled are reported.\<close>

definition info_inv :: "Exporter \<Rightarrow> ctx \<Rightarrow> info_state \<Rightarrow> 'c world \<Rightarrow> bool" where
  "info_inv e N st w \<longleftrightarrow>
     (\<forall>c \<in> fst ` set (cmdLatencyMap st). ascii c) \<and>
     (\<forall>db \<in> set (handledDBs st). ascii db \<longrightarrow> db_reported (chan w) db) \<and> inv e N w"

definition info_post :: "Exporter \<Rightarrow> ctx \<Rightarrow> info_state \<Rightarrow> info_state \<Rightarrow> 'c world \<Rightarrow> bool" where
  "info_post e N st0 st w \<longleftrightarrow>
     (\<forall>c \<in> fst ` set (cmdLatencyMap st). ascii c) \<and>
     (\<forall>db \<in> set (handledDBs st). db \<in> set (handledDBs st0) \<or> (ascii db \<longrightarrow> db_reported (chan w) db)) \<and>
     inv e N w"

lemma holds_then_ret:
  "keeps (inv e N) m \<Longrightarrow> (\<forall>c \<in> fst ` set (cmdLatencyMap st). ascii c) \<Longrightarrow>
   handledDBs st = handledDBs st0 \<Longrightarrow>
   holds (inv e N) (andthen m (ret st)) (info_post e N st0)"
  by (rule holds_andthen_keeps) (simp_all add: holds_def ret_def info_post_def)

lemma holds_keyspace:
  assumes "prom_accepts_ascii env" and "prom_checks_labels env"
    and "\<forall>c \<in> fst ` set (cmdLatencyMap st). ascii c"
    and "handledDBs st = k # handledDBs st0"
  shows "holds (inv e N) (andthen (handleKeyspace env e k vals) (ret st)) (info_post e N st0)"
proof (cases "ascii k")
  case True
  obtain keysTotal keysEx avgTTL keysCached where v: "vals = (keysTotal, keysEx, avgTTL, keysCached)"
    by (cases vals)
  have "holds (inv e N) (handleKeyspace env e k vals) (\<lambda>_ w. db_reported (chan w) k \<and> inv e N w)"
    unfolding handleKeyspace_def v Let_def prod.case block.simps
    using assms(2) by (intro holds_database assms(1,2) True hoare_rules) simp_all
  then show ?thesis
    unfolding andthen_def
    by (rule holds_bnd) (use assms(3,4) in \<open>auto simp: holds_def ret_def info_post_def\<close>)
next
  case False
  show ?thesis
    by (rule holds_andthen_keeps [OF keeps_handleKeyspace [OF assms(2)]])
      (use assms(3,4) False in \<open>auto simp: holds_def ret_def info_post_def\<close>)
qed

lemma holds_info_field:
  assumes "prom_accepts_ascii env" and "prom_checks_labels env"
    and "direct_field_ok k" and "latency_field_ok k v"
    and "\<forall>c \<in> fst ` set (cmdLatencyMap st). ascii c"
  shows "holds (inv e N) (info_field env e st k v) (info_post e N st)"
proof -
  let ?st = "note_field k v st"
  have a: "\<forall>c \<in> fst ` set (cmdLatencyMap ?st). ascii c" "handledDBs ?st = handledDBs st"
    using assms(5) by (simp_all add: note_field_def)
  have r: "holds (inv e N) (ret ?st) (info_post e N st)"
    using a by (simp add: holds_def ret_def info_post_def)
  have l: "holds (inv e N) (bnd (handleMetricsLatencyStats k v (cmdLatencyMap ?st))
      (\<lambda>m. ret (?st\<lparr>cmdLatencyMap := m\<rparr>))) (info_post e N st)"
    by (rule holds_bnd [OF holds_latencyStats [OF assms(4) a(1)]])
      (simp add: holds_def ret_def info_post_def a(2))
  have s: "holds (inv e N) (ret (?st\<lparr>cmdCount := x, cmdSum := y\<rparr>)) (info_post e N st)" for x y
    using a by (simp add: holds_def ret_def info_post_def)
  have d: "holds (inv e N) (andthen (handleKeyspace env e k vals) (ret (?st\<lparr>handledDBs := k # handledDBs ?st\<rparr>)))
      (info_post e N st)" for vals
    using a assms(1,2) by (intro holds_keyspace) simp_all
  show ?thesis
    unfolding info_field_def Let_def using assms(2,3) a
    by (intro holds_if l r s d holds_case_option holds_case_prod holds_then_ret
        holds_bnd_keeps holds_andthen_keeps keeps_exportField keeps_handleMetricsReplication
        keeps_handleMetricsServer keeps_handleMetricsCommandStats keeps_handleMetricsErrorStats
        keeps_handleMetricsSentinel)
qed

lemma holds_info_step:
  assumes "prom_accepts_ascii env" and "prom_checks_labels env" and "info_line_ok line"
  shows "holds (info_inv e N st) (info_step env e st line) (info_inv e N)"
proof (cases "classify line")
  case (Field k v)
  show ?thesis
  proof (rule holdsI)
    fix w :: "'a world"
    assume w: "info_inv e N st w"
    then have w0: "inv e (N\<lparr>sent := chan w\<rparr>) w" by (auto simp: info_inv_def inv_def)
    have h: "holds (inv e (N\<lparr>sent := chan w\<rparr>)) (info_step env e st line) (info_post e (N\<lparr>sent := chan w\<rparr>) st)"
      using assms w Field holds_info_field [of env k v st e "N\<lparr>sent := chan w\<rparr>"]
      by (simp add: info_inv_def info_step_def info_line_ok_def)
    show "case info_step env e st line w of
        Fine (a, s') \<Rightarrow> info_inv e N a s' | Panic _ \<Rightarrow> False | Hang \<Rightarrow> True"
    proof (cases "info_step env e st line w")
      case (Fine r)
      obtain st' w' where r: "r = (st', w')" by (cases r)
      with holds_Fine [OF h w0] Fine have post: "info_post e (N\<lparr>sent := chan w\<rparr>) st st' w'" by simp
      then obtain ms where "chan w' = chan w @ ms" by (auto simp: info_post_def inv_def)
      with post w have "info_inv e N st' w'"
        by (auto simp: info_post_def info_inv_def inv_def intro: db_reported_append)
      with Fine r show ?thesis by simp
    next
      case (Panic msg)
      with holds_no_panic [OF h w0, of msg] show ?thesis by simp
    qed simp
  qed
qed (simp_all add: info_step_def holds_def ret_def info_inv_def)

lemma holds_info_lines:
  fixes env :: "'c env"
  assumes "prom_accepts_ascii env" and "prom_checks_labels env" and "info_ok info"
  shows "holds (inv e N) (for_fold (info_step env e) info_start (go_split info [CHR 0x0A])) (info_inv e N)"
proof -
  let ?J = "\<lambda>(ys :: string list) st (w :: 'c world). info_inv e N st w"
  have "holds (?J [] info_start) (for_fold (info_step env e) info_start (go_split info [CHR 0x0A]))
      (?J (go_split info [CHR 0x0A]))"
  proof (rule holds_for_fold [where J = ?J])
    fix ys x zs st
    assume "go_split info [CHR 0x0A] = ys @ x # zs"
    with assms(3) have "info_line_ok x" by (simp add: info_ok_def)
    with assms(1,2) show "holds (info_inv e N st) (info_step env e st x) (info_inv e N)"
      by (rule holds_info_step)
  qed
  then show ?thesis by (rule holds_pre) (simp add: info_inv_def info_start_def)
qed

lemma keeps_summaries:
  assumes "prom_accepts_ascii env" and "ranges_all env" and "\<forall>c \<in> fst ` set lm. ascii c"
  shows "keeps (inv e N) (generateCommandLatencySummaries env e lm counts sums)"
proof -
  let ?body = "\<lambda>(cmd, latencyMap). case (map_of counts cmd, map_of sums cmd) of
      (Some cnt, Some sm) \<Rightarrow>
        andthen (describe e ''latency_percentiles_usec'' [''cmd''])
          (registerConstSummary env e ''latency_percentiles_usec'' cnt sm latencyMap [cmd])
    | _ \<Rightarrow> skip"
  have entries: "holds (inv e N) (rangeMap env lm) (\<lambda>es w. fst ` set es \<subseteq> fst ` set lm \<and> inv e N w)"
  proof (rule holdsI)
    fix w :: "'a world"
    assume "inv e N w"
    moreover have "mset (range_order env (tick w) (map fst lm)) = mset (map fst lm)"
      using assms(2) unfolding ranges_all_def by blast
    then have "set (range_order env (tick w) (map fst lm)) = fst ` set lm"
      by (metis list.set_map mset_eq_setD)
    then have "fst ` set (List.map_filter (\<lambda>k. map_option (Pair k) (map_of lm k))
        (range_order env (tick w) (map fst lm))) \<subseteq> fst ` set lm"
      by (force simp: List.map_filter_def)
    ultimately show "case rangeMap env lm w of
        Fine (es, s') \<Rightarrow> fst ` set es \<subseteq> fst ` set lm \<and> inv e N s' | Panic _ \<Rightarrow> False | Hang \<Rightarrow> True"
      by (simp add: rangeMap_def act_def)
  qed
  have one: "keeps (inv e N) (?body (cmd, latencyMap))" if "ascii cmd" for cmd latencyMap
    using assms(1) that
    by (auto intro!: hoare_rules keeps_registerConstSummary [OF _ _ catalogue_cmd_metrics(1)]
        split: option.splits)
  show ?thesis
    unfolding generateCommandLatencySummaries_def
  proof (rule holds_bnd [OF entries], rule holds_assume)
    fix es :: "(string \<times> (f64 \<times> f64) list) list"
    assume "fst ` set es \<subseteq> fst ` set lm"
    with assms(3) have "\<forall>p \<in> set es. ascii (fst p)" by blast
    then show "keeps (inv e N) (for_each ?body es)"
      by (intro keeps_for_each) (use one in \<open>fastforce\<close>)
  qed
qed

lemma keeps_emptyDatabases [hoare_rules]:
  "prom_checks_labels env \<Longrightarrow> keeps (inv e N) (emptyDatabases env e handled n)"
  unfolding emptyDatabases_def Let_def
  by (intro hoare_rules) (auto intro!: hoare_rules)

lemma ascii_db: "ascii (''db'' @ itoa (int i))"
proof -
  have "byte c < 128" if "is_digit c" for c using that by (simp add: is_digit_def)
  with nat_digits_digits [of "int i"] show ?thesis
    by (auto simp: ascii_def itoa_def list_all_iff byte_def)
qed

lemma holds_emptyDatabases:
  fixes env :: "'c env"
  assumes "prom_accepts_ascii env" and "prom_checks_labels env"
  shows "holds (\<lambda>w. (\<forall>db \<in> set handled. ascii db \<longrightarrow> db_reported (chan w) db) \<and> inv e N w)
    (emptyDatabases env e handled n)
    (\<lambda>_ w. (\<forall>i < nat n. db_reported (chan w) (''db'' @ itoa (int i))) \<and> inv e N w)"
proof -
  let ?old = "\<lambda>ms. \<forall>db \<in> set handled. ascii db \<longrightarrow> db_reported ms db"
  let ?J = "\<lambda>ds (w :: 'c world). (?old (chan w) \<and> (\<forall>i \<in> set ds. db_reported (chan w) (''db'' @ itoa (int i)))) \<and> inv e N w"
  have "holds (?J []) (emptyDatabases env e handled n) (\<lambda>_. ?J [0..<nat n])"
    unfolding emptyDatabases_def
  proof (rule holds_for_each [where J = ?J])
    fix ds i zs assume "[0..<nat n] = ds @ i # zs"
    let ?db = "''db'' @ itoa (int i)"
    let ?P = "\<lambda>ms. ?old ms \<and> (\<forall>i \<in> set ds. db_reported ms (''db'' @ itoa (int i)))"
    have mono: "?P (xs @ ys)" if "?P xs" for xs ys using that db_reported_append by blast
    have new: "holds (inv e N) (block
         [registerConstMetricGauge env e ''db_keys'' (f64_of_int 0) [?db],
          registerConstMetricGauge env e ''db_keys_expiring'' (f64_of_int 0) [?db]])
        (\<lambda>_ w. db_reported (chan w) ?db \<and> inv e N w)" for N
      unfolding block.simps by (intro holds_database assms ascii_db keeps_skip)
    show "holds (?J ds) (let dbName = ?db in only_if (dbName \<notin> set handled)
         (block [registerConstMetricGauge env e ''db_keys'' (f64_of_int 0) [dbName],
            registerConstMetricGauge env e ''db_keys_expiring'' (f64_of_int 0) [dbName]]))
        (\<lambda>_. ?J (ds @ [i]))"
    proof (cases "?db \<in> set handled")
      case True
      then show ?thesis
        using ascii_db [of i] by (auto simp: only_if_def skip_def holds_def ret_def)
    next
      case False
      have "holds (?J ds) (block
         [registerConstMetricGauge env e ''db_keys'' (f64_of_int 0) [?db],
          registerConstMetricGauge env e ''db_keys_expiring'' (f64_of_int 0) [?db]])
        (\<lambda>_ w. db_reported (chan w) ?db \<and> ?P (chan w) \<and> inv e N w)"
        using new mono by (rule holds_with_chan)
      with False show ?thesis
        unfolding Let_def only_if_def by (auto elim!: holds_post)
    qed
  qed
  then show ?thesis by (rule holds_pre [OF holds_post]) auto
qed

lemma keeps_instanceInfo [hoare_rules]:
  "prom_checks_labels env \<Longrightarrow> keeps (inv e N) (instanceInfo env e kv)"
  unfolding instanceInfo_def Let_def
  by (auto split: prod.splits intro!: keeps_after_describe hoare_rules)

lemma holds_extractInfoMetrics:
  assumes "prom_checks_labels env" and "prom_accepts_ascii env" and "ranges_all env" and "info_ok info"
  shows "holds (inv e N) (extractInfoMetrics env e info dbCount)
    (\<lambda>_ w. (InclMetricsForEmptyDatabases (options e) \<longrightarrow>
              (\<forall>i < nat dbCount. db_reported (chan w) (''db'' @ itoa (int i)))) \<and> inv e N w)"
  unfolding extractInfoMetrics_def
proof (rule holds_bnd [OF holds_info_lines [OF assms(2,1,4)]])
  fix st :: info_state
  let ?P = "\<lambda>ms. \<forall>db \<in> set (handledDBs st). ascii db \<longrightarrow> db_reported ms db"
  let ?Q = "\<lambda>ms. InclMetricsForEmptyDatabases (options e) \<longrightarrow>
    (\<forall>i < nat dbCount. db_reported ms (''db'' @ itoa (int i)))"
  have P: "?P (xs @ ys)" if "?P xs" for xs ys using that db_reported_append by blast
  have Q: "?Q (xs @ ys)" if "?Q xs" for xs ys using that db_reported_append by blast
  have "holds (\<lambda>w. (\<forall>c \<in> fst ` set (cmdLatencyMap st). ascii c) \<and> ?P (chan w) \<and> inv e N w)
      (andthen (generateCommandLatencySummaries env e (cmdLatencyMap st) (cmdCount st) (cmdSum st))
        (andthen (only_if (InclMetricsForEmptyDatabases (options e))
            (emptyDatabases env e (handledDBs st) dbCount))
          (instanceInfo env e (keyValues st))))
      (\<lambda>_ w. ?Q (chan w) \<and> inv e N w)"
  proof (rule holds_assume)
    assume lm: "\<forall>c \<in> fst ` set (cmdLatencyMap st). ascii c"
    show "holds (\<lambda>w. ?P (chan w) \<and> inv e N w)
      (andthen (generateCommandLatencySummaries env e (cmdLatencyMap st) (cmdCount st) (cmdSum st))
        (andthen (only_if (InclMetricsForEmptyDatabases (options e))
            (emptyDatabases env e (handledDBs st) dbCount))
          (instanceInfo env e (keyValues st))))
      (\<lambda>_ w. ?Q (chan w) \<and> inv e N w)"
      unfolding andthen_def
    proof (intro holds_bnd)
      show "holds (\<lambda>w. ?P (chan w) \<and> inv e N w)
          (generateCommandLatencySummaries env e (cmdLatencyMap st) (cmdCount st) (cmdSum st))
          (\<lambda>_ w. ?P (chan w) \<and> inv e N w)"
        using assms lm P by (intro keeps_with_chan keeps_summaries)
      show "holds (\<lambda>w. ?P (chan w) \<and> inv e N w)
          (only_if (InclMetricsForEmptyDatabases (options e)) (emptyDatabases env e (handledDBs st) dbCount))
          (\<lambda>_ w. ?Q (chan w) \<and> inv e N w)"
      proof (cases "InclMetricsForEmptyDatabases (options e)")
        case True
        then show ?thesis using holds_emptyDatabases [OF assms(2,1)] by (simp add: only_if_def)
      next
        case False
        then show ?thesis by (simp add: only_if_def skip_def holds_def ret_def)
      qed
      show "holds (\<lambda>w. ?Q (chan w) \<and> inv e N w) (instanceInfo env e (keyValues st))
          (\<lambda>_ w. ?Q (chan w) \<and> inv e N w)"
        using assms Q by (intro keeps_with_chan keeps_instanceInfo)
    qed
  qed
  then show "holds (info_inv e N st)
      (andthen (generateCommandLatencySummaries env e (cmdLatencyMap st) (cmdCount st) (cmdSum st))
        (andthen (only_if (InclMetricsForEmptyDatabases (options e))
            (emptyDatabases env e (handledDBs st) dbCount))
          (instanceInfo env e (keyValues st))))
      (\<lambda>_ w. ?Q (chan w) \<and> inv e N w)"
    by (rule holds_pre) (simp add: info_inv_def)
qed

lemma keeps_extractInfoMetrics [hoare_rules]:
  assumes "prom_checks_labels env" and "prom_accepts_ascii env" and "ranges_all env" and "info_ok info"
  shows "keeps (inv e N) (extractInfoMetrics env e info dbCount)"
  by (rule holds_post [OF holds_extractInfoMetrics [OF assms]]) simp

lemma keeps_extractClusterInfoMetrics [hoare_rules]:
  "prom_checks_labels env \<Longrightarrow> keeps (inv e N) (extractClusterInfoMetrics env e info)"
  unfolding extractClusterInfoMetrics_def by (intro hoare_rules)



section \<open>Facts about the field parsers\<close>

text \<open>The printed form of a list of named numbers, as Redis writes it.\<close>

definition named_value :: "string \<Rightarrow> string \<Rightarrow> string" where
  "named_value k v = k @ CHR ''='' # v"

definition print_fields :: "(string \<times> string) list \<Rightarrow> string" where
  "print_fields fs = go_join (map (\<lambda>(k, v). named_value k v) fs) '',''"

definition plain :: "string \<Rightarrow> bool" where
  "plain s \<longleftrightarrow> CHR ''='' \<notin> set s \<and> CHR '','' \<notin> set s"

text \<open>A number as it is printed: readable, and without separators.\<close>

definition info_number :: "string \<Rightarrow> f64 \<Rightarrow> bool" where
  "info_number s x \<longleftrightarrow> parse_float s = (x, None) \<and> plain s"

lemma split_named_value: "plain k \<Longrightarrow> plain v \<Longrightarrow> go_split (named_value k v) ''='' = [k, v]"
  by (simp add: named_value_def plain_def split_append split_none)

lemma extractVal_field: "plain k \<Longrightarrow> info_number v x \<Longrightarrow> extractVal (named_value k v) = Some x"
  by (simp add: extractVal_def info_number_def split_named_value)

lemma split_fields_printed:
  assumes "fs \<noteq> []" and "\<forall>(k, v) \<in> set fs. plain k \<and> plain v"
  shows "go_split (print_fields fs) '','' = map (\<lambda>(k, v). named_value k v) fs"
  unfolding print_fields_def
  by (rule split_join) (use assms in \<open>auto simp: named_value_def plain_def\<close>)

lemma plain_names [simp]:
  "plain ''keys''" "plain ''expires''" "plain ''avg_ttl''" "plain ''cached_keys''" "plain ''calls''"
  "plain ''usec''" "plain ''usec_per_call''" "plain ''rejected_calls''" "plain ''failed_calls''"
  "plain ''ip''" "plain ''port''" "plain ''state''" "plain ''offset''" "plain ''lag''"
  by (simp_all add: plain_def)

lemma info_number_plain [simp]: "info_number s x \<Longrightarrow> plain s"
  by (simp add: info_number_def)

lemma info_numbers_plain: "list_all2 info_number vs xs \<Longrightarrow> \<forall>v \<in> set vs. plain v"
  by (induction rule: list_all2_induct) simp_all

text \<open>C35: the keyspace line of a database is read by position, whatever its fields are called: the keys,
  the keys with an expiry, the average TTL (from milliseconds to seconds) and the cached keys. The last two
  are reported as -1 when the line has fewer fields, and a line with fewer than two fields or more than
  four is refused, as is one whose name does not start with \<open>db\<close>. So the fourth field of Redis 7.4,
  \<open>subexpiry\<close>, is taken for the cached keys.\<close>

theorem parseDBKeyspaceString_formats:
  assumes "\<forall>k \<in> fst ` set fs. plain k" and "list_all2 info_number (map snd fs) xs"
  shows "parseDBKeyspaceString db (print_fields fs) =
    (if \<not> has_prefix db ''db'' then None
     else case xs of
         [x, y] \<Rightarrow> Some (x, y, f64_of_int (- 1), f64_of_int (- 1))
       | [x, y, z] \<Rightarrow> Some (x, y, f64_div z (f64_of_int 1000), f64_of_int (- 1))
       | [x, y, z, u] \<Rightarrow> Some (x, y, f64_div z (f64_of_int 1000), u)
       | _ \<Rightarrow> None)"
proof (cases "fs = []")
  case True
  with assms(2) have "xs = []" by simp
  moreover have "go_split (print_fields fs) '','' = [[]]" by (simp add: True print_fields_def)
  ultimately show ?thesis by (simp add: parseDBKeyspaceString_def)
next
  case False
  have numbers: "\<forall>v \<in> set (map snd fs). plain v"
    using assms(2) info_numbers_plain by blast
  have "\<forall>(k, v) \<in> set fs. plain k \<and> plain v" using assms(1) numbers by force
  note split = split_fields_printed [OF False this]
  have len: "length fs = length xs" using list_all2_lengthD [OF assms(2)] by simp
  have field: "extractVal (case fs ! i of (k, v) \<Rightarrow> named_value k v) = Some (xs ! i)" if "i < length xs" for i
  proof -
    obtain k v where kv: "fs ! i = (k, v)" by (cases "fs ! i")
    with that len have "(k, v) \<in> set fs" by (metis nth_mem)
    with assms(1) have "plain k" by force
    moreover have "info_number v (xs ! i)"
      using assms(2) that len kv by (auto simp: list_all2_conv_all_nth dest!: spec [of _ i])
    ultimately show ?thesis by (simp add: kv extractVal_field)
  qed
  show ?thesis
  proof (cases "length xs \<in> {2, 3, 4}")
    case True
    then consider x y where "xs = [x, y]" | x y z where "xs = [x, y, z]" | x y z u where "xs = [x, y, z, u]"
      by (auto simp: length_Suc_conv eval_nat_numeral)
    then show ?thesis
      using field [of 0] field [of 1] field [of 2] field [of 3]
      by cases (simp_all add: parseDBKeyspaceString_def split len split_def)
  next
    case False
    then have "length xs < 2 \<or> 4 < length xs" by auto
    then have "parseDBKeyspaceString db (print_fields fs) = None"
      by (simp add: parseDBKeyspaceString_def split len Let_def)
    moreover have "(case xs of [x, y] \<Rightarrow> Some (x, y, f64_of_int (- 1), f64_of_int (- 1))
       | [x, y, z] \<Rightarrow> Some (x, y, f64_div z (f64_of_int 1000), f64_of_int (- 1))
       | [x, y, z, u] \<Rightarrow> Some (x, y, f64_div z (f64_of_int 1000), u)
       | _ \<Rightarrow> None) = None"
      using False by (auto split: list.split)
    ultimately show ?thesis by simp
  qed
qed

lemma demo_numbers:
  "info_number ''3'' (f64_of_int 3)" "info_number ''1'' (f64_of_int 1)"
  "info_number ''2000'' (f64_of_int 2000)" "info_number ''0.5'' (f64_div (f64_of_int 1) (f64_of_int 2))"
  by code_simp+

theorem parseDBKeyspaceString_formats_witness:
  "parseDBKeyspaceString ''db0'' ''keys=3,expires=1,avg_ttl=2000'' =
     Some (f64_of_int 3, f64_of_int 1, f64_of_int 2, f64_of_int (- 1)) \<and>
   parseDBKeyspaceString ''db0'' ''keys=3,expires=1,avg_ttl=2000,subexpiry=1'' =
     Some (f64_of_int 3, f64_of_int 1, f64_of_int 2, f64_of_int 1)"
proof -
  have ttl: "f64_div (f64_of_int 2000) (f64_of_int 1000) = f64_of_int 2" by code_simp
  let ?fs = "[(''keys'', ''3''), (''expires'', ''1''), (''avg_ttl'', ''2000'')]"
  have line: "print_fields ?fs = ''keys=3,expires=1,avg_ttl=2000''"
    "print_fields (?fs @ [(''subexpiry'', ''1'')]) = ''keys=3,expires=1,avg_ttl=2000,subexpiry=1''"
    by (simp_all add: print_fields_def named_value_def)
  have "plain ''subexpiry''" by (simp add: plain_def)
  then show ?thesis
    using parseDBKeyspaceString_formats [of ?fs "[f64_of_int 3, f64_of_int 1, f64_of_int 2000]" "''db0''"]
      parseDBKeyspaceString_formats [of "?fs @ [(''subexpiry'', ''1'')]"
        "[f64_of_int 3, f64_of_int 1, f64_of_int 2000, f64_of_int 1]" "''db0''"]
    by (simp only: line) (simp add: has_prefix_def demo_numbers ttl)
qed

text \<open>C33: command statistics are read in the format before Redis 6.2 (three values) and in the
  later one (with rejected and failed calls), under the command's name.\<close>

theorem parseMetricsCommandStats_formats:
  assumes "info_number a x" and "info_number b y" and "info_number c z"
    and "info_number d u" and "info_number f v"
  shows "parseMetricsCommandStats (''cmdstat_'' @ cmd)
        (print_fields [(''calls'', a), (''usec'', b), (''usec_per_call'', c)]) =
      \<lparr>cs_cmd = cmd, cs_calls = x, cs_rejected = f64_zero, cs_failed = f64_zero, cs_usec = y,
       cs_extended = False, cs_error = False\<rparr> \<and>
    parseMetricsCommandStats (''cmdstat_'' @ cmd)
        (print_fields [(''calls'', a), (''usec'', b), (''usec_per_call'', c),
           (''rejected_calls'', d), (''failed_calls'', f)]) =
      \<lparr>cs_cmd = cmd, cs_calls = x, cs_rejected = u, cs_failed = v, cs_usec = y,
       cs_extended = True, cs_error = False\<rparr>"
proof -
  have p: "trim_prefix (''cmdstat_'' @ cmd) ''cmdstat_'' = cmd" by (rule trim_prefix_append)
  have h: "has_prefix (''cmdstat_'' @ cmd) ''cmdstat_''" by (rule has_prefix_append)
  show ?thesis
    unfolding parseMetricsCommandStats_def p Let_def
    using assms h by (simp add: split_fields_printed extractVal_field no_stats_def)
qed

theorem parseMetricsCommandStats_formats_witness:
  "parseMetricsCommandStats ''cmdstat_get'' ''calls=3,usec=2000,usec_per_call=0.5'' =
     \<lparr>cs_cmd = ''get'', cs_calls = f64_of_int 3, cs_rejected = f64_zero, cs_failed = f64_zero,
      cs_usec = f64_of_int 2000, cs_extended = False, cs_error = False\<rparr>"
proof -
  have "print_fields [(''calls'', ''3''), (''usec'', ''2000''), (''usec_per_call'', ''0.5'')] =
      ''calls=3,usec=2000,usec_per_call=0.5''"
    by (simp add: print_fields_def named_value_def)
  then show ?thesis
    using parseMetricsCommandStats_formats [OF demo_numbers(1,3,4,1,1), of "''get''"] by simp
qed

text \<open>C34: a connected replica is read with and without the lag that Redis reports from version 3.0
  on; without it the lag is -1.\<close>

theorem parseConnectedSlaveString_formats:
  assumes "numbered ''slave'' name" and "info_number off x" and "info_number lag y"
    and "plain ip" and "plain port" and "plain state"
  shows "parseConnectedSlaveString name
        (print_fields [(''ip'', ip), (''port'', port), (''state'', state), (''offset'', off)]) =
      Some (x, ip, port, state, f64_of_int (- 1)) \<and>
    parseConnectedSlaveString name
        (print_fields [(''ip'', ip), (''port'', port), (''state'', state), (''offset'', off), (''lag'', lag)]) =
      Some (x, ip, port, state, y)"
proof -
  have n: "parse_float off = (x, None)" "parse_float lag = (y, None)" "plain off" "plain lag"
    using assms by (simp_all add: info_number_def)
  with assms show ?thesis
    by (simp add: parseConnectedSlaveString_def split_fields_printed split_named_value get_or_def)
qed

theorem parseConnectedSlaveString_formats_witness:
  "parseConnectedSlaveString ''slave0'' ''ip=10.0.0.1,port=6379,state=online,offset=2000,lag=1'' =
     Some (f64_of_int 2000, ''10.0.0.1'', ''6379'', ''online'', f64_of_int 1)"
proof -
  have "numbered ''slave'' ''slave0''"
    by (simp add: numbered_def has_prefix_def is_digit_def byte_def)
  moreover have "plain ''10.0.0.1''" "plain ''6379''" "plain ''online''"
    by (simp_all add: plain_def)
  moreover have "print_fields [(''ip'', ''10.0.0.1''), (''port'', ''6379''), (''state'', ''online''),
      (''offset'', ''2000''), (''lag'', ''1'')] =
      ''ip=10.0.0.1,port=6379,state=online,offset=2000,lag=1''"
    by (simp add: print_fields_def named_value_def)
  ultimately show ?thesis
    using parseConnectedSlaveString_formats [OF _ demo_numbers(3,2), where name = "''slave0''"
        and ip = "''10.0.0.1''" and port = "''6379''" and state = "''online''"] by simp
qed

section \<open>Facts about the whole INFO reply\<close>

lemma finishes_info_field [finish_rules]: "finishes (info_field env e st k v)"
  unfolding info_field_def handleMetricsReplication_def handleMetricsServer_def registerIntGauge_def
    handleMetricsCommandStats_def handleMetricsLatencyStats_def handleMetricsErrorStats_def
    handleKeyspace_def exportField_def registerCounter_def Let_def
  by (intro finish_rules)

lemma finishes_info_step [finish_rules]: "finishes (info_step env e st line)"
  by (cases "classify line") (simp_all add: info_step_def finish_rules)

lemma finishes_info [finish_rules]:
  "finishes (extractInfoMetrics env e info dbCount)" "finishes (extractClusterInfoMetrics env e info)"
  unfolding extractInfoMetrics_def generateCommandLatencySummaries_def
    emptyDatabases_def instanceInfo_def extractClusterInfoMetrics_def exportField_def Let_def
  by (intro finish_rules)+

text \<open>C7: with INFO fields as Redis writes them, processing an INFO reply returns: it neither panics
  nor runs forever. Every metric it sends agrees with the description stored under its name, and
  it only adds metrics and descriptions, it never changes one.\<close>

theorem extractInfoMetrics_safe:
  assumes "prom_checks_labels env" and "prom_accepts_ascii env" and "ranges_all env"
    and "info_ok info" and "inv e N w"
  shows "\<exists>role w'. extractInfoMetrics env e info dbCount w = Fine (role, w') \<and>
    inv e N w' \<and> (\<exists>ms. chan w' = chan w @ ms) \<and> descs w \<subseteq>\<^sub>m descs w'"
  using finishes_Fine [OF finishes_info(1) keeps_extractInfoMetrics [OF assms(1-4)] assms(5)]
    keeps_grows [OF keeps_extractInfoMetrics [OF assms(1-4)] assms(5)] by blast

definition demo_info :: string where
  "demo_info = go_join
     [''# Server'', ''redis_version:7.2.4'', ''uptime_in_seconds:12'', ''# Replication'', ''role:slave'',
      ''master_host:10.0.0.1'', ''master_port:6379'', ''master_link_status:up'', ''slave_repl_offset:9'',
      ''# Commandstats'', ''cmdstat_get:calls=3,usec=2000,usec_per_call=0.5'', ''# Latencystats'',
      ''latency_percentiles_usec_get:p50=0.5,p99=3'', ''# Keyspace'', ''db0:keys=3,expires=1,avg_ttl=2000'']
     [CHR 0x0A]"

lemma demo_info_ok [simp]: "info_ok demo_info"
  by code_simp

lemma demo_env_ranges [simp]: "ranges_all demo_env"
  by (simp add: ranges_all_def)

theorem extractInfoMetrics_safe_witness:
  "\<exists>role w'. extractInfoMetrics demo_env demo_exporter demo_info 16 (start_world demo_exporter []) =
     Fine (role, w') \<and> inv demo_exporter no_ctx w'"
  using extractInfoMetrics_safe [OF demo_env_checks demo_env_accepts demo_env_ranges demo_info_ok inv_start]
  by blast

text \<open>unless it is switched off, every database of the server is reported: for each index below
  the number of databases there is a \<open>db_keys\<close> and a \<open>db_keys_expiring\<close> metric, whether INFO
  mentions the database or not.\<close>

theorem every_database_reported:
  assumes "prom_checks_labels env" and "prom_accepts_ascii env" and "ranges_all env"
    and "info_ok info" and "inv e N w" and "InclMetricsForEmptyDatabases (options e)"
    and "int i < dbCount"
  shows "\<exists>role w'. extractInfoMetrics env e info dbCount w = Fine (role, w') \<and>
    db_reported (chan w') (''db'' @ itoa (int i))"
proof -
  obtain role w' where "extractInfoMetrics env e info dbCount w = Fine (role, w')"
    and "\<forall>i < nat dbCount. db_reported (chan w') (''db'' @ itoa (int i))"
    using finishes_Fine [OF finishes_info(1) holds_extractInfoMetrics [OF assms(1-4)] assms(5)] assms(6)
    by blast
  moreover have "i < nat dbCount" using assms(7) by simp
  ultimately show ?thesis by blast
qed

theorem every_database_reported_witness:
  "\<exists>role w'. extractInfoMetrics demo_env demo_exporter demo_info 16 (start_world demo_exporter []) =
     Fine (role, w') \<and> db_reported (chan w') ''db3''"
proof -
  have "''db'' @ itoa (int 3) = ''db3''" by code_simp
  moreover have "InclMetricsForEmptyDatabases (options demo_exporter)"
    by (simp add: demo_exporter_def demo_options_def)
  ultimately show ?thesis
    using every_database_reported [OF demo_env_checks demo_env_accepts demo_env_ranges demo_info_ok inv_start,
        where i = 3 and dbCount = 16 and e = demo_exporter] by simp
qed

text \<open>What the fields of the reply are, without the machinery: the lines that are fields, and the
  last value of each name.\<close>

definition info_fields :: "string \<Rightarrow> (string \<times> string) list" where
  "info_fields info =
     List.map_filter (\<lambda>line. case classify line of Field k v \<Rightarrow> Some (k, v) | _ \<Rightarrow> None)
       (go_split info [CHR 0x0A])"

definition last_value :: "(string \<times> string) list \<Rightarrow> string \<Rightarrow> string" where
  "last_value fs k = (case filter (\<lambda>f. fst f = k) (rev fs) of [] \<Rightarrow> [] | f # _ \<Rightarrow> snd f)"

definition note_line :: "(string \<times> string) list \<Rightarrow> string \<Rightarrow> (string \<times> string) list" where
  "note_line m line = (case classify line of Field k v \<Rightarrow> put k v m | _ \<Rightarrow> m)"

lemma returns_info_step: "returns (info_step env e st line) (\<lambda>st'. keyValues st' = note_line (keyValues st) line)"
proof (cases "classify line")
  case (Field k v)
  have "returns (info_field env e st k v) (\<lambda>st'. keyValues st' = put k v (keyValues st))"
    unfolding info_field_def Let_def by (intro returns_rules) (simp_all add: note_field_def)
  with Field show ?thesis by (simp add: info_step_def note_line_def)
qed (simp_all add: info_step_def note_line_def returns_ret)

lemma note_lines: "foldl note_line m lines =
    foldl (\<lambda>m (k, v). put k v m) m
      (List.map_filter (\<lambda>line. case classify line of Field k v \<Rightarrow> Some (k, v) | _ \<Rightarrow> None) lines)"
  by (induction lines arbitrary: m)
    (simp_all add: List.map_filter_simps note_line_def split: info_line.split)

lemma last_put: "get_or [] (foldl (\<lambda>m (k, v). put k v m) [] fs) k = last_value fs k"
proof (induction fs rule: rev_induct)
  case Nil
  show ?case by (simp add: get_or_def last_value_def)
next
  case (snoc f fs)
  obtain k' v where "f = (k', v)" by (cases f)
  with snoc show ?case by (auto simp: get_or_def last_value_def)
qed

text \<open>the role the scrape goes by (it decides whether keys are checked) is the last value of the
  field \<open>role\<close> of the reply, in whatever section it stands, and empty without one.\<close>

theorem extractInfoMetrics_role:
  assumes "extractInfoMetrics env e info dbCount w = Fine (role, w')"
  shows "role = last_value (info_fields info) ''role''"
proof -
  have lines: "returns (for_fold (info_step env e) info_start (go_split info [CHR 0x0A]))
      (\<lambda>st. keyValues st = foldl note_line (keyValues info_start) (go_split info [CHR 0x0A]))"
    by (rule returns_for_fold) (rule returns_info_step)
  have "returns (instanceInfo env e kv) (\<lambda>r. r = get_or [] kv ''role'')" for kv
    unfolding instanceInfo_def Let_def by (intro returns_rules) simp
  then have "returns (extractInfoMetrics env e info dbCount)
      (\<lambda>r. r = get_or [] (foldl note_line [] (go_split info [CHR 0x0A])) ''role'')"
    unfolding extractInfoMetrics_def
    by (intro returns_bnd [OF lines] returns_andthen) (simp add: info_start_def)
  from returnsD [OF this assms] show ?thesis
    by (simp add: note_lines info_fields_def last_put)
qed

theorem extractInfoMetrics_role_witness:
  "\<exists>w'. extractInfoMetrics demo_env demo_exporter demo_info 16 (start_world demo_exporter []) =
     Fine (''slave'', w')"
proof -
  obtain role w' where r: "extractInfoMetrics demo_env demo_exporter demo_info 16
      (start_world demo_exporter []) = Fine (role, w')"
    using finishes_Fine [OF finishes_info(1) keeps_extractInfoMetrics
        [OF demo_env_checks demo_env_accepts demo_env_ranges demo_info_ok] inv_start] by blast
  moreover have "last_value (info_fields demo_info) ''role'' = ''slave''" by code_simp
  ultimately show ?thesis using extractInfoMetrics_role [OF r] by simp
qed

section \<open>Replies that end the process\<close>

text \<open>a latency field with an empty name before the equals sign ends the process: the code
  drops the first letter of the name without looking whether there is one.\<close>

theorem latency_empty_name_panics:
  assumes "plain v"
  shows "handleMetricsLatencyStats (''latency_percentiles_usec_'' @ cmd) (''='' @ v) m w =
    Panic ''slice bounds out of range''"
proof -
  have "go_split (''='' @ v) '','' = [''='' @ v]" "go_split (''='' @ v) ''='' = [[], v]"
    using assms split_none [of "CHR '',''" "''='' @ v"] split_append [of "CHR ''=''" "[]" v]
    by (auto simp: plain_def split_none)
  moreover have "has_prefix (''latency_percentiles_usec_'' @ cmd) ''latency_percentiles_usec_''"
    by (rule has_prefix_append)
  ultimately show ?thesis
    unfolding handleMetricsLatencyStats_def parseMetricsLatencyStats_def
    by (simp add: extractPercentileVal_def panic_def del: go_split.simps)
qed

theorem latency_empty_name_panics_witness:
  "handleMetricsLatencyStats ''latency_percentiles_usec_get'' ''=1'' [] (start_world demo_exporter ()) =
     Panic ''slice bounds out of range''"
  using latency_empty_name_panics [of "''1''" "''get''" "[]" "start_world demo_exporter ()"]
  by (simp add: plain_def)

text \<open>a replication field that starts like one of the directly exported ones but goes on (for
  example \<open>slave_repl_offset_lag\<close>) ends the process: the patterns are not anchored at the end, and
  the metric name they let through has no description.\<close>

theorem unknown_replication_field_panics:
  assumes "reMasterDirect k" and "\<not> reMasterLinkStatus k" and "descs w (direct_metric k) = None"
  shows "handleMetricsReplication env e mh mp k v w =
    Panic (''couldn't find metric description for '' @ direct_metric k)"
  using assms by (simp add: handleMetricsReplication_def registerConstMetricGauge_def
      registerConstMetric_def mustFindMetricDescription_def prog_defs)

theorem unknown_replication_field_panics_witness:
  "handleMetricsReplication demo_env demo_exporter ''h'' ''1'' ''slave_repl_offset_lag'' ''3''
     (start_world demo_exporter []) =
   Panic ''couldn't find metric description for slave_repl_offset_lag''"
proof -
  have "reMasterDirect ''slave_repl_offset_lag''" "\<not> reMasterLinkStatus ''slave_repl_offset_lag''"
    "direct_metric ''slave_repl_offset_lag'' = ''slave_repl_offset_lag''"
    "map_of catalogue ''slave_repl_offset_lag'' = None"
    by code_simp+
  then show ?thesis
    using unknown_replication_field_panics [of "''slave_repl_offset_lag''" "start_world demo_exporter []"]
    by (simp add: initial_descs_None)
qed

end
