(* ===== verification/Latency.thy ===== *)
theory Latency
  imports Info
begin

text \<open>
  Latency metrics (\<open>exporter/latency.go\<close>): the latest spikes per event, and a histogram per
  command, whose sum is taken from the command statistics of the INFO reply.
\<close>

section \<open>Scanned values\<close>

definition scan_int :: "scanned list \<Rightarrow> nat \<Rightarrow> int" where
  "scan_int vs i = (case index vs i of Some (SInt n) \<Rightarrow> n | _ \<Rightarrow> 0)"

definition scan_string :: "scanned list \<Rightarrow> nat \<Rightarrow> string" where
  "scan_string vs i = (case index vs i of Some (SString s) \<Rightarrow> s | _ \<Rightarrow> [])"

definition scan_uints :: "scanned list \<Rightarrow> nat \<Rightarrow> int list" where
  "scan_uints vs i = (case index vs i of Some (SUints ns) \<Rightarrow> ns | _ \<Rightarrow> [])"

section \<open>Time spent per command\<close>

text \<open>The regular expression \<open>(?m)^cmdstat_([a-zA-Z0-9\\|]+):.*usec=([0-9]+).*$\<close> on one line: the
  name, and the digits after the last \<open>usec=\<close> that is followed by a digit.\<close>

definition command_char :: "char \<Rightarrow> bool" where
  "command_char c \<longleftrightarrow>
     (97 \<le> byte c \<and> byte c \<le> 122) \<or> (65 \<le> byte c \<and> byte c \<le> 90) \<or> is_digit c \<or> c = CHR ''|''"

fun last_usec :: "string \<Rightarrow> string option" where
  "last_usec [] = None"
| "last_usec (c # cs) =
     (case last_usec cs of
        Some ds \<Rightarrow> Some ds
      | None \<Rightarrow>
          (let ds = takeWhile is_digit (drop 4 cs) in
           if has_prefix (c # cs) ''usec='' \<and> ds \<noteq> [] then Some ds else None))"

definition usec_match :: "string \<Rightarrow> (string \<times> string) option" where
  "usec_match line =
     (if \<not> has_prefix line ''cmdstat_'' then None
      else
        let name = takeWhile command_char (drop 8 line); r = drop (length name) (drop 8 line)
        in if name = [] \<or> \<not> has_prefix r '':'' then None
           else map_option (Pair name) (last_usec (tl r)))"

definition add_usec :: "string \<Rightarrow> int \<Rightarrow> string \<times> string \<Rightarrow> int" where
  "add_usec cmd acc m =
     (if \<not> has_prefix (fst m) cmd then acc
      else case parse_uint (snd m) of
          (_, Some err) \<Rightarrow> acc
        | (usecs, None) \<Rightarrow> wrapu64 (acc + usecs))"

definition extractTotalUsecForCommand :: "string \<Rightarrow> string \<Rightarrow> int" where
  "extractTotalUsecForCommand infoAll cmd =
     foldl (add_usec cmd) 0 (List.map_filter usec_match (go_split infoAll [CHR 0x0A]))"

section \<open>Latest spikes\<close>

definition latencySpike :: "'c env \<Rightarrow> Exporter \<Rightarrow> reply \<Rightarrow> ('c, unit) io" where
  "latencySpike env e l =
     (case redis_Values env (Inr l) of
        Inl err \<Rightarrow> skip
      | Inr latencyResult \<Rightarrow>
          (case redis_Scan env latencyResult [StringDest, IntDest, IntDest, IntDest] of
             Inl err \<Rightarrow> skip
           | Inr vs \<Rightarrow>
               andthen
                 (registerConstMetricGauge env e ''latency_spike_last''
                    (f64_of_int (scan_int vs 1)) [scan_string vs 0])
                 (registerConstMetricGauge env e ''latency_spike_duration_seconds''
                    (f64_div (f64_of_int (scan_int vs 2)) (f64_of_int 1000)) [scan_string vs 0])))"

definition extractLatencyLatestMetrics :: "'c env \<Rightarrow> Exporter \<Rightarrow> conn \<Rightarrow> ('c, unit) io" where
  "extractLatencyLatestMetrics env e c =
     bnd (doRedisCmd env c [AStr ''LATENCY'', AStr ''LATEST'']) (\<lambda>r. case redis_Values env r of
         Inl err \<Rightarrow> skip
       | Inr reply \<Rightarrow> for_each (latencySpike env e) reply)"

section \<open>Histograms\<close>

text \<open>The flat list of bounds and counts as a map; \<open>None\<close> when the last bound has no count, which
  is an index out of range.\<close>

fun buckets_of :: "(f64 \<times> int) list \<Rightarrow> int list \<Rightarrow> (f64 \<times> int) list option" where
  "buckets_of m [] = Some m"
| "buckets_of m [usec] = None"
| "buckets_of m (usec # cnt # rest) = buckets_of (put_float (f64_of_int usec) cnt m) rest"

fun latencyHistograms ::
  "'c env \<Rightarrow> Exporter \<Rightarrow> string \<Rightarrow> reply list \<Rightarrow> ('c, unit) io" where
  "latencyHistograms env e infoAll [] = skip"
| "latencyHistograms env e infoAll [cmd] = panic ''index out of range''"
| "latencyHistograms env e infoAll (cmd # details # rest) =
     (case redis_Scan env (values_or_nil env details) [SkipDest, UintDest, SkipDest, UintsDest] of
        Inl err \<Rightarrow> skip
      | Inr vs \<Rightarrow>
          (case buckets_of [] (scan_uints vs 3) of
             None \<Rightarrow> panic ''index out of range''
           | Some buckets \<Rightarrow>
               let name = string_or_empty env (Inr cmd) in
               block
                 [describe e ''commands_latencies_usec'' [''cmd''],
                  registerConstHistogram env e ''commands_latencies_usec'' (scan_int vs 1)
                    (f64_of_int (extractTotalUsecForCommand infoAll name)) buckets [name],
                  latencyHistograms env e infoAll rest]))"

definition extractLatencyHistogramMetrics ::
  "'c env \<Rightarrow> Exporter \<Rightarrow> string \<Rightarrow> conn \<Rightarrow> ('c, unit) io" where
  "extractLatencyHistogramMetrics env e infoAll c =
     bnd (doRedisCmd env c [AStr ''LATENCY'', AStr ''HISTOGRAM'']) (\<lambda>r. case redis_Values env r of
         Inl err \<Rightarrow> skip
       | Inr reply \<Rightarrow> latencyHistograms env e infoAll reply)"

definition extractLatencyMetrics :: "'c env \<Rightarrow> Exporter \<Rightarrow> string \<Rightarrow> conn \<Rightarrow> ('c, unit) io" where
  "extractLatencyMetrics env e infoAll c =
     andthen (extractLatencyLatestMetrics env e c) (extractLatencyHistogramMetrics env e infoAll c)"

section \<open>Facts\<close>

text \<open>The readable times of the lines whose command name starts with a given string.\<close>

definition usecs_with_prefix :: "string \<Rightarrow> string \<Rightarrow> int list" where
  "usecs_with_prefix infoAll p =
     List.map_filter (\<lambda>m. if has_prefix (fst m) p \<and> snd (parse_uint (snd m)) = None
                          then Some (fst (parse_uint (snd m))) else None)
       (List.map_filter usec_match (go_split infoAll [CHR 0x0A]))"

lemma add_usecs:
  "foldl (add_usec p) (wrapu64 a) ms =
     wrapu64 (a + sum_list (List.map_filter (\<lambda>m. if has_prefix (fst m) p \<and> snd (parse_uint (snd m)) = None
                          then Some (fst (parse_uint (snd m))) else None) ms))"
proof (induction ms arbitrary: a)
  case Nil
  show ?case by (simp add: List.map_filter_simps)
next
  case (Cons m ms)
  obtain n err where p: "parse_uint (snd m) = (n, err)" by (cases "parse_uint (snd m)")
  have "wrapu64 (wrapu64 a + n) = wrapu64 (a + n)" by (simp add: wrapu64_def mod_add_left_eq)
  with Cons [of a] Cons [of "a + n"] p show ?case
    by (cases err) (simp_all add: add_usec_def List.map_filter_simps add.assoc)
qed

text \<open>the time reported for a command is the 64-bit sum over all commands whose name starts with
  the command's name. For \<open>config\<close> these are its subcommands, but for \<open>get\<close> they include
  \<open>getex\<close>, \<open>getrange\<close> and every other command that happens to begin with these letters.\<close>

theorem total_usec_by_prefix:
  "extractTotalUsecForCommand infoAll cmd = wrapu64 (sum_list (usecs_with_prefix infoAll cmd))"
  using add_usecs [of cmd 0 "List.map_filter usec_match (go_split infoAll [CHR 0x0A])"]
  by (simp add: extractTotalUsecForCommand_def usecs_with_prefix_def wrapu64_def)

text \<open>An example: the time of \<open>getrange\<close> is counted for \<open>get\<close>.\<close>

lemma total_usec_counts_other_commands:
  "extractTotalUsecForCommand
     (''cmdstat_get:calls=1,usec=2,usec_per_call=2.00'' @ CHR 0x0A #
      ''cmdstat_getrange:calls=1,usec=50,usec_per_call=50.00'') ''get'' = 52"
  by code_simp

text \<open>What the exporter relies on about LATENCY HISTOGRAM: names and details alternate, the names
  are plain ASCII, and so do bounds and counts.\<close>

definition histogram_pairs_ok :: "'c env \<Rightarrow> reply list \<Rightarrow> bool" where
  "histogram_pairs_ok env rs \<longleftrightarrow>
     length rs mod 2 = 0 \<and>
     (\<forall>r \<in> set rs. ascii (string_or_empty env (Inr r)) \<and>
        (\<forall>vs. redis_Scan env (values_or_nil env r) [SkipDest, UintDest, SkipDest, UintsDest] = Inr vs \<longrightarrow>
           length (scan_uints vs 3) mod 2 = 0))"

definition histograms_ok :: "'c env \<Rightarrow> bool" where
  "histograms_ok env \<longleftrightarrow>
     (\<forall>c n rs. redis_Values env (fst (conn_do env c [AStr ''LATENCY'', AStr ''HISTOGRAM''] n)) = Inr rs \<longrightarrow>
        histogram_pairs_ok env rs)"

lemma buckets_of_even: "length ns mod 2 = 0 \<Longrightarrow> buckets_of m ns \<noteq> None"
  by (induction m ns rule: buckets_of.induct) auto

lemma keeps_latencyHistograms:
  "prom_accepts_ascii env \<Longrightarrow> histogram_pairs_ok env rs \<Longrightarrow>
   keeps (inv e N) (latencyHistograms env e infoAll rs)"
proof (induction env e infoAll rs rule: latencyHistograms.induct)
  case (1 env e infoAll)
  show ?case by (simp add: keeps_skip)
next
  case (2 env e infoAll cmd)
  then show ?case by (simp add: histogram_pairs_ok_def)
next
  case (3 env e infoAll cmd details rest)
  from 3(3) have ok: "histogram_pairs_ok env rest" "ascii (string_or_empty env (Inr cmd))"
    and even: "\<And>vs. redis_Scan env (values_or_nil env details) [SkipDest, UintDest, SkipDest, UintsDest] = Inr vs
        \<Longrightarrow> length (scan_uints vs 3) mod 2 = 0"
    by (auto simp: histogram_pairs_ok_def)
  show ?case
    unfolding latencyHistograms.simps Let_def
  proof (intro holds_case_sum keeps_skip holds_case_option)
    fix vs
    assume v: "redis_Scan env (values_or_nil env details) [SkipDest, UintDest, SkipDest, UintsDest] = Inr vs"
    {
      assume "buckets_of [] (scan_uints vs 3) = None"
      with buckets_of_even [OF even [OF v], of "[]"] show "keeps (inv e N) (panic ''index out of range'')"
        by simp
    }
    fix buckets
    assume "buckets_of [] (scan_uints vs 3) = Some buckets"
    with 3(1) [OF v, of buckets] 3(2) ok(1) have "keeps (inv e N) (latencyHistograms env e infoAll rest)"
      by simp
    then show "keeps (inv e N) (block
        [describe e ''commands_latencies_usec'' [''cmd''],
         registerConstHistogram env e ''commands_latencies_usec'' (scan_int vs 1)
           (f64_of_int (extractTotalUsecForCommand infoAll (string_or_empty env (Inr cmd)))) buckets
           [string_or_empty env (Inr cmd)],
         latencyHistograms env e infoAll rest])"
      using 3(2) ok(2)
      by (intro keeps_block)
        (auto intro: keeps_describe keeps_registerConstHistogram [OF _ _ catalogue_cmd_metrics(2)])
  qed
qed

lemma keeps_extractLatencyMetrics [hoare_rules]:
  assumes "prom_checks_labels env" and "prom_accepts_ascii env" and "histograms_ok env"
  shows "keeps (inv e N) (extractLatencyMetrics env e infoAll c)"
proof -
  have "keeps (inv e N) (extractLatencyHistogramMetrics env e infoAll c)"
    unfolding extractLatencyHistogramMetrics_def
  proof (rule holds_reply [where Q = "\<lambda>r. \<forall>rs. redis_Values env r = Inr rs \<longrightarrow> histogram_pairs_ok env rs"])
    fix n
    show "\<forall>rs. redis_Values env (fst (conn_do env c [AStr ''LATENCY'', AStr ''HISTOGRAM''] n)) = Inr rs \<longrightarrow>
        histogram_pairs_ok env rs"
      using assms(3) unfolding histograms_ok_def by blast
  qed (use assms(2) in \<open>auto intro!: holds_case_sum keeps_skip keeps_latencyHistograms\<close>)
  moreover have "keeps (inv e N) (extractLatencyLatestMetrics env e c)"
    unfolding extractLatencyLatestMetrics_def latencySpike_def using assms(1)
    by (intro hoare_rules) simp_all
  ultimately show ?thesis
    unfolding extractLatencyMetrics_def by (intro holds_andthen_keeps)
qed

lemma finishes_latencyHistograms [finish_rules]: "finishes (latencyHistograms env e infoAll rs)"
  by (induction env e infoAll rs rule: latencyHistograms.induct)
    (auto simp: Let_def finish_rules split: sum.splits option.splits)

lemma finishes_extractLatencyMetrics [finish_rules]: "finishes (extractLatencyMetrics env e infoAll c)"
  unfolding extractLatencyMetrics_def extractLatencyLatestMetrics_def latencySpike_def
    extractLatencyHistogramMetrics_def
  by (intro finish_rules)

end
