(* ===== verification/Streams.thy ===== *)
theory Streams
  imports Keys
begin

text \<open>
  Streams (\<open>exporter/streams.go\<close>): the stream, its consumer groups and their consumers, read
  with XINFO, and their metrics.
\<close>

section \<open>The structures and their reply fields\<close>

record streamGroupConsumersInfo =
  sc_Name :: string
  sc_Pending :: int
  sc_Idle :: int

record streamGroupsInfo =
  sg_Name :: string
  sg_Consumers :: int
  sg_Pending :: int
  sg_LastDeliveredId :: string
  sg_EntriesRead :: int
  sg_Lag :: int
  sg_ConsumersInfo :: "streamGroupConsumersInfo list"

record streamInfo =
  si_Length :: int
  si_RadixTreeKeys :: int
  si_RadixTreeNodes :: int
  si_LastGeneratedId :: string
  si_Groups :: int
  si_MaxDeletedEntryId :: string
  si_FirstEntryId :: string
  si_LastEntryId :: string
  si_GroupsInfo :: "streamGroupsInfo list"

text \<open>The tags \<open>redis.ScanStruct\<close> looks for.\<close>

definition stream_tags :: "(string \<times> dest) list" where
  "stream_tags =
     [(''length'', IntDest), (''radix-tree-keys'', IntDest), (''radix-tree-nodes'', IntDest),
      (''last-generated-id'', StringDest), (''groups'', IntDest), (''max-deleted-entry-id'', StringDest)]"

definition group_tags :: "(string \<times> dest) list" where
  "group_tags =
     [(''name'', StringDest), (''consumers'', IntDest), (''pending'', IntDest),
      (''last-delivered-id'', StringDest), (''entries-read'', IntDest), (''lag'', IntDest)]"

definition consumer_tags :: "(string \<times> dest) list" where
  "consumer_tags = [(''name'', StringDest), (''pending'', IntDest), (''idle'', IntDest)]"

section \<open>Entry ids\<close>

text \<open>The id in the value at an index: \<open>None\<close> when the index is out of range, the empty string when
  the value is not an entry.\<close>

definition getStreamEntryId :: "reply list \<Rightarrow> nat \<Rightarrow> string option" where
  "getStreamEntryId redisValue i =
     (case index redisValue i of
        None \<Rightarrow> None
      | Some (RArray (RBytes entryId # _ # _)) \<Rightarrow> Some entryId
      | Some _ \<Rightarrow> Some [])"

text \<open>The ids of the first and the last entry, in the loop over the values of the reply.\<close>

fun entry_ids :: "reply list \<Rightarrow> string \<times> string \<Rightarrow> (nat \<times> reply) list \<Rightarrow> (string \<times> string) option"
where
  "entry_ids values ids [] = Some ids"
| "entry_ids values (firstId, lastId) ((idx, v) # rest) =
     (if v = RBytes ''first-entry'' then
        (case getStreamEntryId values (Suc idx) of
           None \<Rightarrow> None
         | Some entryId \<Rightarrow> entry_ids values (entryId, lastId) rest)
      else if v = RBytes ''last-entry'' then
        (case getStreamEntryId values (Suc idx) of
           None \<Rightarrow> None
         | Some entryId \<Rightarrow> entry_ids values (firstId, entryId) rest)
      else entry_ids values (firstId, lastId) rest)"

definition parseStreamItemId :: "string \<Rightarrow> f64" where
  "parseStreamItemId itemId =
     (if trim_space itemId = [] then f64_zero
      else fst (parse_float (hd (go_split itemId ''-''))))"

section \<open>Reading a stream\<close>

definition scan_consumer :: "'c env \<Rightarrow> reply \<Rightarrow> streamGroupConsumersInfo option" where
  "scan_consumer env c =
     (case redis_Values env (Inr c) of
        Inl err \<Rightarrow> None
      | Inr v \<Rightarrow>
          (case redis_ScanStruct env v consumer_tags of
             Inl err \<Rightarrow> None
           | Inr m \<Rightarrow> Some \<lparr>sc_Name = string_field m ''name'', sc_Pending = int_field m ''pending'',
                           sc_Idle = int_field m ''idle''\<rparr>))"

definition scanStreamGroupConsumers ::
  "'c env \<Rightarrow> conn \<Rightarrow> string \<Rightarrow> string \<Rightarrow> ('c, streamGroupConsumersInfo list goresult) io" where
  "scanStreamGroupConsumers env c stream grp =
     bnd (doRedisCmd env c [AStr ''XINFO'', AStr ''CONSUMERS'', AStr stream, AStr grp]) (\<lambda>r.
       case redis_Values env r of
         Inl err \<Rightarrow> ret (Inl err)
       | Inr consumers \<Rightarrow> ret (Inr (List.map_filter (scan_consumer env) consumers)))"

definition scan_group :: "'c env \<Rightarrow> reply \<Rightarrow> streamGroupsInfo option" where
  "scan_group env g =
     (case redis_Values env (Inr g) of
        Inl err \<Rightarrow> None
      | Inr v \<Rightarrow>
          (case redis_ScanStruct env v group_tags of
             Inl err \<Rightarrow> None
           | Inr m \<Rightarrow> Some \<lparr>sg_Name = string_field m ''name'', sg_Consumers = int_field m ''consumers'',
               sg_Pending = int_field m ''pending'', sg_LastDeliveredId = string_field m ''last-delivered-id'',
               sg_EntriesRead = int_field m ''entries-read'', sg_Lag = int_field m ''lag'',
               sg_ConsumersInfo = []\<rparr>))"

fun stream_groups ::
  "'c env \<Rightarrow> conn \<Rightarrow> string \<Rightarrow> streamGroupsInfo list \<Rightarrow> reply list
   \<Rightarrow> ('c, streamGroupsInfo list goresult) io" where
  "stream_groups env c stream result [] = ret (Inr result)"
| "stream_groups env c stream result (g # gs) =
     (case scan_group env g of
        None \<Rightarrow> stream_groups env c stream result gs
      | Some grp \<Rightarrow>
          bnd (scanStreamGroupConsumers env c stream (sg_Name grp)) (\<lambda>r. case r of
              Inl err \<Rightarrow> ret (Inl err)
            | Inr consumers \<Rightarrow>
                stream_groups env c stream (result @ [grp\<lparr>sg_ConsumersInfo := consumers\<rparr>]) gs))"

definition scanStreamGroups ::
  "'c env \<Rightarrow> conn \<Rightarrow> string \<Rightarrow> ('c, streamGroupsInfo list goresult) io" where
  "scanStreamGroups env c stream =
     bnd (doRedisCmd env c [AStr ''XINFO'', AStr ''GROUPS'', AStr stream]) (\<lambda>r.
       case redis_Values env r of
         Inl err \<Rightarrow> ret (Inl err)
       | Inr groups \<Rightarrow> stream_groups env c stream [] groups)"

definition getStreamInfo :: "'c env \<Rightarrow> conn \<Rightarrow> string \<Rightarrow> ('c, streamInfo goresult) io" where
  "getStreamInfo env c key =
     bnd (doRedisCmd env c [AStr ''XINFO'', AStr ''STREAM'', AStr key]) (\<lambda>r. case redis_Values env r of
         Inl err \<Rightarrow> ret (Inl err)
       | Inr values \<Rightarrow>
           (case redis_ScanStruct env values stream_tags of
              Inl err \<Rightarrow> ret (Inl err)
            | Inr m \<Rightarrow>
                (case entry_ids values ([], []) (indexed 0 values) of
                   None \<Rightarrow> panic ''index out of range''
                 | Some (firstId, lastId) \<Rightarrow>
                     bnd (scanStreamGroups env c key) (\<lambda>g. case g of
                         Inl err \<Rightarrow> ret (Inl err)
                       | Inr groups \<Rightarrow>
                           ret (Inr \<lparr>si_Length = int_field m ''length'',
                             si_RadixTreeKeys = int_field m ''radix-tree-keys'',
                             si_RadixTreeNodes = int_field m ''radix-tree-nodes'',
                             si_LastGeneratedId = string_field m ''last-generated-id'',
                             si_Groups = int_field m ''groups'',
                             si_MaxDeletedEntryId = string_field m ''max-deleted-entry-id'',
                             si_FirstEntryId = firstId, si_LastEntryId = lastId,
                             si_GroupsInfo = groups\<rparr>)))))"

section \<open>The metrics of a stream\<close>

definition registerConsumer ::
  "'c env \<Rightarrow> Exporter \<Rightarrow> string list \<Rightarrow> streamGroupConsumersInfo \<Rightarrow> ('c, unit) io" where
  "registerConsumer env e labels c =
     block
       [registerConstMetricGauge env e ''stream_group_consumer_messages_pending''
          (f64_of_int (sc_Pending c)) (labels @ [sc_Name c]),
        registerConstMetricGauge env e ''stream_group_consumer_idle_seconds''
          (f64_div (f64_of_int (sc_Idle c)) (f64_of_int 1000)) (labels @ [sc_Name c])]"

definition registerGroup ::
  "'c env \<Rightarrow> Exporter \<Rightarrow> string list \<Rightarrow> streamGroupsInfo \<Rightarrow> ('c, unit) io" where
  "registerGroup env e labels g =
     (let ls = labels @ [sg_Name g] in
      block
        [registerConstMetricGauge env e ''stream_group_consumers'' (f64_of_int (sg_Consumers g)) ls,
         registerConstMetricGauge env e ''stream_group_messages_pending'' (f64_of_int (sg_Pending g)) ls,
         registerConstMetricGauge env e ''stream_group_last_delivered_id''
           (parseStreamItemId (sg_LastDeliveredId g)) ls,
         registerConstMetricGauge env e ''stream_group_entries_read'' (f64_of_int (sg_EntriesRead g)) ls,
         registerConstMetricGauge env e ''stream_group_lag'' (f64_of_int (sg_Lag g)) ls,
         only_if (\<not> StreamsExcludeConsumerMetrics (options e))
           (for_each (registerConsumer env e ls) (sg_ConsumersInfo g))])"

definition registerStream ::
  "'c env \<Rightarrow> Exporter \<Rightarrow> string list \<Rightarrow> streamInfo \<Rightarrow> ('c, unit) io" where
  "registerStream env e ls info =
     block
       [registerConstMetricGauge env e ''stream_length'' (f64_of_int (si_Length info)) ls,
        registerConstMetricGauge env e ''stream_radix_tree_keys'' (f64_of_int (si_RadixTreeKeys info)) ls,
        registerConstMetricGauge env e ''stream_radix_tree_nodes'' (f64_of_int (si_RadixTreeNodes info)) ls,
        registerConstMetricGauge env e ''stream_last_generated_id''
          (parseStreamItemId (si_LastGeneratedId info)) ls,
        registerConstMetricGauge env e ''stream_groups'' (f64_of_int (si_Groups info)) ls,
        registerConstMetricGauge env e ''stream_max_deleted_entry_id''
          (parseStreamItemId (si_MaxDeletedEntryId info)) ls,
        registerConstMetricGauge env e ''stream_first_entry_id''
          (parseStreamItemId (si_FirstEntryId info)) ls,
        registerConstMetricGauge env e ''stream_last_entry_id''
          (parseStreamItemId (si_LastEntryId info)) ls,
        for_each (registerGroup env e ls) (si_GroupsInfo info)]"

definition streamMetrics :: "'c env \<Rightarrow> Exporter \<Rightarrow> conn \<Rightarrow> dbKeyPair \<Rightarrow> ('c, unit) io" where
  "streamMetrics env e c k =
     bnd (doRedisCmd env c [AStr ''SELECT'', AStr (db_of k)]) (\<lambda>r. case r of
         Inl err \<Rightarrow> skip
       | Inr _ \<Rightarrow>
           bnd (getStreamInfo env c (key_of k)) (\<lambda>r. case r of
               Inl err \<Rightarrow> skip
             | Inr info \<Rightarrow> registerStream env e [''db'' @ db_of k, key_of k] info))"

definition extractStreamMetrics :: "'c env \<Rightarrow> Exporter \<Rightarrow> conn \<Rightarrow> ('c, unit) io" where
  "extractStreamMetrics env e c =
     (case parseKeyArg (CheckStreams (options e)) of
        Inl err \<Rightarrow> skip
      | Inr streams \<Rightarrow>
          (case parseKeyArg (CheckSingleStreams (options e)) of
             Inl err \<Rightarrow> skip
           | Inr singleStreams \<Rightarrow>
               bnd (getKeysFromPatterns env c streams (CheckKeysBatchSize (options e))) (\<lambda>r.
                 for_each (streamMetrics env e c)
                   (singleStreams @ (case r of Inl err \<Rightarrow> [] | Inr scannedStreams \<Rightarrow> scannedStreams)))))"

section \<open>Facts\<close>

text \<open>the numeric value of an entry id \<open><milliseconds>-<sequence>\<close> is its time part, whatever the
  sequence number is.\<close>

theorem parseStreamItemId_time:
  assumes "CHR ''-'' \<notin> set ms" and "parse_float ms = (x, None)" and "trim_space (ms @ CHR ''-'' # sq) \<noteq> []"
  shows "parseStreamItemId (ms @ CHR ''-'' # sq) = x"
  using assms by (simp add: parseStreamItemId_def split_append)

theorem parseStreamItemId_time_witness:
  "parseStreamItemId ''1638006862416-0'' = f64_of_int 1638006862416"
proof -
  have "parse_float ''1638006862416'' = (f64_of_int 1638006862416, None)" by code_simp
  moreover have "trim_space ''1638006862416-0'' \<noteq> []" by code_simp
  ultimately show ?thesis
    using parseStreamItemId_time [of "''1638006862416''" _ "''0''"] by simp
qed

text \<open>What the exporter relies on about XINFO STREAM: a name in the reply is followed by a value.\<close>

definition entries_followed :: "reply list \<Rightarrow> bool" where
  "entries_followed values \<longleftrightarrow>
     values = [] \<or> last values \<notin> {RBytes ''first-entry'', RBytes ''last-entry''}"

definition streams_ok :: "'c env \<Rightarrow> bool" where
  "streams_ok env \<longleftrightarrow>
     (\<forall>c n key values. redis_Values env (fst (conn_do env c [AStr ''XINFO'', AStr ''STREAM'', AStr key] n)) = Inr values
        \<longrightarrow> entries_followed values)"

lemma nth_indexed: "(i, v) \<in> set (indexed n xs) \<Longrightarrow> n \<le> i \<and> i < n + length xs \<and> xs ! (i - n) = v"
proof (induction xs arbitrary: n)
  case (Cons x xs)
  show ?case
  proof (cases "(i, v) = (n, x)")
    case False
    with Cons.prems have "(i, v) \<in> set (indexed (Suc n) xs)" by auto
    with Cons.IH [of "Suc n"] show ?thesis by (auto simp: nth_Cons')
  qed auto
qed simp

lemma entry_ids_some:
  assumes "entries_followed values"
  shows "\<forall>(i, v) \<in> set ivs. i < length values \<and> values ! i = v \<Longrightarrow> entry_ids values ids ivs \<noteq> None"
proof (induction ivs arbitrary: ids)
  case Nil
  then show ?case by (cases ids) simp
next
  case (Cons iv ivs)
  obtain i v where iv: "iv = (i, v)" by (cases iv)
  obtain a b where ids: "ids = (a, b)" by (cases ids)
  from Cons.prems iv have i: "i < length values" "values ! i = v" by auto
  have IH: "entry_ids values ids' ivs \<noteq> None" for ids' using Cons by simp
  have "getStreamEntryId values (Suc i) \<noteq> None" if "v = RBytes ''first-entry'' \<or> v = RBytes ''last-entry''"
  proof -
    have "Suc i < length values"
    proof (rule ccontr)
      assume "\<not> Suc i < length values"
      with i have "length values = Suc i" by simp
      moreover from this have "values \<noteq> []" by auto
      ultimately have "last values = values ! i" "values \<noteq> []" by (simp_all add: last_conv_nth)
      with assms that i show False by (auto simp: entries_followed_def)
    qed
    then show ?thesis
      by (auto simp: getStreamEntryId_def index_def split: reply.splits list.splits)
  qed
  with IH show ?case
    unfolding iv ids entry_ids.simps
    by (simp del: not_None_eq split: option.split) blast
qed

lemma keeps_scanStreamGroups [hoare_rules]: "keeps (inv e N) (scanStreamGroups env c key)"
proof -
  have "keeps (inv e N) (stream_groups env c key result gs)" for result gs
    by (induction gs arbitrary: result)
      (auto simp: scanStreamGroupConsumers_def intro!: hoare_rules split: option.splits)
  then show ?thesis unfolding scanStreamGroups_def by (intro hoare_rules)
qed

lemma keeps_getStreamInfo [hoare_rules]:
  assumes "streams_ok env"
  shows "keeps (inv e N) (getStreamInfo env c key)"
proof -
  have found: "entry_ids vals ([], []) (indexed 0 vals) \<noteq> None" if "entries_followed vals" for vals
    using that by (intro entry_ids_some) (auto dest: nth_indexed)
  show ?thesis
    unfolding getStreamInfo_def
  proof (rule holds_reply [where Q = "\<lambda>r. \<forall>vals. redis_Values env r = Inr vals \<longrightarrow> entries_followed vals"])
    fix n
    show "\<forall>vals. redis_Values env (fst (conn_do env c [AStr ''XINFO'', AStr ''STREAM'', AStr key] n)) = Inr vals
        \<longrightarrow> entries_followed vals"
      using assms unfolding streams_ok_def by blast
  qed (intro hoare_rules, use found in simp)
qed

lemma keeps_registerStream [hoare_rules]:
  assumes "prom_checks_labels env"
  shows "keeps (inv e N) (registerStream env e ls info)"
proof -
  have "keeps (inv e N) (registerConsumer env e ls c)" for ls c
    unfolding registerConsumer_def using assms
    by (intro keeps_block) (auto intro!: keeps_gauge)
  then have "keeps (inv e N) (registerGroup env e ls g)" for ls g
    unfolding registerGroup_def Let_def using assms
    by (intro keeps_block) (auto intro!: keeps_gauge keeps_only_if keeps_for_each)
  then show ?thesis
    unfolding registerStream_def using assms
    by (intro keeps_block) (auto intro!: keeps_gauge keeps_for_each)
qed

lemma keeps_extractStreamMetrics [hoare_rules]:
  "prom_checks_labels env \<Longrightarrow> streams_ok env \<Longrightarrow> keeps (inv e N) (extractStreamMetrics env e c)"
  unfolding extractStreamMetrics_def streamMetrics_def getKeysFromPatterns_def
  by (intro hoare_rules)

end
