(* ===== verification/Extractors.thy ===== *)
theory Extractors
  imports Info
begin

text \<open>
  The smaller collectors: the slow log (\<open>exporter/slowlog.go\<close>), Lua scripts
  (\<open>exporter/lua.go\<close>), modules (\<open>exporter/modules.go\<close>), Tile38 (\<open>exporter/tile38.go\<close>), search
  indexes (\<open>exporter/search_indexes.go\<close>), and the parser of CLUSTER NODES (\<open>exporter/nodes.go\<close>).
\<close>

section \<open>Slow log\<close>

text \<open>The values of the last entry: \<open>None\<close> when a type assertion panics.\<close>

definition last_slow_entry :: "reply list \<Rightarrow> (int \<times> f64) option" where
  "last_slow_entry entry =
     (case entry of
        [] \<Rightarrow> Some (0, f64_zero)
      | RInt slowlogLastID # rest \<Rightarrow>
          (if length entry > 2 then
             (case entry ! 2 of
                RInt usec \<Rightarrow> Some (slowlogLastID, f64_div (f64_of_int usec) (f64_of_int 1000000))
              | _ \<Rightarrow> None)
           else Some (slowlogLastID, f64_zero))
      | _ \<Rightarrow> None)"

definition extractSlowLogMetrics :: "'c env \<Rightarrow> Exporter \<Rightarrow> conn \<Rightarrow> ('c, unit) io" where
  "extractSlowLogMetrics env e c =
     bnd (doRedisCmd env c [AStr ''SLOWLOG'', AStr ''LEN'']) (\<lambda>l.
     andthen
       (case redis_Int64 env l of
          Inr reply \<Rightarrow> registerConstMetricGauge env e ''slowlog_length'' (f64_of_int reply) []
        | Inl err \<Rightarrow> skip)
     (bnd (doRedisCmd env c [AStr ''SLOWLOG'', AStr ''GET'', AStr ''1'']) (\<lambda>r.
       case redis_Values env r of
         Inl err \<Rightarrow> skip
       | Inr entries \<Rightarrow>
           (let entry = (case entries of [] \<Rightarrow> [] | e # _ \<Rightarrow> values_or_nil env e) in
            case last_slow_entry entry of
              None \<Rightarrow> panic ''interface conversion''
            | Some (slowlogLastID, lastDuration) \<Rightarrow>
                block
                  [registerConstMetricGauge env e ''slowlog_last_id'' (f64_of_int slowlogLastID) [],
                   registerConstMetricGauge env e ''last_slow_execution_duration_seconds''
                     lastDuration []]))))"

section \<open>Lua scripts\<close>

definition parse_float_error :: "string \<Rightarrow> num_error \<Rightarrow> string" where
  "parse_float_error s err =
     ''strconv.ParseFloat: parsing '' @ dquote s @
     (case err of ErrSyntax \<Rightarrow> '': invalid syntax'' | ErrRange \<Rightarrow> '': value out of range'')"

text \<open>The loop over the results of a script; it returns the error that ends it.\<close>

fun script_values ::
  "'c env \<Rightarrow> Exporter \<Rightarrow> string \<Rightarrow> (string \<times> string) list \<Rightarrow> ('c, string option) io" where
  "script_values env e filename [] =
     andthen (registerConstMetricGauge env e ''script_result'' (f64_of_int 1) [filename]) (ret None)"
| "script_values env e filename ((key, stringVal) # kvs) =
     (case parse_float stringVal of
        (_, Some err) \<Rightarrow>
          andthen (registerConstMetricGauge env e ''script_result'' (f64_of_int 0) [filename])
            (ret (Some (parse_float_error stringVal err)))
      | (val, None) \<Rightarrow>
          andthen (registerConstMetricGauge env e ''script_values'' val [key, filename])
            (script_values env e filename kvs))"

definition extractLuaScriptMetrics ::
  "'c env \<Rightarrow> Exporter \<Rightarrow> conn \<Rightarrow> string \<Rightarrow> string \<Rightarrow> ('c, string option) io" where
  "extractLuaScriptMetrics env e c filename script =
     bnd (doRedisCmd env c [AStr ''EVAL'', ABytes script, AInt 0, AInt 0]) (\<lambda>r.
       case redis_StringMap env r of
         Inl err \<Rightarrow>
           andthen (registerConstMetricGauge env e ''script_result'' (f64_of_int 0) [filename])
             (ret (Some err))
       | Inr kv \<Rightarrow>
           if kv = [] then
             andthen (registerConstMetricGauge env e ''script_result'' (f64_of_int 2) [filename])
               (ret None)
           else bnd (rangeMap env kv) (script_values env e filename))"

section \<open>Modules\<close>

definition module_field :: "string \<Rightarrow> string option" where
  "module_field s = index (go_split s ''='') 1"

definition moduleLine :: "'c env \<Rightarrow> Exporter \<Rightarrow> string \<Rightarrow> ('c, unit) io" where
  "moduleLine env e line =
     (case go_split line '':'' of
        [fieldKey, fieldValue] \<Rightarrow>
          (if fieldKey = ''module'' then
             let m = go_split fieldValue '','' in
             if length m \<noteq> 7 then skip
             else
               (case those (map module_field (take 6 m)) of
                  None \<Rightarrow> panic ''index out of range''
                | Some labels \<Rightarrow> registerConstMetricGauge env e ''module_info'' (f64_of_int 1) labels)
           else exportField env e fieldKey fieldValue)
      | _ \<Rightarrow> skip)"

definition extractModulesMetrics :: "'c env \<Rightarrow> Exporter \<Rightarrow> conn \<Rightarrow> ('c, unit) io" where
  "extractModulesMetrics env e c =
     bnd (doRedisCmd env c [AStr ''INFO'', AStr ''MODULES'']) (\<lambda>r. case redis_String env r of
         Inl err \<Rightarrow> skip
       | Inr info \<Rightarrow> for_each (moduleLine env e) (go_split info [CHR 0x0D, CHR 0x0A]))"

section \<open>Tile38\<close>

fun tile38_pairs :: "'c env \<Rightarrow> Exporter \<Rightarrow> string list \<Rightarrow> ('c, unit) io" where
  "tile38_pairs env e [] = skip"
| "tile38_pairs env e [k] = panic ''index out of range''"
| "tile38_pairs env e (k # fieldValue # info) =
     (let fieldKey = (if has_prefix k ''tile38_'' then k else ''tile38_'' @ k)
      in andthen (exportField env e fieldKey fieldValue) (tile38_pairs env e info))"

definition extractTile38Metrics :: "'c env \<Rightarrow> Exporter \<Rightarrow> conn \<Rightarrow> ('c, unit) io" where
  "extractTile38Metrics env e c =
     bnd (doRedisCmd env c [AStr ''SERVER'', AStr ''EXT'']) (\<lambda>r. case redis_Strings env r of
         Inl err \<Rightarrow> skip
       | Inr info \<Rightarrow> tile38_pairs env e info)"

section \<open>Search indexes\<close>

text \<open>The tags of \<open>searchIndexInfo\<close>.\<close>

definition index_tags :: "(string \<times> dest) list" where
  "index_tags =
     [(''index_name'', StringDest), (''num_docs'', IntDest), (''max_doc_id'', IntDest),
      (''num_terms'', IntDest), (''num_records'', IntDest), (''inverted_sz_mb'', FloatDest),
      (''total_inverted_index_blocks'', IntDest), (''vector_index_sz_mb'', FloatDest),
      (''offset_vectors_sz_mb'', FloatDest), (''doc_table_size_mb'', FloatDest),
      (''sortable_values_size_mb'', FloatDest), (''key_table_size_mb'', FloatDest),
      (''tag_overhead_sz_mb'', FloatDest), (''text_overhead_sz_mb'', FloatDest),
      (''total_index_memory_sz_mb'', FloatDest), (''geoshapes_sz_mb'', FloatDest),
      (''records_per_doc_avg'', FloatDest), (''bytes_per_record_avg'', FloatDest),
      (''offsets_per_term_avg'', FloatDest), (''offset_bits_per_record_avg'', FloatDest),
      (''indexing'', IntDest), (''percent_indexed'', FloatDest), (''hash_indexing_failures'', IntDest),
      (''number_of_uses'', IntDest), (''cleaning'', IntDest)]"

definition mb :: "(string \<times> scanned) list \<Rightarrow> string \<Rightarrow> f64" where
  "mb m k = f64_mul (float_field m k) (f64_of_int 1048576)"

definition search_gauges :: "(string \<times> scanned) list \<Rightarrow> (string \<times> f64) list" where
  "search_gauges m =
     [(''search_index_num_docs'', f64_of_int (int_field m ''num_docs'')),
      (''search_index_max_doc_id'', f64_of_int (int_field m ''max_doc_id'')),
      (''search_index_num_terms'', f64_of_int (int_field m ''num_terms'')),
      (''search_index_num_records'', f64_of_int (int_field m ''num_records'')),
      (''search_index_inverted_size_bytes'', mb m ''inverted_sz_mb''),
      (''search_index_total_inverted_index_blocks'', f64_of_int (int_field m ''total_inverted_index_blocks'')),
      (''search_index_vector_index_size_bytes'', mb m ''vector_index_sz_mb''),
      (''search_index_offset_vectors_size_bytes'', mb m ''offset_vectors_sz_mb''),
      (''search_index_doc_table_size_bytes'', mb m ''doc_table_size_mb''),
      (''search_index_sortable_values_size_bytes'', mb m ''sortable_values_size_mb''),
      (''search_index_key_table_size_bytes'', mb m ''key_table_size_mb''),
      (''search_index_tag_overhead_size_bytes'', mb m ''tag_overhead_sz_mb''),
      (''search_index_text_overhead_size_bytes'', mb m ''text_overhead_sz_mb''),
      (''search_index_total_index_memory_size_bytes'', mb m ''total_index_memory_sz_mb''),
      (''search_index_geoshapes_size_bytes'', mb m ''geoshapes_sz_mb''),
      (''search_index_avg_per_doc_records'', float_field m ''records_per_doc_avg''),
      (''search_index_avg_per_record_bytes'', float_field m ''bytes_per_record_avg''),
      (''search_index_avg_per_term_offsets'', float_field m ''offsets_per_term_avg''),
      (''search_index_avg_per_record_offset_bits'', float_field m ''offset_bits_per_record_avg''),
      (''search_index_indexing'', f64_of_int (int_field m ''indexing'')),
      (''search_index_percent_indexed'', float_field m ''percent_indexed''),
      (''search_index_hash_indexing_failures'', f64_of_int (int_field m ''hash_indexing_failures''))]"

text \<open>One index; \<open>True\<close> when the function returned.\<close>

definition searchIndex :: "'c env \<Rightarrow> Exporter \<Rightarrow> conn \<Rightarrow> string \<Rightarrow> ('c, bool) io" where
  "searchIndex env e c idx =
     bnd (doRedisCmd env c [AStr ''FT.INFO'', AStr idx]) (\<lambda>r. case redis_Values env r of
         Inl err \<Rightarrow> ret True
       | Inr vals \<Rightarrow>
           (case redis_ScanStruct env vals index_tags of
              Inl err \<Rightarrow> ret False
            | Inr m \<Rightarrow>
                let name = string_field m ''index_name'' in
                andthen
                  (block
                    [for_each (\<lambda>(metric, v). registerConstMetricGauge env e metric v [name])
                       (search_gauges m),
                     registerConstMetric env e ''search_index_number_of_uses_total''
                       (f64_of_int (int_field m ''number_of_uses'')) CounterValue [name],
                     registerConstMetricGauge env e ''search_index_cleaning''
                       (f64_of_int (int_field m ''cleaning'')) [name]])
                  (ret False)))"

definition extractSearchIndexesMetrics :: "'c env \<Rightarrow> Exporter \<Rightarrow> conn \<Rightarrow> ('c, unit) io" where
  "extractSearchIndexesMetrics env e c =
     bnd (doRedisCmd env c [AStr ''FT._LIST'']) (\<lambda>r. case redis_Strings env r of
         Inl err \<Rightarrow> skip
       | Inr allSearchIndexes \<Rightarrow>
           (case regexp_match env (CheckSearchIndexes (options e)) of
              None \<Rightarrow> panic ''regexp: Compile''
            | Some checkIndexRegex \<Rightarrow>
                bnd (for_until (searchIndex env e c) (filter checkIndexRegex allSearchIndexes))
                  (\<lambda>_. skip)))"

section \<open>Cluster nodes\<close>

text \<open>The regular expression \<open>^(?P<ip>.+):(?P<port>\\d+)@(?P<cport>\\d+)(?:,(?P<hostname>.+))?\<close>: the
  ip is the longest prefix that the rest of the pattern can follow.\<close>

fun node_address :: "string \<Rightarrow> string \<Rightarrow> (string \<times> string) option" where
  "node_address ip [] = None"
| "node_address ip (c # cs) =
     (case node_address (ip @ [c]) cs of
        Some address \<Rightarrow> Some address
      | None \<Rightarrow>
          (let port = takeWhile is_digit cs; r = drop (length port) cs in
           if c = CHR '':'' \<and> ip \<noteq> [] \<and> port \<noteq> [] \<and> has_prefix r ''@'' \<and> list_ex is_digit (take 1 (tl r))
           then Some (ip, port) else None))"

definition parseClusterNodeString :: "string \<Rightarrow> string option" where
  "parseClusterNodeString node =
     (case go_fields node of
        _ # addr # _ \<Rightarrow> map_option (\<lambda>(ip, port). ip @ '':'' @ port) (node_address [] addr)
      | _ \<Rightarrow> None)"

definition getClusterNodes :: "'c env \<Rightarrow> conn \<Rightarrow> ('c, string list goresult) io" where
  "getClusterNodes env c =
     bnd (doRedisCmd env c [AStr ''CLUSTER'', AStr ''NODES'']) (\<lambda>r. case redis_String env r of
         Inl err \<Rightarrow> ret (Inl err)
       | Inr output \<Rightarrow> ret (Inr (List.map_filter parseClusterNodeString (go_split output [CHR 0x0A]))))"


section \<open>Facts about scripts and nodes\<close>

text \<open>C29: a script that returns values succeeds exactly when all of them are numbers, in whatever
  order Go visits the results.\<close>

theorem lua_result:
  assumes "redis_StringMap env (fst (conn_do env c [AStr ''EVAL'', ABytes script, AInt 0, AInt 0] (net w))) = Inr kv"
    and "ranges_all env" and "distinct (map fst kv)"
    and "extractLuaScriptMetrics env e c filename script w = Fine (err, w')"
  shows "err = None \<longleftrightarrow> (\<forall>(k, v) \<in> set kv. snd (parse_float v) = None)"
proof -
  have vals: "returns (script_values env e filename xs)
      (\<lambda>err. err = None \<longleftrightarrow> (\<forall>(k, v) \<in> set xs. snd (parse_float v) = None))" for xs
  proof (induction xs)
    case Nil
    show ?case by (auto intro: returns_rules)
  next
    case (Cons x xs)
    obtain k v where x: "x = (k, v)" by (cases x)
    obtain val err where v: "parse_float v = (val, err)" by (cases "parse_float v")
    show ?case
    proof (cases err)
      case None
      have eq: "(\<forall>(k, v) \<in> set ((k, v) # xs). snd (parse_float v) = None)
          = (\<forall>(k, v) \<in> set xs. snd (parse_float v) = None)"
        using v None by simp
      show ?thesis unfolding x eq using Cons v None by (simp add: returns_andthen)
    next
      case (Some er)
      then show ?thesis unfolding x using v by (auto intro!: returns_andthen returns_ret)
    qed
  qed
  let ?w = "w\<lparr>net := snd (conn_do env c [AStr ''EVAL'', ABytes script, AInt 0, AInt 0] (net w))\<rparr>"
  show ?thesis
  proof (cases "kv = []")
    case True
    with assms(1,4) show ?thesis
      by (auto simp: extractLuaScriptMetrics_def doRedisCmd_def prog_defs
          split: prod.splits outcome.splits)
  next
    case False
    let ?es = "List.map_filter (\<lambda>k. map_option (Pair k) (map_of kv k)) (range_order env (tick ?w) (map fst kv))"
    have "mset ?es = mset kv"
      using assms(2,3) by (intro range_entries) (auto simp: ranges_all_def)
    then have set: "set ?es = set kv" by (rule mset_eq_setD)
    have "script_values env e filename ?es (?w\<lparr>tick := Suc (tick ?w)\<rparr>) = Fine (err, w')"
      using assms(1,4) False
      by (auto simp: extractLuaScriptMetrics_def doRedisCmd_def rangeMap_def bnd_def act_def split: prod.splits)
    from returnsD [OF vals this] set show ?thesis by simp
  qed
qed

lemma keeps_script_values [hoare_rules]:
  "prom_checks_labels env \<Longrightarrow> keeps (inv e N) (script_values env e filename kvs)"
  by (induction env e filename kvs rule: script_values.induct)
    (auto intro!: hoare_rules split: prod.splits option.splits)

lemma keeps_lua [hoare_rules]:
  "prom_checks_labels env \<Longrightarrow> keeps (inv e N) (extractLuaScriptMetrics env e c filename script)"
  unfolding extractLuaScriptMetrics_def by (intro hoare_rules) simp_all

lemma finishes_lua [finish_rules]: "finishes (extractLuaScriptMetrics env e c filename script)"
proof -
  have "finishes (script_values env e filename kvs)" for kvs
    by (induction env e filename kvs rule: script_values.induct)
      (auto intro!: finish_rules split: prod.splits option.splits)
  then show ?thesis unfolding extractLuaScriptMetrics_def by (intro finish_rules)
qed

theorem lua_result_witness:
  "\<exists>err w'. extractLuaScriptMetrics demo_env demo_exporter 0 ''s.lua'' ''return 1''
       (start_world demo_exporter [Inr (RArray [RBytes ''a'', RBytes ''1'', RBytes ''b'', RBytes ''x''])]) =
     Fine (err, w') \<and> err \<noteq> None"
proof -
  let ?w = "start_world demo_exporter [Inr (RArray [RBytes ''a'', RBytes ''1'', RBytes ''b'', RBytes ''x''])]"
  obtain err w' where r: "extractLuaScriptMetrics demo_env demo_exporter 0 ''s.lua'' ''return 1'' ?w = Fine (err, w')"
    using finishes_Fine [OF finishes_lua keeps_lua [OF demo_env_checks] inv_start] by blast
  have "redis_StringMap demo_env (fst (conn_do demo_env 0 [AStr ''EVAL'', ABytes ''return 1'', AInt 0, AInt 0] (net ?w))) =
      Inr [(''a'', ''1''), (''b'', ''x'')]"
    by (simp add: demo_next_def demo_StringMap_def demo_Strings_def)
  moreover have "snd (parse_float ''x'') \<noteq> None" by code_simp
  ultimately have "err \<noteq> None" using lua_result [OF _ demo_env_ranges _ r] by force
  with r show ?thesis by blast
qed

text \<open>The address of a node, in front of the cluster bus port.\<close>

lemma node_address_none: "CHR ''@'' \<notin> set s \<Longrightarrow> node_address ip s = None"
proof (induction s arbitrary: ip)
  case Nil
  show ?case by simp
next
  case (Cons c s)
  have "\<not> has_prefix (drop n s) ''@''" for n
  proof
    assume "has_prefix (drop n s) ''@''"
    then obtain t where "drop n s = CHR ''@'' # t" by (auto simp: has_prefix_iff)
    then have "CHR ''@'' \<in> set (drop n s)" by simp
    with Cons.prems show False by (auto dest: in_set_dropD)
  qed
  with Cons show ?case by (simp add: Let_def)
qed

lemma node_address_port:
  assumes "list_all is_digit port" and "CHR ''@'' \<notin> set rest"
  shows "node_address ip (port @ CHR ''@'' # rest) = None"
  using assms(1)
proof (induction port arbitrary: ip)
  case Nil
  with assms(2) show ?case by (simp add: node_address_none)
next
  case (Cons c port)
  then have "c \<noteq> CHR '':''" by (auto simp: is_digit_def byte_def)
  with Cons show ?case by simp
qed

lemma node_address_found:
  assumes "ip \<noteq> []" and "port \<noteq> []" and "list_all is_digit port" and "CHR ''@'' \<notin> set (d # rest)"
    and "is_digit d"
  shows "node_address pre (ip @ CHR '':'' # port @ CHR ''@'' # d # rest) = Some (pre @ ip, port)"
  using assms(1)
proof (induction ip arbitrary: pre)
  case Nil
  then show ?case by simp
next
  case (Cons c ip)
  show ?case
  proof (cases "ip = []")
    case False
    with Cons show ?thesis by simp
  next
    case True
    have "\<not> is_digit CHR ''@''" by (simp add: is_digit_def byte_def)
    then have "takeWhile is_digit (port @ CHR ''@'' # d # rest) = port"
      using assms(3) by (simp add: takeWhile_append list_all_iff)
    then show ?thesis
      using True assms node_address_port [OF assms(3,4), of "pre @ [c, CHR '':'']"]
      by (simp add: Let_def has_prefix_def)
  qed
qed

text \<open>the address of a cluster node is read from the second field of its line, in front of the
  cluster bus port, with or without a host name after it; IPv6 addresses keep their colons.\<close>

theorem parseClusterNodeString_address:
  assumes "go_fields line = nodeId # (ip @ CHR '':'' # port @ CHR ''@'' # d # rest) # fs"
    and "ip \<noteq> []" and "port \<noteq> []" and "list_all is_digit port" and "is_digit d"
    and "CHR ''@'' \<notin> set rest"
  shows "parseClusterNodeString line = Some (ip @ '':'' @ port)"
proof -
  have "CHR ''@'' \<notin> set (d # rest)" using assms(5,6) by (auto simp: is_digit_def byte_def)
  from node_address_found [OF assms(2-4) this assms(5), of "[]"] assms(1) show ?thesis
    by (simp add: parseClusterNodeString_def)
qed

theorem parseClusterNodeString_address_witness:
  "parseClusterNodeString ''eaf6 ::1:7002@17002,host-1 master - 0'' = Some ''::1:7002''"
proof -
  have "go_fields ''eaf6 ::1:7002@17002,host-1 master - 0'' =
      [''eaf6'', ''::1:7002@17002,host-1'', ''master'', ''-'', ''0'']" by code_simp
  then show ?thesis
    using parseClusterNodeString_address [of "''eaf6 ::1:7002@17002,host-1 master - 0''" "''eaf6''" "''::1''"
        "''7002''" "CHR ''1''" "''7002,host-1''" "[''master'', ''-'', ''0'']"]
    by (simp add: is_digit_def byte_def)
qed

section \<open>Safety\<close>

text \<open>What the collectors rely on about the replies of their commands.\<close>

definition slowlog_ok :: "'c env \<Rightarrow> bool" where
  "slowlog_ok env \<longleftrightarrow>
     (\<forall>c n entry entries.
        redis_Values env (fst (conn_do env c [AStr ''SLOWLOG'', AStr ''GET'', AStr ''1''] n)) = Inr (entry # entries)
        \<longrightarrow> last_slow_entry (values_or_nil env entry) \<noteq> None)"

definition module_line_ok :: "string \<Rightarrow> bool" where
  "module_line_ok line =
     (case go_split line '':'' of
        [k, v] \<Rightarrow> k = ''module'' \<and> length (go_split v '','') = 7 \<longrightarrow>
           list_all (\<lambda>f. module_field f \<noteq> None) (take 6 (go_split v '',''))
      | _ \<Rightarrow> True)"

definition modules_ok :: "'c env \<Rightarrow> bool" where
  "modules_ok env \<longleftrightarrow>
     (\<forall>c n info. redis_String env (fst (conn_do env c [AStr ''INFO'', AStr ''MODULES''] n)) = Inr info
        \<longrightarrow> list_all module_line_ok (go_split info [CHR 0x0D, CHR 0x0A]))"

definition tile38_ok :: "'c env \<Rightarrow> bool" where
  "tile38_ok env \<longleftrightarrow>
     (\<forall>c n info. redis_Strings env (fst (conn_do env c [AStr ''SERVER'', AStr ''EXT''] n)) = Inr info
        \<longrightarrow> length info mod 2 = 0)"

lemma keeps_slowlog [hoare_rules]:
  assumes "prom_checks_labels env" and "slowlog_ok env"
  shows "keeps (inv e N) (extractSlowLogMetrics env e c)"
proof -
  let ?Q = "\<lambda>r. \<forall>entry entries. redis_Values env r = Inr (entry # entries) \<longrightarrow>
      last_slow_entry (values_or_nil env entry) \<noteq> None"
  have q: "?Q (fst (conn_do env c [AStr ''SLOWLOG'', AStr ''GET'', AStr ''1''] n))" for n
    using assms(2) unfolding slowlog_ok_def by blast
  have nil: "last_slow_entry [] = Some (0, f64_zero)" by (simp add: last_slow_entry_def)
  show ?thesis
    unfolding extractSlowLogMetrics_def
    by (intro holds_reply [where Q = ?Q, OF q] hoare_rules assms; (simp add: assms(1))?)
      (auto simp: nil Let_def split: list.splits option.splits intro!: hoare_rules assms)
qed

lemma keeps_moduleLine:
  assumes "prom_checks_labels env" and "module_line_ok line"
  shows "keeps (inv e N) (moduleLine env e line)"
proof -
  have "those (map module_field (take 6 (go_split v '',''))) \<noteq> None"
    if "go_split line '':'' = [''module'', v]" and "length (go_split v '','') = 7" for v
  proof -
    have "those (map f xs) \<noteq> None" if "list_all (\<lambda>x. f x \<noteq> None) xs" for f :: "string \<Rightarrow> string option" and xs
      using that by (induction xs) auto
    with assms(2) that show ?thesis by (simp add: module_line_ok_def)
  qed
  with assms(1) show ?thesis
    unfolding moduleLine_def Let_def
    by (intro hoare_rules) auto
qed

lemma keeps_modules [hoare_rules]:
  assumes "prom_checks_labels env" and "modules_ok env"
  shows "keeps (inv e N) (extractModulesMetrics env e c)"
  unfolding extractModulesMetrics_def
proof (rule holds_reply [where Q = "\<lambda>r. \<forall>info. redis_String env r = Inr info \<longrightarrow>
    list_all module_line_ok (go_split info [CHR 0x0D, CHR 0x0A])"])
  show "\<forall>info. redis_String env (fst (conn_do env c [AStr ''INFO'', AStr ''MODULES''] n)) = Inr info \<longrightarrow>
      list_all module_line_ok (go_split info [CHR 0x0D, CHR 0x0A])" for n
    using assms(2) unfolding modules_ok_def by blast
qed (auto simp: list_all_iff intro!: holds_case_sum keeps_skip keeps_for_each keeps_moduleLine assms(1))

lemma keeps_tile38 [hoare_rules]:
  assumes "prom_checks_labels env" and "tile38_ok env"
  shows "keeps (inv e N) (extractTile38Metrics env e c)"
proof -
  have pairs: "length info mod 2 = 0 \<Longrightarrow> keeps (inv e N) (tile38_pairs env e info)" for info
    using assms(1)
    by (induction env e info rule: tile38_pairs.induct) (auto simp: Let_def intro!: hoare_rules)
  show ?thesis
    unfolding extractTile38Metrics_def
  proof (rule holds_reply [where Q = "\<lambda>r. \<forall>info. redis_Strings env r = Inr info \<longrightarrow> length info mod 2 = 0"])
    show "\<forall>info. redis_Strings env (fst (conn_do env c [AStr ''SERVER'', AStr ''EXT''] n)) = Inr info \<longrightarrow>
        length info mod 2 = 0" for n
      using assms(2) unfolding tile38_ok_def by blast
  qed (auto intro!: holds_case_sum keeps_skip pairs)
qed

lemma search_catalogued: "(metric, v) \<in> set (search_gauges m) \<Longrightarrow> catalogued metric"
  by (auto simp: search_gauges_def)

lemma keeps_searchIndexes [hoare_rules]:
  assumes "prom_checks_labels env" and "regexp_match env (CheckSearchIndexes (options e)) \<noteq> None"
  shows "keeps (inv e N) (extractSearchIndexesMetrics env e c)"
proof -
  have "keeps (inv e N) (searchIndex env e c idx)" for idx
    unfolding searchIndex_def Let_def using assms(1)
    by (intro hoare_rules) (auto intro!: hoare_rules dest: search_catalogued)
  with assms(2) show ?thesis
    unfolding extractSearchIndexesMetrics_def
    by (intro hoare_rules) auto
qed

lemma finishes_extractors [finish_rules]:
  "finishes (extractSlowLogMetrics env e c)" "finishes (extractModulesMetrics env e c)"
  "finishes (extractTile38Metrics env e c)" "finishes (extractSearchIndexesMetrics env e c)"
proof -
  have "finishes (tile38_pairs env e info)" for info
    by (induction env e info rule: tile38_pairs.induct) (auto simp: Let_def exportField_def intro!: finish_rules)
  then show "finishes (extractTile38Metrics env e c)"
    unfolding extractTile38Metrics_def by (intro finish_rules)
qed (unfold extractSlowLogMetrics_def extractModulesMetrics_def moduleLine_def exportField_def
    extractSearchIndexesMetrics_def searchIndex_def Let_def; intro finish_rules)+

end
