(* ===== verification/GoUrl.thy ===== *)
theory GoUrl
  imports GoStrings
begin

text \<open>
  The part of Go's \<open>net/url\<close> (Go 1.25.0, the version \<open>go.mod\<close> names) behind \<open>url.Parse\<close>,
  \<open>url.User\<close>, \<open>URL.String\<close> and \<open>URL.Port\<close>, which the exporter uses to look a password up, to find
  the host of a cluster and to remove the credentials from a scrape target. A parse error is
  \<open>None\<close>: the exporter never looks at its text except to print it.
\<close>

section \<open>Escaping\<close>

datatype encoding = EncodePath | EncodeHost | EncodeZone | EncodeUserPassword | EncodeFragment

definition alphanumeric :: "char \<Rightarrow> bool" where
  "alphanumeric c \<longleftrightarrow>
     (97 \<le> byte c \<and> byte c \<le> 122) \<or> (65 \<le> byte c \<and> byte c \<le> 90) \<or> is_digit c"

definition quote_char :: char where "quote_char = CHR 0x27"

definition shouldEscape :: "encoding \<Rightarrow> char \<Rightarrow> bool" where
  "shouldEscape mode c =
     (if alphanumeric c then False
      else if (mode = EncodeHost \<or> mode = EncodeZone) \<and> c \<in> set (quote_char # ''!$&()*+,;=:[]<>'' @ [CHR 0x22])
      then False
      else if c \<in> set ''-_.~'' then False
      else if c \<in> set ''$&+,/:;=?@'' then
        (case mode of
           EncodePath \<Rightarrow> c = CHR ''?''
         | EncodeUserPassword \<Rightarrow> c \<in> set ''@/?:''
         | EncodeFragment \<Rightarrow> False
         | _ \<Rightarrow> True)
      else \<not> (mode = EncodeFragment \<and> c \<in> set ''!()*''))"

definition hex_digit :: "int \<Rightarrow> char" where
  "hex_digit n = char_of (if n < 10 then 48 + n else 55 + n)"

fun url_escape :: "encoding \<Rightarrow> string \<Rightarrow> string" where
  "url_escape mode [] = []"
| "url_escape mode (c # cs) =
     (if shouldEscape mode c
      then CHR ''%'' # hex_digit (byte c div 16) # hex_digit (byte c mod 16) # url_escape mode cs
      else c # url_escape mode cs)"

text \<open>In a host only bytes outside ASCII may be escaped, and \<open>%25\<close>; in a zone only what an
  escaped host would not have to escape.\<close>

definition escape_allowed :: "encoding \<Rightarrow> char \<Rightarrow> char \<Rightarrow> bool" where
  "escape_allowed mode a b =
     (let v = char_of (16 * unhex a + unhex b) in
      case mode of
        EncodeHost \<Rightarrow> 8 \<le> unhex a \<or> [a, b] = ''25''
      | EncodeZone \<Rightarrow> [a, b] = ''25'' \<or> v = CHR '' '' \<or> \<not> shouldEscape EncodeHost v
      | _ \<Rightarrow> True)"

fun url_unescape :: "encoding \<Rightarrow> string \<Rightarrow> string option" where
  "url_unescape mode [] = Some []"
| "url_unescape mode (c # cs) =
     (if c = CHR ''%'' then
        (case cs of
           a # b # r \<Rightarrow>
             if is_hex a \<and> is_hex b \<and> escape_allowed mode a b
             then map_option ((#) (char_of (16 * unhex a + unhex b))) (url_unescape mode r)
             else None
         | _ \<Rightarrow> None)
      else if (mode = EncodeHost \<or> mode = EncodeZone) \<and> byte c < 128 \<and> shouldEscape mode c then None
      else map_option ((#) c) (url_unescape mode cs))"

section \<open>Parsing\<close>

record userinfo =
  username :: string
  password :: "string option"

record url =
  Scheme :: string
  Opaque :: string
  UserInfo :: "userinfo option"
  Host :: string
  Path :: string
  RawPath :: string
  OmitHost :: bool
  ForceQuery :: bool
  RawQuery :: string
  Fragment :: string
  RawFragment :: string

definition empty_url :: url where
  "empty_url = \<lparr>Scheme = [], Opaque = [], UserInfo = None, Host = [], Path = [], RawPath = [],
     OmitHost = False, ForceQuery = False, RawQuery = [], Fragment = [], RawFragment = []\<rparr>"

text \<open>\<open>strings.Cut\<close> with the whole string in front when the separator is missing, and the same
  for the last occurrence of a character.\<close>

definition cut_or_all :: "string \<Rightarrow> char \<Rightarrow> string \<times> string" where
  "cut_or_all s c = (takeWhile (\<lambda>d. d \<noteq> c) s, tl (dropWhile (\<lambda>d. d \<noteq> c) s))"

definition cut_last :: "string \<Rightarrow> char \<Rightarrow> (string \<times> string) option" where
  "cut_last s c =
     (if c \<in> set s
      then Some (rev (tl (dropWhile (\<lambda>d. d \<noteq> c) (rev s))), rev (takeWhile (\<lambda>d. d \<noteq> c) (rev s)))
      else None)"

text \<open>The scheme and the rest: \<open>None\<close> for a colon at the start. The first argument is what was
  read so far.\<close>

fun scheme_from :: "string \<Rightarrow> string \<Rightarrow> (string \<times> string) option" where
  "scheme_from acc [] = Some ([], acc)"
| "scheme_from acc (c # cs) =
     (if alphanumeric c \<and> \<not> is_digit c then scheme_from (acc @ [c]) cs
      else if is_digit c \<or> c \<in> set ''+-.'' then
        (if acc = [] then Some ([], c # cs) else scheme_from (acc @ [c]) cs)
      else if c = CHR '':'' then (if acc = [] then None else Some (acc, cs))
      else Some ([], acc @ c # cs))"

definition lower_char :: "char \<Rightarrow> char" where
  "lower_char c = (if 65 \<le> byte c \<and> byte c \<le> 90 then char_of (byte c + 32) else c)"

definition validUserinfo :: "string \<Rightarrow> bool" where
  "validUserinfo s \<longleftrightarrow> list_all (\<lambda>c. alphanumeric c \<or> c \<in> set (quote_char # ''-._:~!$&()*+,;=%@'')) s"

definition validOptionalPort :: "string \<Rightarrow> bool" where
  "validOptionalPort port = (case port of [] \<Rightarrow> True | c # ds \<Rightarrow> c = CHR '':'' \<and> list_all is_digit ds)"

definition parseHost :: "string \<Rightarrow> string option" where
  "parseHost host =
     (if has_prefix host ''['' then
        (case cut_last host CHR '']'' of
           None \<Rightarrow> None
         | Some (front, colonPort) \<Rightarrow>
             if \<not> validOptionalPort colonPort then None
             else (case go_cut front ''%25'' of
                 None \<Rightarrow> url_unescape EncodeHost host
               | Some (h, z) \<Rightarrow>
                   (case (url_unescape EncodeHost h, url_unescape EncodeZone (''%25'' @ z),
                          url_unescape EncodeHost (CHR '']'' # colonPort)) of
                      (Some host1, Some host2, Some host3) \<Rightarrow> Some (host1 @ host2 @ host3)
                    | _ \<Rightarrow> None)))
      else
        (case cut_last host CHR '':'' of
           Some (_, port) \<Rightarrow> if list_all is_digit port then url_unescape EncodeHost host else None
         | None \<Rightarrow> url_unescape EncodeHost host))"

definition parseUserinfo :: "string \<Rightarrow> userinfo option" where
  "parseUserinfo s =
     (if \<not> validUserinfo s then None
      else if CHR '':'' \<notin> set s then
        map_option (\<lambda>n. \<lparr>username = n, password = None\<rparr>) (url_unescape EncodeUserPassword s)
      else
        (case cut_or_all s CHR '':'' of
           (n, p) \<Rightarrow>
             (case (url_unescape EncodeUserPassword n, url_unescape EncodeUserPassword p) of
                (Some n', Some p') \<Rightarrow> Some \<lparr>username = n', password = Some p'\<rparr>
              | _ \<Rightarrow> None)))"

definition parseAuthority :: "string \<Rightarrow> (userinfo option \<times> string) option" where
  "parseAuthority authority =
     (case cut_last authority CHR ''@'' of
        None \<Rightarrow> map_option (Pair None) (parseHost authority)
      | Some (ui, host) \<Rightarrow>
          (case (parseHost host, parseUserinfo ui) of
             (Some h, Some u) \<Rightarrow> Some (Some u, h)
           | _ \<Rightarrow> None))"

text \<open>\<open>setPath\<close> and \<open>setFragment\<close>: the unescaped string, and the given one where escaping does not
  give it back.\<close>

definition raw_unless_default :: "encoding \<Rightarrow> string \<Rightarrow> string \<Rightarrow> string" where
  "raw_unless_default mode p raw = (if url_escape mode p = raw then [] else raw)"

definition setPath :: "url \<Rightarrow> string \<Rightarrow> url option" where
  "setPath u p = map_option (\<lambda>path. u\<lparr>Path := path, RawPath := raw_unless_default EncodePath path p\<rparr>)
     (url_unescape EncodePath p)"

definition setFragment :: "url \<Rightarrow> string \<Rightarrow> url option" where
  "setFragment u f =
     map_option (\<lambda>frag. u\<lparr>Fragment := frag, RawFragment := raw_unless_default EncodeFragment frag f\<rparr>)
       (url_unescape EncodeFragment f)"

text \<open>The query string; a question mark at the very end is remembered.\<close>

definition split_query :: "string \<Rightarrow> bool \<times> string \<times> string" where
  "split_query s =
     (if has_suffix s ''?'' \<and> length (filter (\<lambda>c. c = CHR ''?'') s) = 1 then (True, butlast s, [])
      else case cut_or_all s CHR ''?'' of (a, q) \<Rightarrow> (False, a, q))"

definition control_byte :: "char \<Rightarrow> bool" where
  "control_byte c \<longleftrightarrow> byte c < 32 \<or> byte c = 127"

definition parse_rest :: "string \<Rightarrow> string \<Rightarrow> url option" where
  "parse_rest scheme after =
     (let (force, rest, query) = split_query after;
          u = empty_url\<lparr>Scheme := scheme, ForceQuery := force, RawQuery := query\<rparr>
      in if \<not> has_prefix rest ''/'' \<and> scheme \<noteq> [] then Some (u\<lparr>Opaque := rest\<rparr>)
         else if \<not> has_prefix rest ''/'' \<and> CHR '':'' \<in> set (fst (cut_or_all rest CHR ''/'')) then None
         else if (scheme \<noteq> [] \<or> \<not> has_prefix rest ''///'') \<and> has_prefix rest ''//'' then
           (let authority = takeWhile (\<lambda>c. c \<noteq> CHR ''/'') (drop 2 rest) in
            case parseAuthority authority of
              None \<Rightarrow> None
            | Some (user, host) \<Rightarrow>
                setPath (u\<lparr>UserInfo := user, Host := host\<rparr>) (drop (2 + length authority) rest))
         else setPath (u\<lparr>OmitHost := (scheme \<noteq> [] \<and> has_prefix rest ''/'')\<rparr>) rest)"

definition parse_no_fragment :: "string \<Rightarrow> url option" where
  "parse_no_fragment raw =
     (if list_ex control_byte raw then None
      else if raw = ''*'' then Some (empty_url\<lparr>Path := ''*''\<rparr>)
      else case scheme_from [] raw of
          None \<Rightarrow> None
        | Some (scheme, rest) \<Rightarrow> parse_rest (map lower_char scheme) rest)"

definition url_parse :: "string \<Rightarrow> url option" where
  "url_parse raw =
     (case cut_or_all raw CHR ''#'' of
        (front, frag) \<Rightarrow>
          (case parse_no_fragment front of
             None \<Rightarrow> None
           | Some u \<Rightarrow> if frag = [] then Some u else setFragment u frag))"

section \<open>Printing\<close>

definition url_user :: "string \<Rightarrow> userinfo" where
  "url_user name = \<lparr>username = name, password = None\<rparr>"

definition user_string :: "userinfo \<Rightarrow> string" where
  "user_string u =
     (if username u = [] \<and> (password u = None \<or> password u = Some []) then []
      else url_escape EncodeUserPassword (username u) @
        (case password u of None \<Rightarrow> [] | Some p \<Rightarrow> '':'' @ url_escape EncodeUserPassword p))"

definition validEncoded :: "encoding \<Rightarrow> string \<Rightarrow> bool" where
  "validEncoded mode s \<longleftrightarrow>
     list_all (\<lambda>c. c \<in> set (quote_char # ''!$&()*+,;=:@[]%'') \<or> \<not> shouldEscape mode c) s"

definition escaped_part :: "encoding \<Rightarrow> string \<Rightarrow> string \<Rightarrow> string" where
  "escaped_part mode raw part =
     (if raw \<noteq> [] \<and> validEncoded mode raw \<and> url_unescape mode raw = Some part then raw
      else if mode = EncodePath \<and> part = ''*'' then ''*''
      else url_escape mode part)"

definition url_string :: "url \<Rightarrow> string" where
  "url_string u =
     (let scheme = (if Scheme u = [] then [] else Scheme u @ '':'');
          authority =
            (if Scheme u = [] \<and> Host u = [] \<and> UserInfo u = None then []
             else if OmitHost u \<and> Host u = [] \<and> UserInfo u = None then []
             else (if Host u \<noteq> [] \<or> Path u \<noteq> [] \<or> UserInfo u \<noteq> None then ''//'' else []) @
               (case UserInfo u of None \<Rightarrow> [] | Some ui \<Rightarrow> user_string ui @ ''@'') @
               url_escape EncodeHost (Host u));
          path = escaped_part EncodePath (RawPath u) (Path u);
          front = scheme @ authority @ (if path \<noteq> [] \<and> hd path \<noteq> CHR ''/'' \<and> Host u \<noteq> [] then ''/'' else []);
          front' = (if front = [] \<and> CHR '':'' \<in> set (fst (cut_or_all path CHR ''/'')) then ''./'' else front)
      in (if Opaque u \<noteq> [] then scheme @ Opaque u else front' @ path) @
         (if ForceQuery u \<or> RawQuery u \<noteq> [] then ''?'' @ RawQuery u else []) @
         (if Fragment u \<noteq> []
          then ''#'' @ escaped_part EncodeFragment (RawFragment u) (Fragment u) else []))"

definition url_port :: "url \<Rightarrow> string" where
  "url_port u =
     (case cut_last (Host u) CHR '':'' of
        Some (_, port) \<Rightarrow> if list_all is_digit port then port else []
      | None \<Rightarrow> [])"


section \<open>Plain URLs\<close>

text \<open>Host names, ports and user names of these characters are never escaped.\<close>

definition plain_char :: "char \<Rightarrow> bool" where
  "plain_char c \<longleftrightarrow> alphanumeric c \<or> c \<in> set ''-_.~''"

definition plain_name :: "string \<Rightarrow> bool" where
  "plain_name s \<longleftrightarrow> s \<noteq> [] \<and> list_all plain_char s"

lemma plain_char_not [simp]:
  "plain_char c \<Longrightarrow> c \<noteq> CHR '':'' \<and> c \<noteq> CHR ''@'' \<and> c \<noteq> CHR ''/'' \<and> c \<noteq> CHR ''?'' \<and> c \<noteq> CHR ''#''
     \<and> c \<noteq> CHR ''['' \<and> c \<noteq> CHR '']'' \<and> c \<noteq> CHR ''%''"
  by (auto simp: plain_char_def alphanumeric_def is_digit_def byte_def)

lemma plain_char_literals [simp]:
  "\<not> plain_char CHR '':''" "\<not> plain_char CHR ''@''" "\<not> plain_char CHR ''/''" "\<not> plain_char CHR ''?''"
  "\<not> plain_char CHR ''#''" "\<not> plain_char CHR ''[''" "\<not> plain_char CHR '']''" "\<not> plain_char CHR ''%''"
  by (auto dest: plain_char_not)

lemma colon_in_host [simp]: "\<not> shouldEscape EncodeHost CHR '':''"
  by code_simp

lemma url_digit_plain: "is_digit c \<Longrightarrow> plain_char c"
  by (simp add: plain_char_def alphanumeric_def)

lemma plain_char_bytes: "plain_char c \<Longrightarrow> \<not> control_byte c \<and> byte c < 128 \<and> \<not> shouldEscape mode c"
proof (cases "alphanumeric c")
  case True
  then have "\<not> control_byte c \<and> byte c < 128"
    unfolding alphanumeric_def is_digit_def control_byte_def by linarith
  with True show ?thesis by (simp add: shouldEscape_def)
next
  case False
  assume "plain_char c"
  with False have c: "c \<in> set ''-_.~''" by (simp add: plain_char_def)
  have "\<not> shouldEscape mode c"
    unfolding shouldEscape_def by (simp only: False if_False c if_True if_cancel simp_thms)
  moreover from c have "byte c \<in> {45, 46, 95, 126}" by (auto simp: byte_def)
  then have "\<not> control_byte c \<and> byte c < 128" by (auto simp: control_byte_def)
  ultimately show ?thesis by simp
qed

lemma before_char: "c \<notin> set x \<Longrightarrow> takeWhile (\<lambda>d. d \<noteq> c) (x @ c # y) = x \<and> dropWhile (\<lambda>d. d \<noteq> c) (x @ c # y) = c # y"
  by (induction x) auto

lemma no_char: "c \<notin> set x \<Longrightarrow> takeWhile (\<lambda>d. d \<noteq> c) x = x \<and> dropWhile (\<lambda>d. d \<noteq> c) x = []"
  by (induction x) auto

lemma cut_last_found: "c \<notin> set y \<Longrightarrow> cut_last (x @ c # y) c = Some (x, y)"
  using before_char [of c "rev y" "rev x"] by (simp add: cut_last_def)

lemma cut_last_none: "c \<notin> set x \<Longrightarrow> cut_last x c = None"
  by (simp add: cut_last_def)

lemma cut_or_all_none: "c \<notin> set x \<Longrightarrow> cut_or_all x c = (x, [])"
  by (simp add: cut_or_all_def no_char)

lemma cut_or_all_found: "c \<notin> set x \<Longrightarrow> cut_or_all (x @ c # y) c = (x, y)"
  by (simp add: cut_or_all_def before_char)

lemma url_escape_plain: "list_all (\<lambda>c. \<not> shouldEscape mode c) s \<Longrightarrow> url_escape mode s = s"
  by (induction s) auto

lemma url_unescape_plain:
  "list_all (\<lambda>c. c \<noteq> CHR ''%'' \<and> \<not> shouldEscape mode c) s \<Longrightarrow> url_unescape mode s = Some s"
  by (induction s) auto

text \<open>The authority of a plain URL: an optional user with an optional empty password, a host and an
  optional port.\<close>

definition host_part :: "string \<Rightarrow> string \<Rightarrow> string" where
  "host_part host port = host @ (if port = [] then [] else '':'' @ port)"

definition authority_char :: "char \<Rightarrow> bool" where
  "authority_char c \<longleftrightarrow> plain_char c \<or> c = CHR '':'' \<or> c = CHR ''@''"

lemma authority_char_not:
  "authority_char c \<Longrightarrow> c \<noteq> CHR ''/'' \<and> c \<noteq> CHR ''?'' \<and> c \<noteq> CHR ''#'' \<and> \<not> control_byte c"
  using plain_char_not [of c] plain_char_bytes [of c]
  by (cases "plain_char c") (auto simp: authority_char_def control_byte_def byte_def)

lemma scheme_redis: "scheme_from [] (''redis://'' @ a) = Some (''redis'', ''//'' @ a)"
  by (simp add: alphanumeric_def is_digit_def byte_def)

lemma url_parse_authority:
  assumes "list_all authority_char a"
  shows "url_parse (''redis://'' @ a) =
    map_option (\<lambda>(user, host). empty_url\<lparr>Scheme := ''redis'', UserInfo := user, Host := host\<rparr>) (parseAuthority a)"
proof -
  from assms have no: "CHR ''#'' \<notin> set a" "CHR ''?'' \<notin> set a" "CHR ''/'' \<notin> set a" "\<not> list_ex control_byte a"
    using authority_char_not by (auto simp: list_all_iff list_ex_iff)
  have frag: "cut_or_all (''redis://'' @ a) CHR ''#'' = (''redis://'' @ a, [])"
    by (rule cut_or_all_none) (use no in auto)
  have ctl: "\<not> list_ex control_byte (''redis://'' @ a)"
    using no(4) by (simp add: control_byte_def byte_def)
  have "filter (\<lambda>c. c = CHR ''?'') (''//'' @ a) = []" using no(2) by (auto simp: filter_empty_conv)
  moreover have "cut_or_all (''//'' @ a) CHR ''?'' = (''//'' @ a, [])"
    by (rule cut_or_all_none) (use no(2) in auto)
  ultimately have query: "split_query (''//'' @ a) = (False, ''//'' @ a, [])"
    unfolding split_query_def by simp
  have low: "map lower_char ''redis'' = ''redis''" by (simp add: lower_char_def byte_def)
  have d: "drop 2 (''//'' @ a) = a" "drop (2 + length a) (''//'' @ a) = []" by simp_all
  have tw: "takeWhile (\<lambda>c. c \<noteq> CHR ''/'') a = a" using no_char [OF no(3)] by simp
  have p: "has_prefix (''//'' @ a) ''/''" "has_prefix (''//'' @ a) ''//''" by (simp_all add: has_prefix_def)
  have path: "setPath u [] = Some (u\<lparr>Path := [], RawPath := []\<rparr>)" for u
    by (simp add: setPath_def raw_unless_default_def)
  have rest: "parse_rest ''redis'' (''//'' @ a) =
      map_option (\<lambda>(user, host). empty_url\<lparr>Scheme := ''redis'', UserInfo := user, Host := host\<rparr>) (parseAuthority a)"
    unfolding parse_rest_def query Let_def prod.case d tw path
    using p by (cases "parseAuthority a") (auto simp: empty_url_def)
  have "parse_no_fragment (''redis://'' @ a) =
      map_option (\<lambda>(user, host). empty_url\<lparr>Scheme := ''redis'', UserInfo := user, Host := host\<rparr>) (parseAuthority a)"
    unfolding parse_no_fragment_def scheme_redis
    by (simp only: ctl if_False option.case prod.case low rest) simp
  then show ?thesis
    unfolding url_parse_def frag by (cases "parseAuthority a") (auto split: prod.splits)
qed

text \<open>Hosts and ports.\<close>

lemma alphanumeric_unescaped: "list_all plain_char s \<Longrightarrow> url_unescape mode s = Some s"
  by (rule url_unescape_plain) (auto simp: list_all_iff plain_char_bytes)

lemma host_part_unescaped:
  assumes "list_all plain_char host" and "list_all is_digit port"
  shows "url_unescape EncodeHost (host_part host port) = Some (host_part host port)"
proof (rule url_unescape_plain)
  have "list_all plain_char port" using assms(2) by (auto simp: list_all_iff url_digit_plain)
  with assms(1) show "list_all (\<lambda>c. c \<noteq> CHR ''%'' \<and> \<not> shouldEscape EncodeHost c) (host_part host port)"
    by (auto simp: host_part_def list_all_iff plain_char_bytes)
qed

lemma host_part_escaped:
  assumes "list_all plain_char host" and "list_all is_digit port"
  shows "url_escape EncodeHost (host_part host port) = host_part host port"
proof (rule url_escape_plain)
  have "list_all plain_char port" using assms(2) by (auto simp: list_all_iff url_digit_plain)
  with assms(1) show "list_all (\<lambda>c. \<not> shouldEscape EncodeHost c) (host_part host port)"
    by (auto simp: host_part_def list_all_iff plain_char_bytes)
qed

lemma host_part_colon:
  assumes "plain_name host" and "list_all is_digit port"
  shows "cut_last (host_part host port) CHR '':'' = (if port = [] then None else Some (host, port))"
proof -
  have "CHR '':'' \<notin> set host" using assms(1) by (auto simp: plain_name_def list_all_iff)
  moreover have "CHR '':'' \<notin> set port" using assms(2) url_digit_plain plain_char_literals(1) unfolding list_all_iff by blast
  ultimately show ?thesis by (simp add: host_part_def cut_last_found cut_last_none)
qed

lemma parseHost_plain:
  assumes "plain_name host" and "list_all is_digit port"
  shows "parseHost (host_part host port) = Some (host_part host port)"
proof -
  obtain c h where "host = c # h" "plain_char c" using assms(1) by (cases host) (auto simp: plain_name_def)
  then have "\<not> has_prefix (host_part host port) ''[''" by (auto simp: host_part_def)
  moreover have "list_all plain_char host" using assms(1) by (simp add: plain_name_def)
  ultimately show ?thesis
    unfolding parseHost_def using assms host_part_colon [OF assms]
    by (auto simp: host_part_unescaped)
qed

lemma url_port_plain:
  assumes "plain_name host" and "list_all is_digit port"
  shows "url_port (u\<lparr>Host := host_part host port\<rparr>) = port"
  using assms by (simp add: url_port_def host_part_colon)

lemma host_part_chars:
  assumes "plain_name host" and "list_all is_digit port"
  shows "list_all authority_char (host_part host port)" and "CHR ''@'' \<notin> set (host_part host port)"
    and "host_part host port \<noteq> []"
proof -
  have "list_all plain_char port" using assms(2) by (auto simp: list_all_iff url_digit_plain)
  with assms(1) show "list_all authority_char (host_part host port)" "CHR ''@'' \<notin> set (host_part host port)"
      "host_part host port \<noteq> []"
    by (auto simp: host_part_def plain_name_def list_all_iff authority_char_def)
qed

text \<open>URLs without a user, and with a user and an empty password.\<close>

lemma url_parse_host:
  assumes "plain_name host" and "list_all is_digit port"
  shows "url_parse (''redis://'' @ host_part host port) =
    Some (empty_url\<lparr>Scheme := ''redis'', Host := host_part host port\<rparr>)"
proof -
  have "parseAuthority (host_part host port) = Some (None, host_part host port)"
    by (simp add: parseAuthority_def parseHost_plain cut_last_none host_part_chars assms)
  with assms show ?thesis by (simp only: url_parse_authority host_part_chars) (simp add: empty_url_def)
qed

lemma url_parse_credentials:
  assumes "plain_name user" and "list_all plain_char pwd" and "plain_name host" and "list_all is_digit port"
  shows "url_parse (''redis://'' @ user @ '':'' @ pwd @ ''@'' @ host_part host port) =
    Some (empty_url\<lparr>Scheme := ''redis'', UserInfo := Some \<lparr>username = user, password = Some pwd\<rparr>,
      Host := host_part host port\<rparr>)"
proof -
  have user: "list_all plain_char user" "user \<noteq> []" using assms(1) by (simp_all add: plain_name_def)
  with assms(2) have "list_all (\<lambda>c. alphanumeric c \<or> c \<in> set (quote_char # ''-._:~!$&()*+,;=%@'')) (user @ '':'' @ pwd)"
    unfolding plain_char_def list_all_iff by auto
  then have "validUserinfo (user @ '':'' @ pwd)" unfolding validUserinfo_def .
  moreover have "cut_or_all (user @ CHR '':'' # pwd) CHR '':'' = (user, pwd)"
    by (rule cut_or_all_found) (use user in \<open>auto simp: list_all_iff\<close>)
  ultimately have "parseUserinfo (user @ '':'' @ pwd) = Some \<lparr>username = user, password = Some pwd\<rparr>"
    unfolding parseUserinfo_def by (simp add: alphanumeric_unescaped user assms(2))
  moreover have "cut_last ((user @ '':'' @ pwd) @ CHR ''@'' # host_part host port) CHR ''@'' = Some (user @ '':'' @ pwd, host_part host port)"
    by (rule cut_last_found) (simp add: host_part_chars assms)
  ultimately have "parseAuthority (user @ '':'' @ pwd @ ''@'' @ host_part host port) =
      Some (Some \<lparr>username = user, password = Some pwd\<rparr>, host_part host port)"
    by (simp add: parseAuthority_def parseHost_plain assms)
  moreover have "list_all authority_char (user @ '':'' @ pwd @ ''@'' @ host_part host port)"
    using user assms(2) host_part_chars(1) [OF assms(3,4)] by (auto simp: list_all_iff authority_char_def)
  ultimately show ?thesis by (simp only: url_parse_authority) (simp add: empty_url_def)
qed

lemma url_parse_user:
  assumes "plain_name user" and "plain_name host" and "list_all is_digit port"
  shows "url_parse (''redis://'' @ user @ '':@'' @ host_part host port) =
    Some (empty_url\<lparr>Scheme := ''redis'', UserInfo := Some \<lparr>username = user, password = Some []\<rparr>,
      Host := host_part host port\<rparr>)"
  using url_parse_credentials [OF assms(1) _ assms(2,3), of "[]"] by simp

lemma url_parse_user_only:
  assumes "plain_name user" and "plain_name host" and "list_all is_digit port"
  shows "url_parse (''redis://'' @ user @ ''@'' @ host_part host port) =
    Some (empty_url\<lparr>Scheme := ''redis'', UserInfo := Some (url_user user), Host := host_part host port\<rparr>)"
proof -
  have user: "list_all plain_char user" using assms(1) by (simp add: plain_name_def)
  then have "list_all (\<lambda>c. alphanumeric c \<or> c \<in> set (quote_char # ''-._:~!$&()*+,;=%@'')) user"
    unfolding plain_char_def list_all_iff by auto
  then have "validUserinfo user" unfolding validUserinfo_def .
  moreover have "CHR '':'' \<notin> set user" using user by (auto simp: list_all_iff)
  ultimately have "parseUserinfo user = Some (url_user user)"
    unfolding parseUserinfo_def by (simp add: alphanumeric_unescaped user url_user_def)
  moreover have "cut_last (user @ CHR ''@'' # host_part host port) CHR ''@'' = Some (user, host_part host port)"
    by (rule cut_last_found) (simp add: host_part_chars assms)
  ultimately have "parseAuthority (user @ ''@'' @ host_part host port) = Some (Some (url_user user), host_part host port)"
    by (simp add: parseAuthority_def parseHost_plain assms)
  moreover have "list_all authority_char (user @ ''@'' @ host_part host port)"
    using user host_part_chars(1) [OF assms(2,3)] by (auto simp: list_all_iff authority_char_def)
  ultimately show ?thesis by (simp only: url_parse_authority) (simp add: empty_url_def)
qed

text \<open>Printing such a URL.\<close>

lemma url_string_plain:
  assumes "plain_name host" and "list_all is_digit port"
  shows "url_string (empty_url\<lparr>Scheme := ''redis'', UserInfo := ui, Host := host_part host port\<rparr>) =
    ''redis://'' @ (case ui of None \<Rightarrow> [] | Some u \<Rightarrow> user_string u @ ''@'') @ host_part host port"
proof -
  have "list_all plain_char host" using assms(1) by (simp add: plain_name_def)
  then show ?thesis using assms host_part_chars(3) [OF assms]
    by (simp add: url_string_def empty_url_def host_part_escaped escaped_part_def cut_or_all_def)
qed

end
