(* ===== verification/Connect.thy ===== *)
theory Connect
  imports GoUrl Demo
begin

text \<open>
  Connecting (\<open>exporter/redis.go\<close>) and the TLS configuration (\<open>exporter/tls.go\<close>). Dialling, the
  cluster client and the certificate files are parameters of the environment; the address, the
  password and the dial options are worked out here.
\<close>

section \<open>TLS (\<open>exporter/tls.go\<close>)\<close>

definition LoadKeyPair :: "'c env \<Rightarrow> string \<Rightarrow> string \<Rightarrow> ('c, string goresult) io" where
  "LoadKeyPair env certFile keyFile = gets (\<lambda>w. load_x509_key_pair env certFile keyFile (net w))"

text \<open>The result of \<open>AppendCertsFromPEM\<close>, which says whether any certificate was found, is not
  looked at.\<close>

definition LoadCAFile :: "'c env \<Rightarrow> string \<Rightarrow> ('c, string list goresult) io" where
  "LoadCAFile env caFile =
     bnd (gets (\<lambda>w. read_file env caFile (net w))) (\<lambda>r.
       case r of
         Inl err \<Rightarrow> ret (Inl err)
       | Inr pemCerts \<Rightarrow> ret (Inr (certs_from_pem env pemCerts)))"

definition clientCertificates :: "'c env \<Rightarrow> Exporter \<Rightarrow> ('c, string list goresult) io" where
  "clientCertificates env e =
     (if ClientCertFile (options e) \<noteq> [] \<and> ClientKeyFile (options e) \<noteq> [] then
        bnd (LoadKeyPair env (ClientCertFile (options e)) (ClientKeyFile (options e))) (\<lambda>r.
          case r of Inl err \<Rightarrow> ret (Inl err) | Inr cert \<Rightarrow> ret (Inr [cert]))
      else ret (Inr []))"

definition rootCAs :: "'c env \<Rightarrow> Exporter \<Rightarrow> ('c, string list goresult) io" where
  "rootCAs env e =
     (if CaCertFile (options e) \<noteq> [] then LoadCAFile env (CaCertFile (options e))
      else gets (\<lambda>w. system_cert_pool env (net w)))"

definition CreateClientTLSConfig :: "'c env \<Rightarrow> Exporter \<Rightarrow> ('c, tls_config goresult) io" where
  "CreateClientTLSConfig env e =
     bnd (clientCertificates env e) (\<lambda>c.
       case c of
         Inl err \<Rightarrow> ret (Inl err)
       | Inr certs \<Rightarrow>
           bnd (rootCAs env e) (\<lambda>r.
             case r of
               Inl err \<Rightarrow> ret (Inl err)
             | Inr pool \<Rightarrow>
                 ret (Inr \<lparr>InsecureSkipVerify = SkipTLSVerification (options e),
                           Certificates = certs, RootCAs = pool\<rparr>)))"

definition tlsVersions :: "(string \<times> int) list" where
  "tlsVersions = [(''TLS1.3'', 0x0304), (''TLS1.2'', 0x0303), (''TLS1.1'', 0x0302), (''TLS1.0'', 0x0301)]"

text \<open>The server's configuration. The two functions it holds are represented by what they close
  over: \<open>GetCertificate\<close> by the names of the certificate and key files, \<open>GetConfigForClient\<close> by those and
  the name of the file with the client CAs.\<close>

record server_tls_config =
  MinVersion :: int
  ClientAuthRequired :: bool
  ClientCAs :: "string list"
  GetCertificate :: "string \<times> string"
  GetConfigForClient :: "(string \<times> string \<times> string) option"

definition GetServerCertificateFunc :: "'c env \<Rightarrow> string \<times> string \<Rightarrow> ('c, string goresult) io" where
  "GetServerCertificateFunc env files = LoadKeyPair env (fst files) (snd files)"

definition GetConfigForClientFunc ::
  "'c env \<Rightarrow> string \<times> string \<times> string \<Rightarrow> ('c, server_tls_config goresult) io" where
  "GetConfigForClientFunc env files =
     (let (certFile, keyFile, caCertFile) = files in
      bnd (LoadCAFile env caCertFile) (\<lambda>r.
        case r of
          Inl err \<Rightarrow> ret (Inl err)
        | Inr certs \<Rightarrow>
            ret (Inr \<lparr>MinVersion = 0, ClientAuthRequired = True, ClientCAs = certs,
              GetCertificate = (certFile, keyFile), GetConfigForClient = None\<rparr>)))"

definition CreateServerTLSConfig ::
  "'c env \<Rightarrow> string \<Rightarrow> string \<Rightarrow> string \<Rightarrow> string \<Rightarrow> ('c, server_tls_config goresult) io" where
  "CreateServerTLSConfig env certFile keyFile caCertFile minVersionString =
     bnd (LoadKeyPair env certFile keyFile) (\<lambda>r.
       case r of
         Inl err \<Rightarrow> ret (Inl err)
       | Inr cert \<Rightarrow>
           (case map_of tlsVersions minVersionString of
              None \<Rightarrow>
                ret (Inl (''configured minimum TLS version unknown: '' @ squote minVersionString))
            | Some minVersion \<Rightarrow>
                let conf = \<lparr>MinVersion = minVersion, ClientAuthRequired = False, ClientCAs = [],
                      GetCertificate = (certFile, keyFile), GetConfigForClient = None\<rparr>
                in if caCertFile = [] then ret (Inr conf)
                   else bnd (LoadCAFile env caCertFile) (\<lambda>a.
                     case a of
                       Inl err \<Rightarrow> ret (Inl err)
                     | Inr certs \<Rightarrow>
                         ret (Inr (conf\<lparr>GetConfigForClient := Some (certFile, keyFile, caCertFile)\<rparr>)))))"

section \<open>Passwords and options (\<open>exporter/redis.go\<close>)\<close>

text \<open>\<open>strings.Replace(s, old, new, 1)\<close>.\<close>

definition replace_first :: "string \<Rightarrow> string \<Rightarrow> string \<Rightarrow> string" where
  "replace_first s old new = (case go_cut s old of None \<Rightarrow> s | Some (a, b) \<Rightarrow> a @ new @ b)"

definition pwd_map_key :: "Exporter \<Rightarrow> url \<Rightarrow> string" where
  "pwd_map_key e u0 =
     (let u = (if User (options e) \<noteq> [] then u0\<lparr>UserInfo := Some (url_user (User (options e)))\<rparr> else u0)
      in replace_first (url_string u) ('':@'' @ Host u) (''@'' @ Host u))"

definition lookupPasswordInPasswordMap :: "Exporter \<Rightarrow> string \<Rightarrow> string option" where
  "lookupPasswordInPasswordMap e uri =
     (case url_parse uri of
        None \<Rightarrow> None
      | Some u \<Rightarrow>
          (case map_of (PasswordMap (options e)) (pwd_map_key e u) of
             Some pwd \<Rightarrow> if pwd \<noteq> [] then Some pwd else None
           | None \<Rightarrow> None))"

definition dial_options :: "Exporter \<Rightarrow> string \<Rightarrow> tls_config \<Rightarrow> dial_option list" where
  "dial_options e uri tlsConfig =
     [DialConnectTimeout (ConnectionTimeouts (options e)),
      DialReadTimeout (ConnectionTimeouts (options e)),
      DialWriteTimeout (ConnectionTimeouts (options e)),
      DialTLSConfig tlsConfig,
      DialUseTLS (has_prefix (redisAddr e) ''rediss://'')] @
     (if User (options e) \<noteq> [] then [DialUsername (User (options e))] else []) @
     (if Password (options e) \<noteq> [] then [DialPassword (Password (options e))] else []) @
     (case lookupPasswordInPasswordMap e uri of
        Some pwd \<Rightarrow> if pwd \<noteq> [] then [DialPassword pwd] else []
      | None \<Rightarrow> [])"

definition configureOptions :: "'c env \<Rightarrow> Exporter \<Rightarrow> string \<Rightarrow> ('c, dial_option list goresult) io" where
  "configureOptions env e uri =
     bnd (CreateClientTLSConfig env e) (\<lambda>r.
       case r of
         Inl err \<Rightarrow> ret (Inl err)
       | Inr tlsConfig \<Rightarrow> ret (Inr (dial_options e uri tlsConfig)))"

section \<open>Connections\<close>

definition on_net :: "('c \<Rightarrow> 'a \<times> 'c) \<Rightarrow> ('c, 'a) io" where
  "on_net f = act (\<lambda>w. let (r, n) = f (net w) in (r, w\<lparr>net := n\<rparr>))"

definition closeConn :: "'c env \<Rightarrow> conn \<Rightarrow> ('c, unit) io" where
  "closeConn env c = modify (\<lambda>w. w\<lparr>net := conn_close env c (net w)\<rparr>)"

definition with_scheme :: "string \<Rightarrow> string" where
  "with_scheme uri = (if go_contains uri ''://'' then uri else ''redis://'' @ uri)"

definition connectToRedis :: "'c env \<Rightarrow> Exporter \<Rightarrow> ('c, conn goresult) io" where
  "connectToRedis env e =
     (let uri = with_scheme (redisAddr e) in
      bnd (configureOptions env e uri) (\<lambda>conf.
        case conf of
          Inl err \<Rightarrow> ret (Inl err)
        | Inr opts \<Rightarrow>
            bnd (on_net (dial_url env uri opts)) (\<lambda>r.
              case r of
                Inr c \<Rightarrow> ret (Inr c)
              | Inl err \<Rightarrow>
                  (case go_split (redisAddr e) ''://'' of
                     [network, address] \<Rightarrow> on_net (dial_addr env network address opts)
                   | _ \<Rightarrow> on_net (dial_addr env ''tcp'' (redisAddr e) opts)))))"

text \<open>The startup node; \<open>None\<close> when the URL that could not be parsed is used (a nil pointer).\<close>

definition startup_node :: "string \<Rightarrow> string option" where
  "startup_node uri =
     (if go_contains uri ''://'' then
        map_option (\<lambda>u. if url_port u = [] then Host u @ '':6379'' else Host u) (url_parse uri)
      else if length (go_split uri '':'') \<noteq> 2 then Some (uri @ '':6379'') else Some uri)"

definition connectToRedisCluster :: "'c env \<Rightarrow> Exporter \<Rightarrow> ('c, conn goresult) io" where
  "connectToRedisCluster env e =
     (let uri = with_scheme (redisAddr e) in
      bnd (configureOptions env e uri) (\<lambda>conf.
        case conf of
          Inl err \<Rightarrow> ret (Inl err)
        | Inr opts \<Rightarrow>
            (case startup_node uri of
               None \<Rightarrow> panic ''nil pointer dereference''
             | Some node \<Rightarrow>
                 bnd (on_net (cluster_refresh env [node] opts)) (\<lambda>f.
                   case f of
                     Some err \<Rightarrow> ret (Inl (''cluster refresh failed: '' @ err))
                   | None \<Rightarrow>
                       bnd (on_net (cluster_dial env [node] opts)) (\<lambda>d.
                         case d of
                           Inl err \<Rightarrow> ret (Inl (''dial failed: '' @ err))
                         | Inr conn \<Rightarrow>
                             bnd (on_net (cluster_retry env conn 10 100000000)) (\<lambda>r.
                               case r of
                                 Inl err \<Rightarrow> ret (Inl (''retryConn failed: '' @ err))
                               | Inr c \<Rightarrow> ret (Inr c)))))))"

text \<open>From \<open>exporter.go\<close>: the connection for commands on keys.\<close>

definition getKeyOperationConnection :: "'c env \<Rightarrow> Exporter \<Rightarrow> conn \<Rightarrow> ('c, conn goresult) io" where
  "getKeyOperationConnection env e defaultConn =
     (if IsCluster (options e) then connectToRedisCluster env e else ret (Inr defaultConn))"


section \<open>Which password is used\<close>

text \<open>The client library applies the options in order, so the last password counts.\<close>

fun last_password :: "dial_option list \<Rightarrow> string option" where
  "last_password [] = None"
| "last_password (DialPassword p # opts) =
     (case last_password opts of None \<Rightarrow> Some p | Some q \<Rightarrow> Some q)"
| "last_password (_ # opts) = last_password opts"

lemma last_password_append:
  "last_password (xs @ ys) = (case last_password ys of None \<Rightarrow> last_password xs | Some p \<Rightarrow> Some p)"
  by (induction xs rule: last_password.induct) (auto split: option.splits)

lemma lookup_not_empty: "lookupPasswordInPasswordMap e uri \<noteq> Some []"
  by (auto simp: lookupPasswordInPasswordMap_def split: option.splits if_splits)

lemma dial_password:
  "last_password (dial_options e uri conf) =
     (case lookupPasswordInPasswordMap e uri of
        Some pwd \<Rightarrow> Some pwd
      | None \<Rightarrow> if Password (options e) = [] then None else Some (Password (options e)))"
  using lookup_not_empty [of e uri]
  by (auto simp: dial_options_def last_password_append split: option.splits)

lemma configureOptions_Fine:
  "configureOptions env e uri w = Fine (Inr opts, w') \<Longrightarrow> \<exists>conf. opts = dial_options e uri conf"
  by (auto simp: configureOptions_def prog_defs split: outcome.splits prod.splits sum.splits)

text \<open>The options are applied in order: the password of the map comes after the configured one. A
  password in the address itself is added later, inside the dialling.\<close>

lemma configureOptions_password:
  assumes "configureOptions env e uri w = Fine (Inr opts, w')"
  shows "last_password opts =
      (case lookupPasswordInPasswordMap e uri of
         Some pwd \<Rightarrow> Some pwd
       | None \<Rightarrow> if Password (options e) = [] then None else Some (Password (options e))) \<and>
    (DialUsername u \<in> set opts \<longleftrightarrow> u = User (options e) \<and> u \<noteq> [])"
proof -
  from configureOptions_Fine [OF assms] obtain conf where opts: "opts = dial_options e uri conf" by blast
  show ?thesis unfolding opts dial_password by (auto simp: dial_options_def split: option.splits)
qed

text \<open>The name under which a plain address is looked up: with the user of the options, or as
  written, a colon without a password after the user removed.\<close>

lemma replace_first_none: "go_cut s old = None \<Longrightarrow> replace_first s old new = s"
  by (simp add: replace_first_def)

lemma go_cut_first:
  assumes "CHR '':'' \<notin> set x"
  shows "go_cut (x @ '':@'' @ y) ('':@'' @ h) = map_option (\<lambda>(a, b). (x @ a, b)) (go_cut ('':@'' @ y) ('':@'' @ h))"
  using assms by (induction x) (auto simp: has_prefix_def option.map_comp comp_def split_def)

lemma go_cut_no_at: "CHR ''@'' \<notin> set s \<Longrightarrow> go_cut s ('':@'' @ h) = None"
proof (induction s)
  case (Cons c s)
  have "\<not> has_prefix (c # s) ('':@'' @ h)"
  proof
    assume "has_prefix (c # s) ('':@'' @ h)"
    then obtain t where "c # s = ('':@'' @ h) @ t" unfolding has_prefix_iff by blast
    with Cons.prems show False by simp
  qed
  with Cons show ?case by simp
qed simp

lemma user_string_plain:
  assumes "plain_name user"
  shows "user_string (url_user user) = user"
    and "user_string \<lparr>username = user, password = Some []\<rparr> = user @ '':''"
proof -
  have "list_all (\<lambda>c. \<not> shouldEscape EncodeUserPassword c) user"
    using assms by (auto simp: plain_name_def list_all_iff plain_char_bytes)
  then have "url_escape EncodeUserPassword user = user" by (rule url_escape_plain)
  with assms show "user_string (url_user user) = user"
    "user_string \<lparr>username = user, password = Some []\<rparr> = user @ '':''"
    by (simp_all add: user_string_def url_user_def plain_name_def)
qed

lemma prefix_self: "has_prefix s s"
  using has_prefix_append [of s "[]"] by simp

lemma go_cut_skip:
  assumes "CHR '':'' \<notin> set x" and "go_cut s ('':@'' @ h) = None"
  shows "go_cut (x @ s) ('':@'' @ h) = None"
  using assms(1)
proof (induction x)
  case (Cons c x)
  then have "\<not> has_prefix (c # x @ s) ('':@'' @ h)" by (auto simp: has_prefix_def)
  with Cons show ?case by simp
qed (use assms(2) in simp)

lemma redis_prefix_cut:
  "go_cut (''redis://'' @ s) ('':@'' @ h) = map_option (\<lambda>(a, b). (''redis://'' @ a, b)) (go_cut s ('':@'' @ h))"
  by (simp add: has_prefix_def option.map_comp comp_def split_def)

lemma strip_colon:
  assumes "plain_name user" and "list_all plain_char pwd" and "CHR ''@'' \<notin> set h"
  shows "replace_first (''redis://'' @ user @ '':@'' @ h) ('':@'' @ h) (''@'' @ h) = ''redis://'' @ user @ ''@'' @ h"
    and "replace_first (''redis://'' @ user @ ''@'' @ h) ('':@'' @ h) (''@'' @ h) = ''redis://'' @ user @ ''@'' @ h"
    and "pwd \<noteq> [] \<Longrightarrow> replace_first (''redis://'' @ user @ '':'' @ pwd @ ''@'' @ h) ('':@'' @ h) (''@'' @ h) =
      ''redis://'' @ user @ '':'' @ pwd @ ''@'' @ h"
    and "replace_first (''redis://'' @ h) ('':@'' @ h) (''@'' @ h) = ''redis://'' @ h"
proof -
  have colon: "CHR '':'' \<notin> set user" "CHR '':'' \<notin> set pwd"
    using assms(1,2) by (auto simp: plain_name_def list_all_iff)
  have none: "replace_first (''redis://'' @ s) ('':@'' @ h) (''@'' @ h) = ''redis://'' @ s" if "go_cut s ('':@'' @ h) = None" for s
    using redis_prefix_cut [of s h] that by (simp add: replace_first_none)
  have h: "go_cut h ('':@'' @ h) = None" by (rule go_cut_no_at [OF assms(3)])
  then have at: "go_cut (''@'' @ h) ('':@'' @ h) = None" by (intro go_cut_skip) simp
  have "go_cut ('':@'' @ h) ('':@'' @ h) = Some ([], [])"
    using prefix_self [of "'':@'' @ h"] by simp
  then have "go_cut (user @ '':@'' @ h) ('':@'' @ h) = Some (user, [])"
    unfolding go_cut_first [OF colon(1)] by simp
  then show "replace_first (''redis://'' @ user @ '':@'' @ h) ('':@'' @ h) (''@'' @ h) = ''redis://'' @ user @ ''@'' @ h"
    unfolding replace_first_def redis_prefix_cut by simp
  show "replace_first (''redis://'' @ user @ ''@'' @ h) ('':@'' @ h) (''@'' @ h) = ''redis://'' @ user @ ''@'' @ h"
    by (intro none go_cut_skip [OF colon(1)] at)
  show "replace_first (''redis://'' @ user @ '':'' @ pwd @ ''@'' @ h) ('':@'' @ h) (''@'' @ h) =
      ''redis://'' @ user @ '':'' @ pwd @ ''@'' @ h" if "pwd \<noteq> []"
  proof (intro none go_cut_skip [OF colon(1)])
    have "hd pwd \<noteq> CHR ''@''" using assms(2) that by (cases pwd) auto
    with that have "\<not> has_prefix ('':'' @ pwd @ ''@'' @ h) ('':@'' @ h)" by (cases pwd) (auto simp: has_prefix_def)
    with go_cut_skip [OF colon(2) at] show "go_cut ('':'' @ pwd @ ''@'' @ h) ('':@'' @ h) = None" by simp
  qed
  show "replace_first (''redis://'' @ h) ('':@'' @ h) (''@'' @ h) = ''redis://'' @ h"
    by (intro none h)
qed

definition found_password :: "Exporter \<Rightarrow> string \<Rightarrow> string option" where
  "found_password e k = (case map_of (PasswordMap (options e)) k of Some [] \<Rightarrow> None | r \<Rightarrow> r)"

lemma lookup_found:
  "url_parse uri = Some u \<Longrightarrow> lookupPasswordInPasswordMap e uri = found_password e (pwd_map_key e u)"
  by (auto simp: lookupPasswordInPasswordMap_def found_password_def split: option.splits list.splits)

lemma pwd_map_key_plain:
  assumes "plain_name host" and "list_all is_digit port"
    and "User (options e) = [] \<or> plain_name (User (options e))"
  defines "h \<equiv> host_part host port"
  shows "pwd_map_key e (empty_url\<lparr>Scheme := ''redis'', UserInfo := ui, Host := h\<rparr>) =
    (if User (options e) = [] then
       replace_first (''redis://'' @ (case ui of None \<Rightarrow> [] | Some u \<Rightarrow> user_string u @ ''@'') @ h) ('':@'' @ h) (''@'' @ h)
     else ''redis://'' @ User (options e) @ ''@'' @ h)"
proof -
  note prt = url_string_plain [OF assms(1,2), folded h_def]
  show ?thesis
  proof (cases "User (options e) = []")
    case True
    then show ?thesis using prt [of ui] by (simp add: pwd_map_key_def)
  next
    case False
    with assms(3) have user: "plain_name (User (options e))" by simp
    have at: "CHR ''@'' \<notin> set h" unfolding h_def by (rule host_part_chars [OF assms(1,2)])
    have "empty_url\<lparr>Scheme := ''redis'', UserInfo := Some (url_user (User (options e))), Host := h\<rparr> =
        (empty_url\<lparr>Scheme := ''redis'', UserInfo := ui, Host := h\<rparr>)\<lparr>UserInfo := Some (url_user (User (options e)))\<rparr>"
      by (simp add: empty_url_def)
    with prt [of "Some (url_user (User (options e)))"] strip_colon(2) [OF user _ at, of "[]"] False show ?thesis
      by (simp add: pwd_map_key_def user_string_plain [OF user] empty_url_def)
  qed
qed

lemma lookup_plain_host:
  assumes "plain_name host" and "list_all is_digit port"
    and "User (options e) = [] \<or> plain_name (User (options e))"
  defines "h \<equiv> host_part host port"
  shows "lookupPasswordInPasswordMap e (''redis://'' @ h) =
    found_password e (if User (options e) = [] then ''redis://'' @ h else ''redis://'' @ User (options e) @ ''@'' @ h)"
proof -
  note key = pwd_map_key_plain [OF assms(1-3), folded h_def, of None]
  have url: "empty_url\<lparr>Scheme := ''redis'', Host := h\<rparr> = empty_url\<lparr>Scheme := ''redis'', UserInfo := None, Host := h\<rparr>"
    by (simp add: empty_url_def)
  have "plain_name ''a''" by code_simp
  then have "replace_first (''redis://'' @ h) ('':@'' @ h) (''@'' @ h) = ''redis://'' @ h"
    by (rule strip_colon(4) [where pwd = "[]"]) (simp_all add: h_def host_part_chars assms)
  with key show ?thesis
    unfolding lookup_found [OF url_parse_host [OF assms(1,2), folded h_def]] url by simp
qed

lemma lookup_plain_user:
  assumes "plain_name user" and "list_all plain_char pwd" and "plain_name host" and "list_all is_digit port"
    and "User (options e) = [] \<or> plain_name (User (options e))"
  defines "h \<equiv> host_part host port" and "name \<equiv> if User (options e) = [] then user else User (options e)"
  shows "lookupPasswordInPasswordMap e (''redis://'' @ user @ '':@'' @ h) = found_password e (''redis://'' @ name @ ''@'' @ h)"
    and "lookupPasswordInPasswordMap e (''redis://'' @ user @ ''@'' @ h) = found_password e (''redis://'' @ name @ ''@'' @ h)"
    and "pwd \<noteq> [] \<Longrightarrow> lookupPasswordInPasswordMap e (''redis://'' @ user @ '':'' @ pwd @ ''@'' @ h) =
      found_password e (if User (options e) = [] then ''redis://'' @ user @ '':'' @ pwd @ ''@'' @ h
        else ''redis://'' @ name @ ''@'' @ h)"
proof -
  note plain = assms(1,3,4) and key = pwd_map_key_plain [OF assms(3-5), folded h_def]
  have at: "CHR ''@'' \<notin> set h" unfolding h_def by (rule host_part_chars [OF assms(3,4)])
  note cut = strip_colon [OF assms(1,2) at] and str = user_string_plain [OF assms(1)]
  have "list_all (\<lambda>c. \<not> shouldEscape EncodeUserPassword c) (user @ pwd)"
    using assms(1,2) by (auto simp: plain_name_def list_all_iff plain_char_bytes)
  then have esc: "url_escape EncodeUserPassword user = user" "url_escape EncodeUserPassword pwd = pwd"
    by (simp_all add: url_escape_plain)
  have "user \<noteq> []" using assms(1) by (simp add: plain_name_def)
  then have pair: "user_string \<lparr>username = user, password = Some pwd\<rparr> = user @ '':'' @ pwd"
    by (simp add: user_string_def esc)
  show "lookupPasswordInPasswordMap e (''redis://'' @ user @ '':@'' @ h) = found_password e (''redis://'' @ name @ ''@'' @ h)"
    unfolding lookup_found [OF url_parse_user [OF plain, folded h_def]] key
    using cut(1) by (simp add: str name_def)
  show "lookupPasswordInPasswordMap e (''redis://'' @ user @ ''@'' @ h) = found_password e (''redis://'' @ name @ ''@'' @ h)"
    unfolding lookup_found [OF url_parse_user_only [OF plain, folded h_def]] key
    using cut(2) by (simp add: str name_def)
  show "lookupPasswordInPasswordMap e (''redis://'' @ user @ '':'' @ pwd @ ''@'' @ h) =
      found_password e (if User (options e) = [] then ''redis://'' @ user @ '':'' @ pwd @ ''@'' @ h
        else ''redis://'' @ name @ ''@'' @ h)" if "pwd \<noteq> []"
    unfolding lookup_found [OF url_parse_credentials [OF assms(1-4), folded h_def]] key
    using cut(3) [OF that] by (simp add: pair name_def)
qed

text \<open>C22: the key of the password map for a plain \<open>redis://\<close> address. A user in the options replaces
  whatever the address has: the key is then \<open>redis://user@host:port\<close> with that user. Without one the key is
  the address as written, from which only a colon with no password behind it is removed. An empty entry
  counts as none.\<close>

theorem password_lookup_key:
  assumes "plain_name user" and "list_all plain_char pwd" and "pwd \<noteq> []"
    and "plain_name host" and "list_all is_digit port"
    and "User (options e) = [] \<or> plain_name (User (options e))"
  defines "h \<equiv> host_part host port" and "lookup \<equiv> lookupPasswordInPasswordMap e"
    and "found \<equiv> \<lambda>k. case map_of (PasswordMap (options e)) k of Some [] \<Rightarrow> None | r \<Rightarrow> r"
  shows "if User (options e) \<noteq> []
    then \<forall>uri \<in> {''redis://'' @ h, ''redis://'' @ user @ ''@'' @ h, ''redis://'' @ user @ '':@'' @ h,
        ''redis://'' @ user @ '':'' @ pwd @ ''@'' @ h}.
      lookup uri = found (''redis://'' @ User (options e) @ ''@'' @ h)
    else lookup (''redis://'' @ h) = found (''redis://'' @ h) \<and>
      lookup (''redis://'' @ user @ ''@'' @ h) = found (''redis://'' @ user @ ''@'' @ h) \<and>
      lookup (''redis://'' @ user @ '':@'' @ h) = found (''redis://'' @ user @ ''@'' @ h) \<and>
      lookup (''redis://'' @ user @ '':'' @ pwd @ ''@'' @ h) = found (''redis://'' @ user @ '':'' @ pwd @ ''@'' @ h)"
proof -
  have found: "found_password e = found" by (simp add: fun_eq_iff found_password_def found_def)
  note host = lookup_plain_host [OF assms(4-6), folded h_def lookup_def, unfolded found]
  note user = lookup_plain_user [OF assms(1,2,4-6), folded h_def lookup_def, unfolded found]
  note all = host user(1,2) user(3) [OF assms(3)]
  show ?thesis
  proof (cases "User (options e) = []")
    case True
    from all show ?thesis unfolding True by simp
  next
    case False
    with all have "lookup uri = found (''redis://'' @ User (options e) @ ''@'' @ h)"
      if "uri \<in> {''redis://'' @ h, ''redis://'' @ user @ ''@'' @ h, ''redis://'' @ user @ '':@'' @ h,
        ''redis://'' @ user @ '':'' @ pwd @ ''@'' @ h}" for uri
      using that by (elim insertE emptyE) simp_all
    with False show ?thesis by simp
  qed
qed

definition key_options :: "string \<Rightarrow> Options" where
  "key_options user = demo_options\<lparr>User := user,
     PasswordMap := [(''redis://bob@localhost:6379'', ''secret''), (''redis://eve@localhost:6379'', ''hers'')]\<rparr>"

theorem password_lookup_key_witness:
  "lookupPasswordInPasswordMap (demo_exporter\<lparr>options := key_options []\<rparr>) ''redis://bob:@localhost:6379'' = Some ''secret'' \<and>
   lookupPasswordInPasswordMap (demo_exporter\<lparr>options := key_options ''eve''\<rparr>) ''redis://bob:@localhost:6379'' = Some ''hers''"
proof -
  have plain: "plain_name ''bob''" "list_all plain_char ''pw''" "''pw'' \<noteq> []" "plain_name ''localhost''" "list_all is_digit ''6379''"
    and eve: "plain_name ''eve''" by code_simp+
  show ?thesis
    using password_lookup_key [OF plain, of "demo_exporter\<lparr>options := key_options []\<rparr>"]
      password_lookup_key [OF plain, of "demo_exporter\<lparr>options := key_options ''eve''\<rparr>"] eve
    by (simp add: key_options_def demo_options_def host_part_def)
qed

section \<open>TLS\<close>

text \<open>C30: the TLS configuration of the client: verification of the server is switched off only by the
  option, the trusted CAs are those of the configured file (or of the system without one), and a
  certificate is presented exactly when both of its files are configured.\<close>

theorem client_tls_config:
  assumes "CreateClientTLSConfig env e w = Fine (Inr conf, w')"
  shows "InsecureSkipVerify conf = SkipTLSVerification (options e) \<and>
    (if CaCertFile (options e) = [] then system_cert_pool env (net w) = Inr (RootCAs conf)
     else \<exists>pem. read_file env (CaCertFile (options e)) (net w) = Inr pem \<and> RootCAs conf = certs_from_pem env pem) \<and>
    (if ClientCertFile (options e) \<noteq> [] \<and> ClientKeyFile (options e) \<noteq> []
     then \<exists>cert. load_x509_key_pair env (ClientCertFile (options e)) (ClientKeyFile (options e)) (net w) = Inr cert
            \<and> Certificates conf = [cert]
     else Certificates conf = [])"
  using assms
  by (auto simp: CreateClientTLSConfig_def clientCertificates_def rootCAs_def LoadKeyPair_def LoadCAFile_def prog_defs
      split: outcome.splits prod.splits sum.splits if_splits)

text \<open>A TLS environment for the examples: every file can be read, the file \<open>empty.pem\<close> has no
  certificate in it.\<close>

definition tls_env :: "reply goresult list env" where
  "tls_env = demo_env\<lparr>read_file := \<lambda>f _. Inr f, load_x509_key_pair := \<lambda>c k _. Inr c,
     certs_from_pem := \<lambda>pem. if pem = ''empty.pem'' then [] else [pem]\<rparr>"

theorem client_tls_config_witness:
  "\<exists>conf w'. CreateClientTLSConfig tls_env (demo_exporter\<lparr>options := demo_options\<lparr>CaCertFile := ''ca.pem''\<rparr>\<rparr>)
     (start_world demo_exporter []) = Fine (Inr conf, w') \<and> RootCAs conf = [''ca.pem''] \<and> \<not> InsecureSkipVerify conf"
proof -
  let ?e = "demo_exporter\<lparr>options := demo_options\<lparr>CaCertFile := ''ca.pem''\<rparr>\<rparr>"
  let ?w = "start_world demo_exporter ([] :: reply goresult list)"
  obtain conf w' where r: "CreateClientTLSConfig tls_env ?e ?w = Fine (Inr conf, w')"
    by (simp add: CreateClientTLSConfig_def clientCertificates_def rootCAs_def LoadCAFile_def demo_options_def tls_env_def prog_defs)
  from client_tls_config [OF r] r show ?thesis by (simp add: demo_options_def tls_env_def)
qed

text \<open>a CA file that can be read but has no certificate in it is accepted; the client then trusts
  no CA at all.\<close>

theorem ca_file_without_certificates:
  assumes "read_file env caFile (net w) = Inr pem" and "certs_from_pem env pem = []"
  shows "LoadCAFile env caFile w = Fine (Inr [], w)"
  using assms by (simp add: LoadCAFile_def prog_defs)

theorem ca_file_without_certificates_witness:
  "LoadCAFile tls_env ''empty.pem'' (start_world demo_exporter []) = Fine (Inr [], start_world demo_exporter [])"
  using ca_file_without_certificates [of tls_env "''empty.pem''" "start_world demo_exporter []" "''empty.pem''"]
  by (simp add: tls_env_def)

text \<open>The configuration the TLS library uses for a handshake: with \<open>GetConfigForClient\<close> set, the one
  that function returns, otherwise the server's own.\<close>

definition handshakeConfig :: "'c env \<Rightarrow> server_tls_config \<Rightarrow> ('c, server_tls_config goresult) io" where
  "handshakeConfig env conf =
     (case GetConfigForClient conf of
        None \<Rightarrow> ret (Inr conf)
      | Some files \<Rightarrow> GetConfigForClientFunc env files)"

lemma tls_versions: "map_of tlsVersions v = Some n \<Longrightarrow> 0x0301 \<le> n \<and> n \<le> 0x0304"
  by (auto simp: tlsVersions_def split: if_splits)

text \<open>C31: a server configuration is made only for a known minimum version, from TLS 1.0 to TLS 1.3,
  and without a client CA this version holds in every handshake.\<close>

theorem server_min_version:
  assumes "CreateServerTLSConfig env certFile keyFile [] v w = Fine (Inr conf, w')"
  shows "map_of tlsVersions v = Some (MinVersion conf) \<and> 0x0301 \<le> MinVersion conf \<and> MinVersion conf \<le> 0x0304 \<and>
    handshakeConfig env conf w'' = Fine (Inr conf, w'')"
  using assms tls_versions [of v]
  by (auto simp: CreateServerTLSConfig_def LoadKeyPair_def handshakeConfig_def prog_defs
      split: outcome.splits prod.splits sum.splits option.splits)

theorem server_min_version_witness:
  "\<exists>conf w'. CreateServerTLSConfig tls_env ''c.pem'' ''k.pem'' [] ''TLS1.3'' (start_world demo_exporter []) = Fine (Inr conf, w')
     \<and> MinVersion conf = 0x0304"
proof -
  obtain conf w' where r: "CreateServerTLSConfig tls_env ''c.pem'' ''k.pem'' [] ''TLS1.3''
      (start_world demo_exporter ([] :: reply goresult list)) = Fine (Inr conf, w')"
    by (simp add: CreateServerTLSConfig_def LoadKeyPair_def tls_env_def tlsVersions_def prog_defs)
  from server_min_version [OF r] r show ?thesis by (simp add: tlsVersions_def)
qed

text \<open>C32: with a client CA the configured minimum version is lost: the configuration a handshake uses
  has no minimum version of its own, while it does require a client certificate.\<close>

theorem client_ca_drops_min_version:
  assumes "CreateServerTLSConfig env certFile keyFile caFile v w = Fine (Inr conf, w')" and "caFile \<noteq> []"
    and "handshakeConfig env conf w'' = Fine (Inr used, w3)"
  shows "MinVersion used = 0 \<and> ClientAuthRequired used \<and> 0x0301 \<le> MinVersion conf"
  using assms tls_versions [of v]
  by (auto simp: CreateServerTLSConfig_def LoadKeyPair_def handshakeConfig_def GetConfigForClientFunc_def prog_defs
      split: outcome.splits prod.splits sum.splits option.splits)

theorem client_ca_drops_min_version_witness:
  "\<exists>conf used w' w''. CreateServerTLSConfig tls_env ''c.pem'' ''k.pem'' ''ca.pem'' ''TLS1.3'' (start_world demo_exporter [])
       = Fine (Inr conf, w') \<and> handshakeConfig tls_env conf w' = Fine (Inr used, w'') \<and> MinVersion used = 0"
proof -
  obtain conf w' where r: "CreateServerTLSConfig tls_env ''c.pem'' ''k.pem'' ''ca.pem'' ''TLS1.3''
      (start_world demo_exporter ([] :: reply goresult list)) = Fine (Inr conf, w')"
      "GetConfigForClient conf = Some (''c.pem'', ''k.pem'', ''ca.pem'')"
    by (simp add: CreateServerTLSConfig_def LoadKeyPair_def LoadCAFile_def tls_env_def tlsVersions_def prog_defs)
  then obtain used w'' where "handshakeConfig tls_env conf w' = Fine (Inr used, w'')"
    by (simp add: handshakeConfig_def GetConfigForClientFunc_def LoadCAFile_def tls_env_def prog_defs)
  with client_ca_drops_min_version [OF r(1) _ this] r(1) show ?thesis by blast
qed

section \<open>Connecting is safe\<close>

lemma keeps_on_net [hoare_rules]: "keeps (inv e N) (on_net f)"
  by (simp add: on_net_def holds_def act_def split: prod.splits)

lemma keeps_closeConn [hoare_rules]: "keeps (inv e N) (closeConn env c)"
  by (simp add: closeConn_def holds_def modify_def)

lemma keeps_configureOptions [hoare_rules]: "keeps (inv e N) (configureOptions env e' uri)"
  unfolding configureOptions_def CreateClientTLSConfig_def clientCertificates_def rootCAs_def LoadKeyPair_def LoadCAFile_def
  by (intro hoare_rules)

lemma keeps_connectToRedis [hoare_rules]: "keeps (inv e N) (connectToRedis env e')"
  unfolding connectToRedis_def Let_def by (intro hoare_rules)

definition cluster_addr_ok :: "Exporter \<Rightarrow> bool" where
  "cluster_addr_ok e \<longleftrightarrow> (IsCluster (options e) \<longrightarrow> url_parse (with_scheme (redisAddr e)) \<noteq> None)"

lemma contains_append: "go_contains (x @ sub @ y) sub"
proof (induction x)
  case Nil
  show ?case by (cases sub; cases y) (auto simp: has_prefix_def)
qed simp

lemma with_scheme_contains: "go_contains (with_scheme uri) ''://''"
  using contains_append [of "''redis''" "''://''" uri] by (auto simp: with_scheme_def)

lemma keeps_connectToRedisCluster:
  assumes "url_parse (with_scheme (redisAddr e')) \<noteq> None"
  shows "keeps (inv e N) (connectToRedisCluster env e')"
proof -
  have "startup_node (with_scheme (redisAddr e')) \<noteq> None"
    using assms by (simp add: startup_node_def with_scheme_contains)
  then show ?thesis
    unfolding connectToRedisCluster_def Let_def by (intro hoare_rules) simp_all
qed

lemma keeps_getKeyOperationConnection [hoare_rules]:
  "cluster_addr_ok e' \<Longrightarrow> keeps (inv e N) (getKeyOperationConnection env e' c)"
  unfolding getKeyOperationConnection_def
  by (intro hoare_rules keeps_connectToRedisCluster) (simp add: cluster_addr_ok_def)

lemma finishes_on_net [finish_rules]: "finishes (on_net f)" "finishes (closeConn env c)"
  unfolding on_net_def closeConn_def by (intro finish_rules)+

lemma finishes_configureOptions [finish_rules]: "finishes (configureOptions env e uri)"
  unfolding configureOptions_def CreateClientTLSConfig_def clientCertificates_def rootCAs_def LoadKeyPair_def LoadCAFile_def
  by (intro finish_rules)

lemma finishes_connect [finish_rules]:
  "finishes (connectToRedis env e)" "finishes (connectToRedisCluster env e)" "finishes (getKeyOperationConnection env e c)"
  unfolding connectToRedis_def getKeyOperationConnection_def connectToRedisCluster_def Let_def by (intro finish_rules)+

text \<open>the cluster connection starts at the host of the address, with port 6379 where it has
  none.\<close>

theorem cluster_default_port:
  assumes "plain_name host" and "list_all is_digit port"
  shows "startup_node (''redis://'' @ host_part host port) =
    Some (host_part host (if port = [] then ''6379'' else port))"
proof -
  have "go_contains (''redis://'' @ host_part host port) ''://''"
    using contains_append [of "''redis''" "''://''" "host_part host port"] by simp
  then show ?thesis
    unfolding startup_node_def url_parse_host [OF assms]
    using url_port_plain [OF assms] by (simp add: host_part_def)
qed

theorem cluster_default_port_witness: "startup_node ''redis://node-1'' = Some ''node-1:6379''"
proof -
  have "plain_name ''node-1''" by code_simp
  from cluster_default_port [OF this, of "[]"] show ?thesis by (simp add: host_part_def)
qed

text \<open>C40: in cluster mode an address that cannot be parsed as a URL, such as an IPv6 address with a
  zone, ends the process: the parse error is ignored and the missing URL is used.\<close>

theorem cluster_unparsable_address_panics:
  assumes "IsCluster (options e)" and "url_parse (with_scheme (redisAddr e)) = None"
    and "configureOptions env e (with_scheme (redisAddr e)) w = Fine (Inr opts, w')"
  shows "getKeyOperationConnection env e c w = Panic ''nil pointer dereference''"
proof -
  have "startup_node (with_scheme (redisAddr e)) = None"
    using assms(2) by (simp add: startup_node_def with_scheme_contains)
  with assms(1,3) show ?thesis
    by (simp add: getKeyOperationConnection_def connectToRedisCluster_def Let_def bnd_def panic_def)
qed

theorem cluster_unparsable_address_panics_witness:
  "getKeyOperationConnection demo_env
     (demo_exporter\<lparr>redisAddr := ''[fe80::1%eth0]:6379'', options := demo_options\<lparr>IsCluster := True\<rparr>\<rparr>) 0
     (start_world demo_exporter []) = Panic ''nil pointer dereference''"
proof -
  let ?e = "demo_exporter\<lparr>redisAddr := ''[fe80::1%eth0]:6379'', options := demo_options\<lparr>IsCluster := True\<rparr>\<rparr>"
  let ?w = "start_world demo_exporter ([] :: reply goresult list)"
  have a: "url_parse (with_scheme ''[fe80::1%eth0]:6379'') = None" by code_simp
  obtain opts w' where "configureOptions demo_env ?e (with_scheme ''[fe80::1%eth0]:6379'') ?w = Fine (Inr opts, w')"
    by (simp add: configureOptions_def CreateClientTLSConfig_def clientCertificates_def rootCAs_def demo_options_def prog_defs)
  with cluster_unparsable_address_panics [of ?e demo_env ?w opts w' 0] a show ?thesis by (simp add: demo_options_def)
qed

end
