(* ===== verification/Scrape.thy ===== *)
theory Scrape
  imports KeyGroups Clients Latency Streams Extractors Connect
begin

text \<open>
  A scrape (\<open>exporter/exporter.go\<close>): the CONFIG reply, the sequence of collectors over one
  connection and \<open>Collect\<close> with the exporter's own metrics.
\<close>

section \<open>CONFIG GET\<close>

definition registerNumber :: "'c env \<Rightarrow> Exporter \<Rightarrow> string \<Rightarrow> string \<Rightarrow> string list \<Rightarrow> ('c, unit) io" where
  "registerNumber env e metric s labels =
     (case parse_float s of
        (val, None) \<Rightarrow> registerConstMetricGauge env e metric val labels
      | (_, Some err) \<Rightarrow> skip)"

text \<open>The loop over the words of \<open>client-output-buffer-limit\<close>, four at a time.\<close>

function buffer_limits :: "'c env \<Rightarrow> Exporter \<Rightarrow> string list \<Rightarrow> ('c, unit) io" where
  "buffer_limits env e [] = skip"
| "buffer_limits env e (cls # rest) =
     at_index rest 0 (\<lambda>hard.
     andthen (registerNumber env e ''config_client_output_buffer_limit_bytes'' hard [cls, ''hard''])
     (at_index rest 1 (\<lambda>soft.
     andthen (registerNumber env e ''config_client_output_buffer_limit_bytes'' soft [cls, ''soft''])
     (at_index rest 2 (\<lambda>secs.
     andthen (registerNumber env e ''config_client_output_buffer_limit_overcome_seconds'' secs [cls, ''soft''])
     (buffer_limits env e (drop 3 rest)))))))"
  by pat_completeness auto
termination by (relation "measure (\<lambda>(env, e, ws). length ws)") auto

definition secret_settings :: "string list" where
  "secret_settings = [''masterauth'', ''requirepass'', ''tls-key-file-pass'', ''tls-client-key-file-pass'']"

definition numeric_settings :: "string list" where
  "numeric_settings = [''io-threads'', ''maxclients'', ''maxmemory'']"

definition exportSetting :: "'c env \<Rightarrow> Exporter \<Rightarrow> string \<Rightarrow> string \<Rightarrow> ('c, unit) io" where
  "exportSetting env e strKey strVal =
     only_if (InclConfigMetrics (options e) \<and>
              (strKey \<notin> set secret_settings \<or> \<not> RedactConfigMetrics (options e)))
       (block
         [registerConstMetricGauge env e ''config_key_value'' (f64_of_int 1) [strKey, strVal],
          registerNumber env e ''config_value'' strVal [strKey]])"

text \<open>One entry; the result is the number of databases known now, or the error that ends the
  function.\<close>

definition configEntry :: "'c env \<Rightarrow> Exporter \<Rightarrow> int \<Rightarrow> reply \<times> reply \<Rightarrow> ('c, int goresult) io" where
  "configEntry env e dbCount entry =
     (case redis_String env (Inr (fst entry)) of
        Inl err \<Rightarrow> ret (Inr dbCount)
      | Inr strKey \<Rightarrow>
          (case redis_String env (Inr (snd entry)) of
             Inl err \<Rightarrow> ret (Inr dbCount)
           | Inr strVal \<Rightarrow>
               if strKey = ''databases'' \<and> snd (atoi strVal) \<noteq> None
               then ret (Inl (''invalid config value for key databases: '' @ dquote strVal))
               else
                 andthen
                   (block
                     [exportSetting env e strKey strVal,
                      only_if (strKey \<in> set numeric_settings)
                        (registerNumber env e (''config_'' @ replace_all strKey ''-'' ''_'') strVal []),
                      only_if (strKey = ''client-output-buffer-limit'')
                        (buffer_limits env e (go_split strVal '' ''))])
                   (ret (Inr (if strKey = ''databases'' then fst (atoi strVal) else dbCount)))))"

fun configEntries :: "'c env \<Rightarrow> Exporter \<Rightarrow> int \<Rightarrow> (reply \<times> reply) list \<Rightarrow> ('c, int goresult) io" where
  "configEntries env e dbCount [] = ret (Inr dbCount)"
| "configEntries env e dbCount (entry # entries) =
     bnd (configEntry env e dbCount entry) (\<lambda>r.
       case r of
         Inl err \<Rightarrow> ret (Inl err)
       | Inr n \<Rightarrow> configEntries env e n entries)"

definition extractConfigMetrics :: "'c env \<Rightarrow> Exporter \<Rightarrow> reply list \<Rightarrow> ('c, int goresult) io" where
  "extractConfigMetrics env e config =
     (if length config mod 2 \<noteq> 0 then ret (Inl (''invalid config: '' @ fmt_sharp_v env config))
      else configEntries env e 0 (reply_pairs config))"

section \<open>The stages of a scrape\<close>

text \<open>Code between two readings of the clock, and the seconds it took.\<close>

definition timed :: "'c env \<Rightarrow> ('c, 'a) io \<Rightarrow> ('c, 'a \<times> f64) io" where
  "timed env m =
     bnd (timeNow env) (\<lambda>startTime. bnd m (\<lambda>a. bnd (timeNow env) (\<lambda>now.
       ret (a, duration_seconds (time_between startTime now)))))"

text \<open>PING: the clock is read again only after an answer.\<close>

definition pingServer :: "'c env \<Rightarrow> Exporter \<Rightarrow> conn \<Rightarrow> ('c, unit) io" where
  "pingServer env e c =
     only_if (PingOnConnect (options e))
       (bnd (timeNow env) (\<lambda>startTime.
        bnd (doRedisCmd env c [AStr ''PING'']) (\<lambda>r. case r of
            Inl err \<Rightarrow> skip
          | Inr v \<Rightarrow>
              bnd (timeNow env) (\<lambda>now.
                registerConstMetricGauge env e ''exporter_last_scrape_ping_time_seconds''
                  (duration_seconds (time_between startTime now)) []))))"

definition setClientName :: "'c env \<Rightarrow> Exporter \<Rightarrow> conn \<Rightarrow> ('c, unit) io" where
  "setClientName env e c =
     only_if (SetClientName (options e))
       (bnd (doRedisCmd env c [AStr ''CLIENT'', AStr ''SETNAME'', AStr ''redis_exporter'']) (\<lambda>r. skip))"

definition configMetrics :: "'c env \<Rightarrow> Exporter \<Rightarrow> conn \<Rightarrow> ('c, int goresult) io" where
  "configMetrics env e c =
     (if ConfigCommandName (options e) = ''-'' then ret (Inr 0)
      else
        bnd (doRedisCmd env c [AStr (ConfigCommandName (options e)), AStr ''GET'', AStr ''*'']) (\<lambda>r.
          case redis_Values env r of
            Inl err \<Rightarrow> ret (Inr 0)
          | Inr config \<Rightarrow> extractConfigMetrics env e config))"

definition fetchInfo :: "'c env \<Rightarrow> conn \<Rightarrow> ('c, string goresult) io" where
  "fetchInfo env c =
     bnd (doRedisCmd env c [AStr ''INFO'', AStr ''ALL'']) (\<lambda>r.
       case redis_String env r of
         Inr (ch # infoAll) \<Rightarrow> ret (Inr (ch # infoAll))
       | _ \<Rightarrow> bnd (doRedisCmd env c [AStr ''INFO'']) (\<lambda>r'. ret (redis_String env r')))"

definition clusterOrDefault :: "'c env \<Rightarrow> Exporter \<Rightarrow> conn \<Rightarrow> string \<Rightarrow> int \<Rightarrow> ('c, int) io" where
  "clusterOrDefault env e c infoAll dbCount =
     (if go_contains infoAll ''cluster_enabled:1'' then
        bnd (doRedisCmd env c [AStr ''CLUSTER'', AStr ''INFO'']) (\<lambda>r.
          case redis_String env r of
            Inl err \<Rightarrow> ret dbCount
          | Inr clusterInfo \<Rightarrow> andthen (extractClusterInfoMetrics env e clusterInfo) (ret 1))
      else ret (if dbCount = 0 then 16 else dbCount))"

text \<open>The metrics of keys and the key groups, each on its own connection in cluster mode; the result
  is the connection to be closed at the end.\<close>

definition keyMetrics :: "'c env \<Rightarrow> Exporter \<Rightarrow> conn \<Rightarrow> string \<Rightarrow> ('c, conn option) io" where
  "keyMetrics env e c role =
     (if role = ''slave'' \<or> \<not> SkipCheckKeysForRoleMaster (options e) then
        bnd (getKeyOperationConnection env e c) (\<lambda>k.
          case k of
            Inl err \<Rightarrow> ret None
          | Inr keyConn \<Rightarrow>
              andthen (extractCheckKeyMetrics env e keyConn)
              (andthen (extractCountKeysMetrics env e keyConn)
              (andthen (extractStreamMetrics env e keyConn) (ret (Some keyConn)))))
      else ret None)"

definition keyGroupMetricsStage :: "'c env \<Rightarrow> Exporter \<Rightarrow> conn \<Rightarrow> int \<Rightarrow> ('c, conn option) io" where
  "keyGroupMetricsStage env e c dbCount =
     bnd (getKeyOperationConnection env e c) (\<lambda>k.
       case k of
         Inl err \<Rightarrow> ret None
       | Inr keyGroupConn \<Rightarrow> andthen (extractKeyGroupMetrics env e keyGroupConn dbCount) (ret (Some keyGroupConn)))"

definition sentinelStage :: "'c env \<Rightarrow> Exporter \<Rightarrow> conn \<Rightarrow> string \<Rightarrow> ('c, unit) io" where
  "sentinelStage env e c infoAll =
     only_if (go_contains infoAll ''# Sentinel'')
       (andthen (extractSentinelMetrics env e c) (extractSentinelConfig env e c))"

fun luaScripts :: "'c env \<Rightarrow> Exporter \<Rightarrow> conn \<Rightarrow> (string \<times> string) list \<Rightarrow> ('c, string option) io" where
  "luaScripts env e c [] = ret None"
| "luaScripts env e c ((filename, script) # scripts) =
     bnd (extractLuaScriptMetrics env e c filename script) (\<lambda>err.
       case err of Some x \<Rightarrow> ret (Some x) | None \<Rightarrow> luaScripts env e c scripts)"

definition luaStage :: "'c env \<Rightarrow> Exporter \<Rightarrow> conn \<Rightarrow> ('c, string option) io" where
  "luaStage env e c =
     (if LuaScript (options e) = [] then ret None
      else bnd (rangeMap env (LuaScript (options e))) (luaScripts env e c))"

text \<open>The optional collectors at the end.\<close>

definition optionalStages :: "'c env \<Rightarrow> Exporter \<Rightarrow> conn \<Rightarrow> string \<Rightarrow> ('c, unit) io" where
  "optionalStages env e c infoAll =
     block
       [sentinelStage env e c infoAll,
        only_if (ExportClientList (options e)) (extractConnectedClientMetrics env e c),
        only_if (IsTile38 (options e)) (extractTile38Metrics env e c),
        only_if (InclModulesMetrics (options e)) (extractModulesMetrics env e c),
        only_if (InclSearchIndexesMetrics (options e)) (extractSearchIndexesMetrics env e c)]"

definition closeOther :: "'c env \<Rightarrow> conn \<Rightarrow> conn option \<Rightarrow> ('c, unit) io" where
  "closeOther env c k = (case k of None \<Rightarrow> skip | Some k' \<Rightarrow> only_if (k' \<noteq> c) (closeConn env k'))"

text \<open>Everything after the INFO reply was taken apart; the deferred calls close the connections in the
  opposite order in which they were made.\<close>

definition afterRole :: "'c env \<Rightarrow> Exporter \<Rightarrow> conn \<Rightarrow> string \<Rightarrow> int \<Rightarrow> string \<Rightarrow> ('c, string option) io" where
  "afterRole env e c infoAll dbCount role =
     andthen (only_if (\<not> ExcludeLatencyHistogramMetrics (options e)) (extractLatencyMetrics env e infoAll c))
     (bnd (keyMetrics env e c role) (\<lambda>keyConn.
     andthen (extractSlowLogMetrics env e c)
     (bnd (keyGroupMetricsStage env e c dbCount) (\<lambda>keyGroupConn.
     andthen (optionalStages env e c infoAll)
     (bnd (luaStage env e c) (\<lambda>err.
     andthen (closeOther env c keyGroupConn)
     (andthen (closeOther env c keyConn) (ret err))))))))"

definition afterInfo :: "'c env \<Rightarrow> Exporter \<Rightarrow> conn \<Rightarrow> string \<Rightarrow> int \<Rightarrow> ('c, string option) io" where
  "afterInfo env e c infoAll dbCount0 =
     bnd (clusterOrDefault env e c infoAll dbCount0) (\<lambda>dbCount.
     bnd (extractInfoMetrics env e infoAll dbCount) (afterRole env e c infoAll dbCount))"

definition scrapeConnected :: "'c env \<Rightarrow> Exporter \<Rightarrow> conn \<Rightarrow> ('c, string option) io" where
  "scrapeConnected env e c =
     andthen (pingServer env e c)
     (andthen (setClientName env e c)
     (bnd (configMetrics env e c) (\<lambda>config. case config of
         Inl err \<Rightarrow> ret (Some err)
       | Inr dbCount \<Rightarrow>
           bnd (fetchInfo env c) (\<lambda>info. case info of
               Inl err \<Rightarrow> ret (Some err)
             | Inr infoAll \<Rightarrow> afterInfo env e c infoAll dbCount))))"

definition scrapeRedisHost :: "'c env \<Rightarrow> Exporter \<Rightarrow> ('c, string option) io" where
  "scrapeRedisHost env e =
     bnd (timed env (connectToRedis env e)) (\<lambda>(conn, connectTookSeconds).
     andthen
       (registerConstMetricGauge env e ''exporter_last_scrape_connect_time_seconds'' connectTookSeconds [])
       (case conn of
          Inl err \<Rightarrow> ret (Some err)
        | Inr c \<Rightarrow>
            bnd (scrapeConnected env e c) (\<lambda>err. andthen (closeConn env c) (ret err))))"

section \<open>Collect\<close>

definition reportScrape :: "'c env \<Rightarrow> Exporter \<Rightarrow> string option \<Rightarrow> ('c, unit) io" where
  "reportScrape env e err =
     (case err of
        Some msg \<Rightarrow>
          andthen (registerConstMetricGauge env e ''exporter_last_scrape_error'' (f64_of_int 1) [msg])
            (registerConstMetricGauge env e ''up'' (f64_of_int 0) [])
      | None \<Rightarrow>
          andthen (registerConstMetricGauge env e ''exporter_last_scrape_error'' (f64_of_int 0) [''''])
            (registerConstMetricGauge env e ''up'' (f64_of_int 1) []))"

definition scrapeAndReport :: "'c env \<Rightarrow> Exporter \<Rightarrow> ('c, unit) io" where
  "scrapeAndReport env e =
     bnd (timed env (bnd (scrapeRedisHost env e) (reportScrape env e))) (\<lambda>(_, took).
     andthen (modify (\<lambda>w. w\<lparr>scrapeDurations := scrapeDurations w @ [took]\<rparr>))
       (registerConstMetricGauge env e ''exporter_last_scrape_duration_seconds'' took []))"

definition sendOwn :: "Exporter \<Rightarrow> ('c, unit) io" where
  "sendOwn e =
     (let name = fq_name (Namespace (options e)) in
      block
        [bnd (gets totalScrapes) (\<lambda>n. send_metric (OwnCounter (name ''exporter_scrapes_total'') n)),
         bnd (gets scrapeDurations) (\<lambda>ds. send_metric (OwnSummary (name ''exporter_scrape_duration_seconds'') ds)),
         bnd (gets targetErrors) (\<lambda>n. send_metric (OwnCounter (name ''target_scrape_request_errors_total'') n))])"

definition Collect :: "'c env \<Rightarrow> Exporter \<Rightarrow> ('c, unit) io" where
  "Collect env e =
     andthen (modify (\<lambda>w. w\<lparr>totalScrapes := totalScrapes w + 1\<rparr>))
     (andthen (only_if (redisAddr e \<noteq> []) (scrapeAndReport env e))
       (sendOwn e))"

section \<open>Collectors as an interface\<close>

text \<open>What a scrape relies on: under the collector's own condition on the server and the options it
  keeps the invariant of a scrape in every context. It then only adds metrics and descriptions,
  does not touch the exporter's own metrics, and does not panic.\<close>

locale collector =
  fixes run :: "'c env \<Rightarrow> Exporter \<Rightarrow> conn \<Rightarrow> ('c, unit) io"
    and needs :: "'c env \<Rightarrow> Exporter \<Rightarrow> bool"
  assumes run_keeps: "prom_checks_labels env \<Longrightarrow> needs env e \<Longrightarrow> keeps (inv e N) (run env e c)"
begin

lemma run_optional:
  "prom_checks_labels env \<Longrightarrow> (b \<Longrightarrow> needs env e) \<Longrightarrow> keeps (inv e N) (only_if b (run env e c))"
  by (rule keeps_only_if) (rule run_keeps)

lemma run_then:
  "prom_checks_labels env \<Longrightarrow> needs env e \<Longrightarrow> holds (inv e N) m Q \<Longrightarrow> holds (inv e N) (andthen (run env e c) m) Q"
  by (rule holds_andthen [OF run_keeps])

lemma run_no_panic: "prom_checks_labels env \<Longrightarrow> needs env e \<Longrightarrow> inv e N w \<Longrightarrow> run env e c w \<noteq> Panic msg"
  by (rule holds_no_panic [OF run_keeps])

lemma run_grows:
  assumes "prom_checks_labels env" and "needs env e" and "inv e N w" and "run env e c w = Fine ((), w')"
  shows "(\<exists>ms. chan w' = chan w @ ms) \<and> descs w \<subseteq>\<^sub>m descs w' \<and> totalScrapes w' = totalScrapes w"
  using keeps_grows [OF run_keeps [OF assms(1,2)] assms(3,4)] by simp

end

interpretation slowlog: collector extractSlowLogMetrics "\<lambda>env _. slowlog_ok env"
  by unfold_locales (rule keeps_slowlog)

interpretation clientList: collector extractConnectedClientMetrics "\<lambda>_ _. True"
  by unfold_locales (rule keeps_clients)

interpretation tile38: collector extractTile38Metrics "\<lambda>env _. tile38_ok env"
  by unfold_locales (rule keeps_tile38)

interpretation modules: collector extractModulesMetrics "\<lambda>env _. modules_ok env"
  by unfold_locales (rule keeps_modules)

interpretation searchIndexes: collector extractSearchIndexesMetrics
  "\<lambda>env e. regexp_match env (CheckSearchIndexes (options e)) \<noteq> None"
  by unfold_locales (rule keeps_searchIndexes)

interpretation sentinel: collector extractSentinelMetrics "\<lambda>_ _. True"
  by unfold_locales (rule keeps_extractSentinelMetrics)

interpretation sentinelConfig: collector extractSentinelConfig "\<lambda>_ _. True"
  by unfold_locales (rule keeps_extractSentinelConfig)

interpretation streams: collector extractStreamMetrics "\<lambda>env _. streams_ok env"
  by unfold_locales (rule keeps_extractStreamMetrics)

interpretation countedKeys: collector extractCountKeysMetrics "\<lambda>_ _. True"
  by unfold_locales (rule keeps_extractCountKeysMetrics)

interpretation latency: collector "\<lambda>env e c. extractLatencyMetrics env e infoAll c"
    "\<lambda>env _. prom_accepts_ascii env \<and> histograms_ok env"
  by unfold_locales (auto intro: keeps_extractLatencyMetrics)

section \<open>CONFIG is safe\<close>

lemma keeps_registerNumber [hoare_rules]:
  "prom_checks_labels env \<Longrightarrow> ls = [] \<or> has_desc N m \<Longrightarrow> keeps (inv e N) (registerNumber env e m s ls)"
  unfolding registerNumber_def by (intro hoare_rules)

lemma config_catalogued [simp]:
  "catalogued ''config_key_value''" "catalogued ''config_value''"
  "catalogued ''config_client_output_buffer_limit_bytes''"
  "catalogued ''config_client_output_buffer_limit_overcome_seconds''"
  "catalogued ''exporter_last_scrape_error''"
  by code_simp+

lemma keeps_buffer_limits:
  "prom_checks_labels env \<Longrightarrow> length ws mod 4 = 0 \<Longrightarrow> keeps (inv e N) (buffer_limits env e ws)"
proof (induction env e ws rule: buffer_limits.induct)
  case (1 env e)
  show ?case by (simp add: keeps_skip)
next
  case (2 env e cls rest)
  from "2.prems"(2) have len: "3 \<le> length rest" "length (drop 3 rest) mod 4 = 0"
    by (simp_all add: mod_Suc split: if_splits) presburger+
  note number = keeps_registerNumber [OF "2.prems"(1)]
  have "keeps (inv e N) (buffer_limits env e (drop 3 rest))"
    by (rule "2.IH" [OF "2.prems"(1) len(2)])
  then show ?case
    unfolding buffer_limits.simps using len(1)
    by (intro holds_at_index holds_andthen_keeps number) auto
qed

text \<open>What the exporter relies on about CONFIG GET: the value of \<open>client-output-buffer-limit\<close> consists of
  groups of four words, and the number of databases is not negative.\<close>

definition setting_ok :: "'c env \<Rightarrow> reply \<times> reply \<Rightarrow> bool" where
  "setting_ok env entry =
     (case (redis_String env (Inr (fst entry)), redis_String env (Inr (snd entry))) of
        (Inr k, Inr v) \<Rightarrow>
          (k = ''client-output-buffer-limit'' \<longrightarrow> length (go_split v '' '') mod 4 = 0) \<and>
          (k = ''databases'' \<longrightarrow> 0 \<le> fst (atoi v))
      | _ \<Rightarrow> True)"

lemma holds_configEntry:
  assumes "prom_checks_labels env" and "setting_ok env entry" and "0 \<le> n"
  shows "holds (inv e N) (configEntry env e n entry)
    (\<lambda>r w. (case r of Inl _ \<Rightarrow> True | Inr m \<Rightarrow> 0 \<le> m) \<and> inv e N w)"
proof (cases "redis_String env (Inr (fst entry))")
  case (Inl err)
  with assms(3) show ?thesis by (simp add: configEntry_def holds_ret)
next
  case k: (Inr k)
  show ?thesis
  proof (cases "redis_String env (Inr (snd entry))")
    case (Inl err)
    with k assms(3) show ?thesis by (simp add: configEntry_def holds_ret)
  next
    case v: (Inr v)
    have "keeps (inv e N) (exportSetting env e k v)"
      unfolding exportSetting_def by (intro keeps_only_if keeps_block) (auto intro!: keeps_gauge keeps_registerNumber assms(1))
    moreover have "keeps (inv e N) (only_if (k = ''client-output-buffer-limit'') (buffer_limits env e (go_split v '' '')))"
      using assms(1,2) k v by (intro keeps_only_if keeps_buffer_limits) (simp_all add: setting_ok_def)
    ultimately have "keeps (inv e N) (block
       [exportSetting env e k v,
        only_if (k \<in> set numeric_settings) (registerNumber env e (''config_'' @ replace_all k ''-'' ''_'') v []),
        only_if (k = ''client-output-buffer-limit'') (buffer_limits env e (go_split v '' ''))])" (is "keeps _ ?b")
      by (intro keeps_block) (auto intro!: keeps_only_if keeps_registerNumber assms(1))
    moreover have "0 \<le> (if k = ''databases'' then fst (atoi v) else n)"
      using assms(2,3) k v by (simp add: setting_ok_def)
    ultimately have "holds (inv e N) (andthen ?b (ret (Inr (if k = ''databases'' then fst (atoi v) else n))))
        (\<lambda>r w. (case r of Inl _ \<Rightarrow> True | Inr m \<Rightarrow> 0 \<le> m) \<and> inv e N w)"
      by (intro holds_andthen) (auto intro: holds_ret)
    then show ?thesis
      unfolding configEntry_def k v sum.case by (intro holds_if) (auto intro: holds_ret)
  qed
qed

lemma holds_configEntries:
  "prom_checks_labels env \<Longrightarrow> list_all (setting_ok env) es \<Longrightarrow> 0 \<le> n \<Longrightarrow>
   holds (inv e N) (configEntries env e n es) (\<lambda>r w. (case r of Inl _ \<Rightarrow> True | Inr m \<Rightarrow> 0 \<le> m) \<and> inv e N w)"
proof (induction es arbitrary: n)
  case Nil
  then show ?case by (simp add: holds_ret)
next
  case (Cons entry es)
  show ?case
    unfolding configEntries.simps
  proof (rule holds_bnd [OF holds_configEntry])
    fix r :: "int goresult"
    show "holds (\<lambda>w. (case r of Inl _ \<Rightarrow> True | Inr m \<Rightarrow> 0 \<le> m) \<and> inv e N w)
        (case r of Inl err \<Rightarrow> ret (Inl err) | Inr n \<Rightarrow> configEntries env e n es)
        (\<lambda>r w. (case r of Inl _ \<Rightarrow> True | Inr m \<Rightarrow> 0 \<le> m) \<and> inv e N w)"
      using Cons by (cases r) (auto intro!: holds_ret holds_assume)
  qed (use Cons.prems in simp_all)
qed

definition config_reply_ok :: "'c env \<Rightarrow> reply list \<Rightarrow> bool" where
  "config_reply_ok env config \<longleftrightarrow> list_all (setting_ok env) (reply_pairs config)"

lemma holds_extractConfigMetrics:
  "prom_checks_labels env \<Longrightarrow> config_reply_ok env config \<Longrightarrow>
   holds (inv e N) (extractConfigMetrics env e config) (\<lambda>r w. (case r of Inl _ \<Rightarrow> True | Inr m \<Rightarrow> 0 \<le> m) \<and> inv e N w)"
  unfolding extractConfigMetrics_def config_reply_ok_def
  by (intro holds_if holds_configEntries) (auto intro: holds_ret)


section \<open>A scrape is safe\<close>

text \<open>What the exporter relies on about a server, and about its own options.\<close>

definition server_ok :: "'c env \<Rightarrow> bool" where
  "server_ok env \<longleftrightarrow>
     prom_checks_labels env \<and> prom_accepts_ascii env \<and> ranges_all env \<and> script_rows_ok env \<and>
     histograms_ok env \<and> streams_ok env \<and> slowlog_ok env \<and> modules_ok env \<and> tile38_ok env \<and>
     (\<forall>c n cmd config. redis_Values env (fst (conn_do env c [AStr cmd, AStr ''GET'', AStr ''*''] n)) = Inr config
        \<longrightarrow> config_reply_ok env config) \<and>
     (\<forall>c n info. redis_String env (fst (conn_do env c [AStr ''INFO'', AStr ''ALL''] n)) = Inr info \<longrightarrow> info_ok info) \<and>
     (\<forall>c n info. redis_String env (fst (conn_do env c [AStr ''INFO''] n)) = Inr info \<longrightarrow> info_ok info)"

definition options_ok :: "'c env \<Rightarrow> Exporter \<Rightarrow> bool" where
  "options_ok env e \<longleftrightarrow>
     cluster_addr_ok e \<and> 0 \<le> MaxDistinctKeyGroups (options e) \<and>
     (InclSearchIndexesMetrics (options e) \<longrightarrow> regexp_match env (CheckSearchIndexes (options e)) \<noteq> None)"

lemma keeps_timed [hoare_rules]: "keeps (inv e N) m \<Longrightarrow> keeps (inv e N) (timed env m)"
  unfolding timed_def by (intro hoare_rules)

lemma keeps_pingServer [hoare_rules]: "prom_checks_labels env \<Longrightarrow> keeps (inv e N) (pingServer env e c)"
  unfolding pingServer_def by (intro hoare_rules) simp_all

lemma keeps_setClientName [hoare_rules]: "keeps (inv e N) (setClientName env e c)"
  unfolding setClientName_def by (intro hoare_rules)

lemma holds_configMetrics:
  assumes "server_ok env"
  shows "holds (inv e N) (configMetrics env e c) (\<lambda>r w. (case r of Inl _ \<Rightarrow> True | Inr m \<Rightarrow> 0 \<le> m) \<and> inv e N w)"
proof -
  let ?Q = "\<lambda>r. \<forall>config. redis_Values env r = Inr config \<longrightarrow> config_reply_ok env config"
  have "?Q (fst (conn_do env c [AStr cmd, AStr ''GET'', AStr ''*''] n))" for cmd n
    using assms by (simp add: server_ok_def)
  moreover have "holds (inv e N) (case redis_Values env r of Inl err \<Rightarrow> ret (Inr 0) | Inr config \<Rightarrow> extractConfigMetrics env e config)
      (\<lambda>r w. (case r of Inl _ \<Rightarrow> True | Inr m \<Rightarrow> 0 \<le> m) \<and> inv e N w)" if "?Q r" for r
    using that assms by (intro holds_case_sum) (auto intro: holds_ret holds_extractConfigMetrics simp: server_ok_def)
  ultimately show ?thesis
    unfolding configMetrics_def by (intro holds_if holds_reply [where Q = ?Q]) (auto intro: holds_ret)
qed

lemma holds_fetchInfo:
  assumes "server_ok env"
  shows "holds (inv e N) (fetchInfo env c) (\<lambda>r w. (case r of Inl _ \<Rightarrow> True | Inr info \<Rightarrow> info_ok info) \<and> inv e N w)"
    (is "holds _ _ ?R")
proof -
  let ?Q = "\<lambda>r. \<forall>info. redis_String env r = Inr info \<longrightarrow> info_ok info"
  have all: "?Q (fst (conn_do env c [AStr ''INFO'', AStr ''ALL''] n))" for n
    using assms by (simp add: server_ok_def)
  have plain: "?Q (fst (conn_do env c [AStr ''INFO''] n))" for n
    using assms by (simp add: server_ok_def)
  have ret: "holds (inv e N) (ret (redis_String env r)) ?R" if "?Q r" for r
    using that by (intro holds_ret) (auto split: sum.split)
  have second: "holds (inv e N) (bnd (doRedisCmd env c [AStr ''INFO'']) (\<lambda>r'. ret (redis_String env r'))) ?R"
    by (rule holds_reply [where Q = ?Q]) (rule plain, rule ret)
  show ?thesis
    unfolding fetchInfo_def
  proof (rule holds_reply [where Q = ?Q])
    fix r assume q: "?Q r"
    show "holds (inv e N)
        (case redis_String env r of Inr (ch # infoAll) \<Rightarrow> ret (Inr (ch # infoAll))
         | _ \<Rightarrow> bnd (doRedisCmd env c [AStr ''INFO'']) (\<lambda>r'. ret (redis_String env r'))) ?R"
    proof (cases "redis_String env r")
      case (Inl err)
      then show ?thesis by (simp add: second)
    next
      case (Inr info)
      with q second show ?thesis by (cases info) (auto intro: holds_ret)
    qed
  qed (rule all)
qed

lemma holds_clusterOrDefault:
  assumes "prom_checks_labels env" and "0 \<le> n"
  shows "holds (inv e N) (clusterOrDefault env e c infoAll n) (\<lambda>m w. 0 \<le> m \<and> inv e N w)"
  unfolding clusterOrDefault_def
  using assms
  by (intro holds_if holds_bnd_keeps keeps_net holds_case_sum holds_andthen_keeps keeps_extractClusterInfoMetrics)
    (auto intro!: holds_ret)

lemma keeps_keyMetrics [hoare_rules]:
  assumes "server_ok env" and "options_ok env e"
  shows "keeps (inv e N) (keyMetrics env e c role)"
  unfolding keyMetrics_def using assms
  by (intro hoare_rules) (simp_all add: server_ok_def options_ok_def)

lemma keeps_keyGroupMetricsStage:
  assumes "server_ok env" and "options_ok env e" and "0 \<le> dbCount"
  shows "keeps (inv e N) (keyGroupMetricsStage env e c dbCount)"
  unfolding keyGroupMetricsStage_def using assms
  by (intro hoare_rules) (simp_all add: server_ok_def options_ok_def)

lemma keeps_optionalStages [hoare_rules]:
  assumes "server_ok env" and "options_ok env e"
  shows "keeps (inv e N) (optionalStages env e c infoAll)"
proof -
  have checks: "prom_checks_labels env" using assms(1) by (simp add: server_ok_def)
  have "keeps (inv e N) (sentinelStage env e c infoAll)"
    unfolding sentinelStage_def
    by (intro keeps_only_if sentinel.run_then sentinelConfig.run_keeps checks TrueI)
  then show ?thesis
    unfolding optionalStages_def using assms
    by (intro keeps_block)
      (auto intro!: clientList.run_optional tile38.run_optional modules.run_optional searchIndexes.run_optional
        simp: server_ok_def options_ok_def)
qed

lemma keeps_luaStage [hoare_rules]:
  assumes "prom_checks_labels env"
  shows "keeps (inv e N) (luaStage env e c)"
proof -
  have "keeps (inv e N) (luaScripts env e c scripts)" for scripts
    using assms by (induction env e c scripts rule: luaScripts.induct) (auto intro!: hoare_rules split: prod.splits)
  then show ?thesis unfolding luaStage_def by (intro hoare_rules)
qed

lemma keeps_closeOther [hoare_rules]: "keeps (inv e N) (closeOther env c k)"
  unfolding closeOther_def by (intro hoare_rules)

lemma keeps_afterRole:
  assumes "server_ok env" and "options_ok env e" and "0 \<le> dbCount"
  shows "keeps (inv e N) (afterRole env e c infoAll dbCount role)"
proof -
  have latency: "keeps (inv e N) (only_if b (extractLatencyMetrics env e infoAll c))" for b
    using assms by (intro latency.run_optional) (simp_all add: server_ok_def)
  have slow: "keeps (inv e N) (extractSlowLogMetrics env e c)"
    using assms by (intro slowlog.run_keeps) (simp_all add: server_ok_def)
  have lua: "keeps (inv e N) (luaStage env e c)"
    using assms by (intro keeps_luaStage) (simp add: server_ok_def)
  note groups = keeps_keyGroupMetricsStage [OF assms]
  show ?thesis
    unfolding afterRole_def
    by (intro holds_bnd_keeps holds_andthen_keeps latency slow lua groups keeps_keyMetrics
        keeps_optionalStages keeps_closeOther keeps_ret assms(1,2))
qed

lemma keeps_afterInfo:
  assumes "server_ok env" and "options_ok env e" and "info_ok infoAll" and "0 \<le> n"
  shows "keeps (inv e N) (afterInfo env e c infoAll n)"
  unfolding afterInfo_def
proof (rule holds_bnd [OF holds_clusterOrDefault])
  show "prom_checks_labels env" "0 \<le> n" using assms by (simp_all add: server_ok_def)
  fix dbCount :: int
  have info: "keeps (inv e N) (extractInfoMetrics env e infoAll dbCount)"
    using assms by (intro keeps_extractInfoMetrics) (simp_all add: server_ok_def)
  show "holds (\<lambda>w. 0 \<le> dbCount \<and> inv e N w)
      (bnd (extractInfoMetrics env e infoAll dbCount) (afterRole env e c infoAll dbCount)) (\<lambda>_. inv e N)"
    by (rule holds_assume) (intro holds_bnd_keeps info keeps_afterRole assms(1,2))
qed

lemma keeps_scrapeConnected:
  assumes "server_ok env" and "options_ok env e"
  shows "keeps (inv e N) (scrapeConnected env e c)"
  unfolding scrapeConnected_def
proof (intro holds_andthen_keeps)
  show "keeps (inv e N) (pingServer env e c)" "keeps (inv e N) (setClientName env e c)"
    using assms by (intro hoare_rules; simp add: server_ok_def)+
  have info: "holds (\<lambda>w. (case info of Inl _ \<Rightarrow> True | Inr i \<Rightarrow> info_ok i) \<and> inv e N w)
      (case info of Inl err \<Rightarrow> ret (Some err) | Inr infoAll \<Rightarrow> afterInfo env e c infoAll dbCount) (\<lambda>_. inv e N)"
    if "0 \<le> dbCount" for info dbCount
    using that assms by (cases info) (auto intro!: holds_assume keeps_ret keeps_afterInfo)
  have config: "holds (\<lambda>w. (case config of Inl _ \<Rightarrow> True | Inr m \<Rightarrow> 0 \<le> m) \<and> inv e N w)
      (case config of Inl err \<Rightarrow> ret (Some err)
       | Inr dbCount \<Rightarrow> bnd (fetchInfo env c) (\<lambda>info. case info of Inl err \<Rightarrow> ret (Some err)
           | Inr infoAll \<Rightarrow> afterInfo env e c infoAll dbCount)) (\<lambda>_. inv e N)" for config
  proof (cases config)
    case (Inl err)
    then show ?thesis by (simp add: keeps_ret)
  next
    case (Inr dbCount)
    then show ?thesis
      using holds_bnd [OF holds_fetchInfo [OF assms(1)] info] by (simp add: holds_assume)
  qed
  show "keeps (inv e N) (bnd (configMetrics env e c) (\<lambda>config. case config of
         Inl err \<Rightarrow> ret (Some err)
       | Inr dbCount \<Rightarrow>
           bnd (fetchInfo env c) (\<lambda>info. case info of
               Inl err \<Rightarrow> ret (Some err)
             | Inr infoAll \<Rightarrow> afterInfo env e c infoAll dbCount)))"
    by (rule holds_bnd [OF holds_configMetrics [OF assms(1)] config])
qed

lemma keeps_scrapeRedisHost:
  assumes "server_ok env" and "options_ok env e"
  shows "keeps (inv e N) (scrapeRedisHost env e)"
  unfolding scrapeRedisHost_def
  using assms by (intro hoare_rules keeps_scrapeConnected) (simp_all add: server_ok_def)


section \<open>A scrape ends\<close>

text \<open>Only the SCAN loops and the group scripts may go on for ever, since the server decides when
  they end. Without a pattern to search for, a scrape ends whatever the server answers.\<close>

definition no_search :: "string \<Rightarrow> bool" where
  "no_search arg \<longleftrightarrow>
     (case parseKeyArg arg of Inl err \<Rightarrow> True | Inr keys \<Rightarrow> list_all (\<lambda>k. \<not> globPattern (key_of k)) keys)"

definition search_free :: "Exporter \<Rightarrow> bool" where
  "search_free e \<longleftrightarrow>
     no_search (CheckKeys (options e)) \<and> no_search (CheckStreams (options e)) \<and>
     CountKeys (options e) = [] \<and> configuredGroups e = None"

lemma finishes_expandKeys:
  "list_all (\<lambda>k. \<not> globPattern (key_of k)) ks \<Longrightarrow> finishes (expandKeys env c n acc ks)"
  by (induction ks arbitrary: acc) (simp_all add: finish_rules)

lemma finishes_getKeysFromPatterns:
  "no_search arg \<Longrightarrow> parseKeyArg arg = Inr keys \<Longrightarrow> finishes (getKeysFromPatterns env c keys n)"
  by (simp add: no_search_def getKeysFromPatterns_def finishes_expandKeys)

lemma finishes_keyInfo [finish_rules]:
  "finishes (getStringInfoNotPipelined env c key)" "finishes (registerKeyValue env e db key t v)"
  "finishes (getKeyInfo env e c db t key)" "finishes (notPipelinedKey env e c key)"
  "finishes (receiveKeyInfo env c t)" "finishes (receiveType env e c db ts key)"
  unfolding notPipelinedKey_def getKeyInfo_def getStringInfoNotPipelined_def registerKeyValue_def
    receiveKeyInfo_def receiveType_def Let_def
  by (intro finish_rules)+

lemma finishes_sendAll [finish_rules]: "finishes (sendAll env c cmds)"
  by (induction cmds) (simp_all add: finish_rules)

lemma finishes_pipelinedDb [finish_rules]: "finishes (pipelinedDb env e c db keys)"
  unfolding pipelinedDb_def receiveTypes_def getKeyInfoPipelined_def
  by (intro finish_rules)

lemma finishes_extractCheckKeyMetrics:
  assumes "search_free e"
  shows "finishes (extractCheckKeyMetrics env e c)"
proof (cases "parseKeyArg (CheckKeys (options e))")
  case (Inl err)
  then show ?thesis by (simp add: extractCheckKeyMetrics_def finish_rules)
next
  case (Inr keys)
  have "finishes (getKeysFromPatterns env c keys (CheckKeysBatchSize (options e)))"
    by (rule finishes_getKeysFromPatterns [OF _ Inr]) (use assms in \<open>simp add: search_free_def\<close>)
  then show ?thesis
    unfolding extractCheckKeyMetrics_def Inr sum.case extractCheckKeyMetricsNotPipelined_def
      extractCheckKeyMetricsPipelined_def Let_def
    by (intro finish_rules)
qed

lemma finishes_streamInfo [finish_rules]:
  "finishes (scanStreamGroupConsumers env c s g)" "finishes (stream_groups env c s acc gs)"
  "finishes (scanStreamGroups env c s)" "finishes (getStreamInfo env c s)"
proof -
  show consumers: "finishes (scanStreamGroupConsumers env c s g)" for s g
    unfolding scanStreamGroupConsumers_def by (intro finish_rules)
  show groups: "finishes (stream_groups env c s acc gs)" for s acc gs
    by (induction gs arbitrary: acc) (auto intro!: finish_rules consumers split: option.split)
  show sgroups: "finishes (scanStreamGroups env c s)"
    unfolding scanStreamGroups_def by (intro finish_rules groups)
  then show "finishes (getStreamInfo env c s)"
    unfolding getStreamInfo_def scanStreamGroups_def by (intro finish_rules groups)
qed

lemma finishes_streamMetrics [finish_rules]: "finishes (streamMetrics env e c k)"
  unfolding streamMetrics_def registerStream_def registerGroup_def registerConsumer_def Let_def
  by (intro finish_rules)

lemma finishes_extractStreamMetrics:
  assumes "search_free e"
  shows "finishes (extractStreamMetrics env e c)"
proof (cases "parseKeyArg (CheckStreams (options e))")
  case (Inl err)
  then show ?thesis by (simp add: extractStreamMetrics_def finish_rules)
next
  case (Inr keys)
  have "finishes (getKeysFromPatterns env c keys (CheckKeysBatchSize (options e)))"
    by (rule finishes_getKeysFromPatterns [OF _ Inr]) (use assms in \<open>simp add: search_free_def\<close>)
  then show ?thesis
    unfolding extractStreamMetrics_def Inr sum.case by (intro finish_rules)
qed

lemma finishes_extractKeyGroupMetrics:
  "search_free e \<Longrightarrow> finishes (extractKeyGroupMetrics env e c dbCount)"
  unfolding extractKeyGroupMetrics_def gatherKeyGroupsMetricsForAllDatabases_def registerDatabaseGroups_def
    registerKeyGroupMetrics_def Let_def search_free_def
  by (simp only: option.case) (intro finish_rules)

lemma finishes_registerNumber [finish_rules]: "finishes (registerNumber env e m s ls)"
  unfolding registerNumber_def by (intro finish_rules)

lemma finishes_buffer_limits [finish_rules]: "finishes (buffer_limits env e ws)"
  by (induction env e ws rule: buffer_limits.induct) (auto intro!: finish_rules)

lemma finishes_configMetrics [finish_rules]: "finishes (configMetrics env e c)"
proof -
  have "finishes (configEntries env e n es)" for n es
    by (induction env e n es rule: configEntries.induct)
      (auto intro!: finish_rules simp: configEntry_def exportSetting_def split: sum.splits)
  then show ?thesis
    unfolding configMetrics_def extractConfigMetrics_def by (intro finish_rules)
qed

lemma finishes_stages [finish_rules]:
  "finishes (pingServer env e c)" "finishes (setClientName env e c)" "finishes (fetchInfo env c)"
  "finishes (clusterOrDefault env e c infoAll n)" "finishes (optionalStages env e c infoAll)"
  "finishes (luaStage env e c)" "finishes (closeOther env c k)"
proof -
  show "finishes (pingServer env e c)" "finishes (setClientName env e c)"
      "finishes (clusterOrDefault env e c infoAll n)" "finishes (optionalStages env e c infoAll)"
      "finishes (closeOther env c k)"
    unfolding pingServer_def setClientName_def clusterOrDefault_def optionalStages_def sentinelStage_def closeOther_def
    by (intro finish_rules)+
  show "finishes (fetchInfo env c)"
    unfolding fetchInfo_def by (intro finish_rules)
  have "finishes (luaScripts env e c scripts)" for scripts
    by (induction env e c scripts rule: luaScripts.induct) (auto intro!: finish_rules)
  then show "finishes (luaStage env e c)" unfolding luaStage_def by (intro finish_rules)
qed

lemma finishes_timed [finish_rules]: "finishes m \<Longrightarrow> finishes (timed env m)"
  unfolding timed_def by (intro finish_rules)

lemma finishes_afterInfo:
  assumes "search_free e"
  shows "finishes (afterInfo env e c infoAll n)"
proof -
  note free = finishes_extractCheckKeyMetrics [OF assms] finishes_extractStreamMetrics [OF assms]
    finishes_extractKeyGroupMetrics [OF assms]
  have count: "finishes (extractCountKeysMetrics env e c)" for c
    using assms by (simp add: extractCountKeysMetrics_def search_free_def parseKeyArg_def finish_rules)
  have keys: "finishes (keyMetrics env e c role)" "finishes (keyGroupMetricsStage env e c n)" for c role n
    unfolding keyMetrics_def keyGroupMetricsStage_def by (intro finish_rules free count)+
  have role: "finishes (afterRole env e c infoAll n role)" for c infoAll n role
    unfolding afterRole_def by (intro finish_rules keys)
  show ?thesis
    unfolding afterInfo_def by (intro finish_rules role)
qed

lemma finishes_scrapeRedisHost:
  assumes "search_free e"
  shows "finishes (scrapeRedisHost env e)"
  unfolding scrapeRedisHost_def scrapeConnected_def by (intro finish_rules finishes_afterInfo assms)


section \<open>Collect\<close>

definition own_metrics :: "Exporter \<Rightarrow> int \<Rightarrow> f64 list \<Rightarrow> int \<Rightarrow> metric list" where
  "own_metrics e scrapes took errors =
     (let name = fq_name (Namespace (options e)) in
      [OwnCounter (name ''exporter_scrapes_total'') scrapes,
       OwnSummary (name ''exporter_scrape_duration_seconds'') took,
       OwnCounter (name ''target_scrape_request_errors_total'') errors])"

text \<open>One more duration is observed, unless there is no address to scrape.\<close>

definition observed :: "Exporter \<Rightarrow> f64 list \<Rightarrow> f64 list \<Rightarrow> bool" where
  "observed e ds ds' \<longleftrightarrow> (if redisAddr e = [] then ds' = ds else \<exists>took. ds' = ds @ [took])"

abbreviation counting :: "int \<Rightarrow> f64 list \<Rightarrow> int \<Rightarrow> ctx \<Rightarrow> ctx" where
  "counting t ds k N \<equiv> N\<lparr>counted := Some (t, ds, k)\<rparr>"

lemma inv_counting:
  "inv e (counting t ds k N) w \<longleftrightarrow>
     inv e (N\<lparr>counted := None\<rparr>) w \<and> totalScrapes w = t \<and> scrapeDurations w = ds \<and> targetErrors w = k"
  by (auto simp: inv_def)

lemma inv_uncounted [simp]:
  "inv e (N\<lparr>counted := None\<rparr>) (w\<lparr>totalScrapes := t\<rparr>) = inv e (N\<lparr>counted := None\<rparr>) w"
  "inv e (N\<lparr>counted := None\<rparr>) (w\<lparr>scrapeDurations := ds\<rparr>) = inv e (N\<lparr>counted := None\<rparr>) w"
  by (simp_all add: inv_def)

lemma keeps_reportScrape [hoare_rules]: "prom_checks_labels env \<Longrightarrow> keeps (inv e N) (reportScrape env e err)"
  unfolding reportScrape_def by (intro hoare_rules) simp_all

lemma finishes_reportScrape [finish_rules]: "finishes (reportScrape env e err)"
  unfolding reportScrape_def by (intro finish_rules)

lemma holds_scrapeAndReport:
  assumes "server_ok env" and "options_ok env e"
  shows "holds (inv e (counting t ds k N)) (scrapeAndReport env e)
    (\<lambda>_ w. \<exists>took. inv e (counting t (ds @ [took]) k N) w)"
proof -
  have checks: "prom_checks_labels env" using assms(1) by (simp add: server_ok_def)
  have "holds (inv e (counting t ds k N))
      (andthen (modify (\<lambda>w. w\<lparr>scrapeDurations := scrapeDurations w @ [took]\<rparr>))
        (registerConstMetricGauge env e ''exporter_last_scrape_duration_seconds'' took []))
      (\<lambda>_ w. \<exists>took. inv e (counting t (ds @ [took]) k N) w)" for took
    by (rule holds_andthen [where Q = "inv e (counting t (ds @ [took]) k N)"])
      (simp add: holds_def modify_def inv_counting,
       rule holds_post [OF keeps_gauge [OF checks]], auto)
  then show ?thesis
    unfolding scrapeAndReport_def
    by (intro holds_bnd_keeps keeps_timed keeps_scrapeRedisHost assms keeps_reportScrape checks)
      (simp split: prod.split)
qed

lemma inv_send_own:
  assumes "inv e N w" and "list_all (\<lambda>m. metric_desc m = None) ms"
  shows "inv e N (w\<lparr>chan := chan w @ ms\<rparr>)"
proof -
  have "\<forall>m \<in> set ms. consistent D m" for D
    using assms(2) by (simp add: consistent_def list_all_iff)
  with assms(1) show ?thesis unfolding inv_def by (auto simp: ball_Un)
qed

lemma sendOwn_effect:
  "sendOwn e w = Fine ((), w\<lparr>chan := chan w @ own_metrics e (totalScrapes w) (scrapeDurations w) (targetErrors w)\<rparr>)"
  by (simp add: sendOwn_def own_metrics_def send_metric_def Let_def prog_defs)

lemma holds_sendOwn:
  "holds (inv e (counting t ds k N)) (sendOwn e)
    (\<lambda>_ w. inv e (counting t ds k N) w \<and> (\<exists>ms. chan w = sent N @ ms @ own_metrics e t ds k))"
proof (rule holdsI)
  fix w :: "'a world"
  assume i: "inv e (counting t ds k N) w"
  have "list_all (\<lambda>m. metric_desc m = None) (own_metrics e t ds k)" by (simp add: own_metrics_def Let_def)
  from inv_send_own [OF i this] i
  show "case sendOwn e w of Fine (a, w) \<Rightarrow> inv e (counting t ds k N) w \<and> (\<exists>ms. chan w = sent N @ ms @ own_metrics e t ds k)
      | Panic _ \<Rightarrow> False | Hang \<Rightarrow> True"
    by (auto simp: sendOwn_effect inv_def)
qed

lemma holds_Collect:
  assumes "server_ok env" and "options_ok env e"
  shows "holds (inv e (counting t ds k N)) (Collect env e)
    (\<lambda>_ w. \<exists>ds'. observed e ds ds' \<and>
       inv e (counting (t + 1) ds' k N) w \<and> (\<exists>ms. chan w = sent N @ ms @ own_metrics e (t + 1) ds' k))"
  unfolding Collect_def
proof (rule holds_andthen [where Q = "inv e (counting (t + 1) ds k N)"])
  show "holds (inv e (counting t ds k N)) (modify (\<lambda>w. w\<lparr>totalScrapes := totalScrapes w + 1\<rparr>))
      (\<lambda>_. inv e (counting (t + 1) ds k N))"
    by (simp add: holds_def modify_def inv_counting)
  let ?Q = "\<lambda>w :: 'a world. \<exists>ds'. observed e ds ds' \<and> inv e (counting (t + 1) ds' k N) w"
  have "holds (inv e (counting (t + 1) ds k N)) (only_if (redisAddr e \<noteq> []) (scrapeAndReport env e)) (\<lambda>_. ?Q)"
  proof (cases "redisAddr e = []")
    case True
    then show ?thesis by (simp add: only_if_def skip_def holds_ret observed_def)
  next
    case False
    then have "holds (inv e (counting (t + 1) ds k N)) (scrapeAndReport env e) (\<lambda>_. ?Q)"
      by (intro holds_post [OF holds_scrapeAndReport [OF assms]]) (auto simp: observed_def)
    with False show ?thesis by (simp add: only_if_def)
  qed
  moreover have "holds ?Q (sendOwn e)
     (\<lambda>_ w. \<exists>ds'. observed e ds ds' \<and>
       inv e (counting (t + 1) ds' k N) w \<and> (\<exists>ms. chan w = sent N @ ms @ own_metrics e (t + 1) ds' k))"
  proof (rule holdsI)
    fix w :: "'a world"
    assume "?Q w"
    then obtain ds' where d: "observed e ds ds'"
      and i: "inv e (counting (t + 1) ds' k N) w" by blast
    from holds_Fine [OF holds_sendOwn i] holds_no_panic [OF holds_sendOwn i] d
    show "case sendOwn e w of Fine (a, w) \<Rightarrow> \<exists>ds'. observed e ds ds' \<and>
       inv e (counting (t + 1) ds' k N) w \<and> (\<exists>ms. chan w = sent N @ ms @ own_metrics e (t + 1) ds' k)
       | Panic _ \<Rightarrow> False | Hang \<Rightarrow> True"
      by (cases "sendOwn e w") (auto split: prod.splits)
  qed
  ultimately show "holds (inv e (counting (t + 1) ds k N)) (andthen (only_if (redisAddr e \<noteq> []) (scrapeAndReport env e)) (sendOwn e))
     (\<lambda>_ w. \<exists>ds'. observed e ds ds' \<and>
       inv e (counting (t + 1) ds' k N) w \<and> (\<exists>ms. chan w = sent N @ ms @ own_metrics e (t + 1) ds' k))"
    by (rule holds_andthen)
qed

lemma finishes_Collect:
  assumes "search_free e"
  shows "finishes (Collect env e)"
  unfolding Collect_def scrapeAndReport_def sendOwn_def send_metric_def Let_def
  by (intro finish_rules finishes_scrapeRedisHost [OF assms])

lemma Collect_outcome:
  assumes "server_ok env" and "options_ok env e" and "inv e no_ctx w"
  shows "Collect env e w \<noteq> Panic msg"
    and "Collect env e w = Fine (u, w') \<Longrightarrow>
        inv e no_ctx w' \<and> descs w \<subseteq>\<^sub>m descs w' \<and> totalScrapes w' = totalScrapes w + 1 \<and> targetErrors w' = targetErrors w \<and>
        observed e (scrapeDurations w) (scrapeDurations w') \<and>
        (\<exists>ms. chan w' = chan w @ ms @ own_metrics e (totalScrapes w') (scrapeDurations w') (targetErrors w'))"
proof -
  let ?N = "no_ctx\<lparr>sent := chan w, known := descs w\<rparr>"
  have i: "inv e (counting (totalScrapes w) (scrapeDurations w) (targetErrors w) ?N) w"
    using assms(3) by (simp add: inv_def no_ctx_def)
  note h = holds_Collect [OF assms(1,2)]
  show "Collect env e w \<noteq> Panic msg" by (rule holds_no_panic [OF h i])
  assume "Collect env e w = Fine (u, w')"
  from holds_Fine [OF h i this] obtain ds' where
    d: "observed e (scrapeDurations w) ds'"
    and w': "inv e (counting (totalScrapes w + 1) ds' (targetErrors w) ?N) w'"
    and c: "\<exists>ms. chan w' = chan w @ ms @ own_metrics e (totalScrapes w + 1) ds' (targetErrors w)"
    by auto
  from w' have "inv e no_ctx w' \<and> descs w \<subseteq>\<^sub>m descs w' \<and> totalScrapes w' = totalScrapes w + 1 \<and>
      scrapeDurations w' = ds' \<and> targetErrors w' = targetErrors w"
    by (simp add: inv_def no_ctx_def)
  with d c show "inv e no_ctx w' \<and> descs w \<subseteq>\<^sub>m descs w' \<and> totalScrapes w' = totalScrapes w + 1 \<and> targetErrors w' = targetErrors w \<and>
        observed e (scrapeDurations w) (scrapeDurations w') \<and>
        (\<exists>ms. chan w' = chan w @ ms @ own_metrics e (totalScrapes w') (scrapeDurations w') (targetErrors w'))"
    by simp
qed

text \<open>C2: a scrape of a server that keeps to the assumptions never panics. If it ends, the
  descriptions are still consistent with every metric sent, the metrics of earlier scrapes are
  untouched, the scrape is counted once, its duration observed once, and the last three metrics on
  the channel are the exporter's own with these values.\<close>

theorem Collect_safe:
  assumes "server_ok env" and "options_ok env e" and "inv e no_ctx w"
  shows "case Collect env e w of
      Panic msg \<Rightarrow> False
    | Hang \<Rightarrow> \<not> search_free e
    | Fine (_, w') \<Rightarrow>
        inv e no_ctx w' \<and> descs w \<subseteq>\<^sub>m descs w' \<and> totalScrapes w' = totalScrapes w + 1 \<and> targetErrors w' = targetErrors w \<and>
        observed e (scrapeDurations w) (scrapeDurations w') \<and>
        (\<exists>ms. chan w' = chan w @ ms @ own_metrics e (totalScrapes w') (scrapeDurations w') (targetErrors w'))"
proof (cases "Collect env e w")
  case (Fine r)
  obtain w' where r: "r = ((), w')" by (cases r) simp
  show ?thesis
    unfolding Fine r outcome.case prod.case by (rule Collect_outcome(2) [OF assms Fine [unfolded r]])
next
  case (Panic msg)
  with Collect_outcome(1) [OF assms] show ?thesis by blast
next
  case Hang
  with finishes_Collect [of e env] show ?thesis by (auto simp: finishes_def)
qed

text \<open>A server that answers INFO and nothing else, for the examples.\<close>

definition steady_env :: "reply goresult list env" where
  "steady_env = demo_env\<lparr>
     conn_do := \<lambda>_ args q. (if args = [AStr ''INFO'', AStr ''ALL''] then Inr (RBytes demo_info) else Inl ''ERR'', q),
     script_do := \<lambda>_ _ q. (Inl ''ERR'', q)\<rparr>"

lemma steady_server_ok: "server_ok steady_env"
proof -
  have f: "const_metric_err steady_env = const_metric_err demo_env" "const_summary_err steady_env = const_summary_err demo_env"
      "const_histogram_err steady_env = const_histogram_err demo_env" "range_order steady_env = range_order demo_env"
    by (simp_all add: steady_env_def)
  have "prom_checks_labels steady_env" "prom_accepts_ascii steady_env" "ranges_all steady_env"
    unfolding prom_checks_labels_def prom_accepts_ascii_def ranges_all_def f
    using demo_env_checks demo_env_accepts demo_env_ranges
    unfolding prom_checks_labels_def prom_accepts_ascii_def ranges_all_def by blast+
  then show ?thesis
    by (simp add: server_ok_def steady_env_def script_rows_ok_def histograms_ok_def streams_ok_def slowlog_ok_def
        modules_ok_def tile38_ok_def demo_Strings_def)
qed

lemma demo_options_ok: "options_ok steady_env demo_exporter"
  by (simp add: options_ok_def cluster_addr_ok_def demo_exporter_def demo_options_def)

lemma demo_search_free: "search_free demo_exporter"
  by (simp add: search_free_def no_search_def parseKeyArg_def configuredGroups_def trim_space_def demo_exporter_def demo_options_def)

theorem Collect_safe_witness:
  "\<exists>w'. Collect steady_env demo_exporter (start_world demo_exporter []) = Fine ((), w') \<and>
     inv demo_exporter no_ctx w' \<and> totalScrapes w' = 1"
proof -
  note c = Collect_safe [OF steady_server_ok demo_options_ok inv_start, of "[]"]
  show ?thesis
  proof (cases "Collect steady_env demo_exporter (start_world demo_exporter [])")
    case (Fine r)
    obtain w' where r: "r = ((), w')" by (cases r) simp
    with c Fine have "inv demo_exporter no_ctx w'" "totalScrapes w' = 0 + 1" by simp_all
    with Fine r show ?thesis by simp
  next
    case (Panic msg)
    with c show ?thesis by simp
  next
    case Hang
    with c demo_search_free show ?thesis by simp
  qed
qed


section \<open>What a scrape reports\<close>

definition gauge_sent :: "metric list \<Rightarrow> string \<Rightarrow> f64 \<Rightarrow> string list \<Rightarrow> bool" where
  "gauge_sent ms m v ls \<longleftrightarrow> (\<exists>d. ConstMetric d GaugeValue v ls \<in> set ms \<and> desc_name d = m)"

text \<open>A gauge is sent under the description of its name, unless the library refuses a label.\<close>

lemma gauge_run:
  assumes "descs w m = Some d"
  shows "registerConstMetricGauge env e m v ls w = Fine ((), w\<lparr>chan := chan w @
    (if const_metric_err env d GaugeValue v ls = None then [ConstMetric d GaugeValue v ls] else [])\<rparr>)"
  using assms
  by (simp add: registerConstMetricGauge_def registerConstMetric_def createMetricDescription_def
      mustFindMetricDescription_def bnd_def send_metric_def modify_def skip_def ret_def split: option.split)

lemma catalogue_described:
  assumes "inv e N w" and "map_of catalogue m = Some (txt, lbls)"
  shows "descs w m = Some (Desc (Namespace (options e)) m txt lbls)"
proof -
  have "initial_descs e m = Some (Desc (Namespace (options e)) m txt lbls)"
    using assms(2) by (simp add: initial_descs_map_of newMetricDescr_def)
  with assms(1) show ?thesis by (auto simp: inv_def map_le_def dom_def)
qed

text \<open>A gauge without labels adds itself or nothing, and no other metric.\<close>

lemma plain_gauge_run:
  assumes "inv e N w"
  shows "\<exists>w' d. registerConstMetricGauge env e m v [] w = Fine ((), w') \<and> desc_name d = m \<and>
     chan w' \<in> {chan w, chan w @ [ConstMetric d GaugeValue v []]} \<and> scrapeDurations w' = scrapeDurations w"
proof (cases "descs w m")
  case None
  let ?d = "newMetricDescr (Namespace (options e)) m (m @ '' metric'') []"
  have "\<exists>w'. registerConstMetricGauge env e m v [] w = Fine ((), w') \<and>
      chan w' \<in> {chan w, chan w @ [ConstMetric ?d GaugeValue v []]} \<and> scrapeDurations w' = scrapeDurations w"
    by (simp add: registerConstMetricGauge_def registerConstMetric_def createMetricDescription_def None Let_def
        bnd_def send_metric_def modify_def skip_def ret_def split: option.split)
  moreover have "desc_name ?d = m" by (simp add: newMetricDescr_def)
  ultimately show ?thesis by blast
next
  case (Some d)
  with assms have "desc_name d = m" by (auto simp: inv_def)
  then show ?thesis by (auto simp: gauge_run [of w m d, OF Some] intro!: exI [of _ d])
qed

lemma report_catalogue:
  "map_of catalogue ''up'' = Some (''Information about the Redis instance'', [])"
  "map_of catalogue ''exporter_last_scrape_error'' = Some (''The last scrape error status.'', [''err''])"
  by code_simp+

text \<open>What the result of a scrape adds to the channel. The message of an error is left out only if the
  library refuses it as a label.\<close>

definition up_desc :: "Exporter \<Rightarrow> desc" where
  "up_desc e = Desc (Namespace (options e)) ''up'' ''Information about the Redis instance'' []"

definition error_desc :: "Exporter \<Rightarrow> desc" where
  "error_desc e = Desc (Namespace (options e)) ''exporter_last_scrape_error'' ''The last scrape error status.'' [''err'']"

definition up_gauge :: "Exporter \<Rightarrow> int \<Rightarrow> metric" where
  "up_gauge e n = ConstMetric (up_desc e) GaugeValue (f64_of_int n) []"

definition error_gauge :: "Exporter \<Rightarrow> int \<Rightarrow> string \<Rightarrow> metric" where
  "error_gauge e n msg = ConstMetric (error_desc e) GaugeValue (f64_of_int n) [msg]"

definition scrape_report :: "'c env \<Rightarrow> Exporter \<Rightarrow> string option \<Rightarrow> metric list" where
  "scrape_report env e err =
     (case err of
        None \<Rightarrow> [error_gauge e 0 [], up_gauge e 1]
      | Some msg \<Rightarrow>
          (if const_metric_err env (error_desc e) GaugeValue (f64_of_int 1) [msg] = None then [error_gauge e 1 msg] else []) @
          [up_gauge e 0])"

lemma reportScrape_run:
  assumes "prom_accepts_ascii env" and "inv e N w"
  shows "reportScrape env e err w = Fine ((), w\<lparr>chan := chan w @ scrape_report env e err\<rparr>)"
proof -
  have accepted: "const_metric_err env (up_desc e) GaugeValue v [] = None"
    "const_metric_err env (error_desc e) GaugeValue v [[]] = None" for v
    using assms(1) by (simp_all add: prom_accepts_ascii_def ascii_def up_desc_def error_desc_def)
  have up: "registerConstMetricGauge env e ''up'' v [] w' = Fine ((), w'\<lparr>chan := chan w' @ [ConstMetric (up_desc e) GaugeValue v []]\<rparr>)"
    if "descs w' = descs w" for w' v
    using gauge_run [of w' "''up''" "up_desc e" env e v "[]"] catalogue_described [OF assms(2) report_catalogue(1)] that accepted
    by (simp add: up_desc_def)
  have "descs w ''exporter_last_scrape_error'' = Some (error_desc e)"
    unfolding error_desc_def by (rule catalogue_described [OF assms(2) report_catalogue(2)])
  note err = gauge_run [OF this]
  show ?thesis
  proof (cases err)
    case None
    then show ?thesis
      by (simp add: reportScrape_def scrape_report_def andthen_def bnd_def err up accepted error_gauge_def up_gauge_def)
  next
    case (Some msg)
    then show ?thesis
      by (simp add: reportScrape_def scrape_report_def andthen_def bnd_def err up error_gauge_def up_gauge_def)
  qed
qed

text \<open>The world in which the scrape of \<open>Collect\<close> begins: the scrape is counted and the clock read
  once.\<close>

definition scrape_begins :: "'c world \<Rightarrow> 'c world" where
  "scrape_begins w = w\<lparr>totalScrapes := totalScrapes w + 1, tick := Suc (tick w)\<rparr>"

text \<open>The gauge with the duration, which may be missing.\<close>

definition duration_gauge :: "f64 \<Rightarrow> metric list \<Rightarrow> bool" where
  "duration_gauge took ms \<longleftrightarrow>
     ms = [] \<or> (\<exists>d. ms = [ConstMetric d GaugeValue took []] \<and> desc_name d = ''exporter_last_scrape_duration_seconds'')"

lemma Collect_run:
  assumes "server_ok env" and "options_ok env e" and "inv e no_ctx w" and "redisAddr e \<noteq> []"
    and s: "scrapeRedisHost env e (scrape_begins w) = Fine (err, w1)"
  shows "\<exists>w' took dur. Collect env e w = Fine ((), w') \<and> duration_gauge took dur \<and>
     scrapeDurations w' = scrapeDurations w1 @ [took] \<and>
     chan w' = chan w1 @ scrape_report env e err @ dur @ own_metrics e (totalScrapes w') (scrapeDurations w') (targetErrors w')"
proof -
  have checks: "prom_accepts_ascii env" using assms(1) by (simp add: server_ok_def)
  have start: "inv e no_ctx (scrape_begins w)" using assms(3) by (simp add: inv_def no_ctx_def scrape_begins_def)
  have w1: "inv e no_ctx w1" by (rule holds_Fine [OF keeps_scrapeRedisHost [OF assms(1,2)] start s])
  define w2 where "w2 = w1\<lparr>chan := chan w1 @ scrape_report env e err\<rparr>"
  have r: "reportScrape env e err w1 = Fine ((), w2)"
    unfolding w2_def by (rule reportScrape_run [OF checks w1])
  have "prom_checks_labels env" using assms(1) by (simp add: server_ok_def)
  then have w2: "inv e no_ctx w2" by (rule holds_Fine [OF keeps_reportScrape w1 r])
  define took where "took = duration_seconds (time_between (clock env (tick w)) (clock env (tick w2)))"
  let ?w3 = "w2\<lparr>tick := Suc (tick w2), scrapeDurations := scrapeDurations w2 @ [took]\<rparr>"
  have w3: "inv e no_ctx ?w3" using w2 by (simp add: inv_def no_ctx_def)
  obtain w4 d where g: "registerConstMetricGauge env e ''exporter_last_scrape_duration_seconds'' took [] ?w3 = Fine ((), w4)"
    and d: "desc_name d = ''exporter_last_scrape_duration_seconds''"
      "chan w4 \<in> {chan ?w3, chan ?w3 @ [ConstMetric d GaugeValue took []]}" "scrapeDurations w4 = scrapeDurations ?w3"
    using plain_gauge_run [OF w3] by blast
  obtain dur where dur: "duration_gauge took dur" "chan w4 = chan w1 @ scrape_report env e err @ dur"
    using d(1,2) by (auto simp: duration_gauge_def w2_def)
  have "Collect env e w = sendOwn e w4"
    using assms(4) s r g
    by (simp add: Collect_def scrapeAndReport_def timed_def timeNow_def scrape_begins_def took_def prog_defs)
  moreover have "scrapeDurations w4 = scrapeDurations w1 @ [took]" using d(3) by (simp add: w2_def)
  ultimately show ?thesis using dur by (auto simp: sendOwn_effect)
qed

text \<open>C3: \<open>up\<close> tells whether the scrape worked: a scrape of the host that ended without an error is
  followed on the channel by exactly \<open>exporter_last_scrape_error\<close> 0 with an empty label and \<open>up\<close> 1, and
  one that ended with an error by \<open>exporter_last_scrape_error\<close> 1 labelled with its message (unless the
  library refuses the message, which it does not if it is ASCII) and \<open>up\<close> 0. Only the duration, which is
  also added to the summary of all durations, and the exporter's own metrics come after these.\<close>

theorem up_tells_result:
  assumes "server_ok env" and "options_ok env e" and "inv e no_ctx w" and "redisAddr e \<noteq> []"
    and "Collect env e w = Fine ((), w')"
  shows "\<exists>err w1 took dur. scrapeRedisHost env e (scrape_begins w) = Fine (err, w1) \<and>
    chan w' = chan w1 @
      (case err of
         None \<Rightarrow> [error_gauge e 0 [], up_gauge e 1]
       | Some msg \<Rightarrow>
           (if const_metric_err env (error_desc e) GaugeValue (f64_of_int 1) [msg] = None then [error_gauge e 1 msg] else []) @
           [up_gauge e 0]) @
      dur @ own_metrics e (totalScrapes w') (scrapeDurations w') (targetErrors w') \<and>
    (\<forall>msg. err = Some msg \<longrightarrow> ascii msg \<longrightarrow> error_gauge e 1 msg \<in> set (chan w')) \<and>
    duration_gauge took dur \<and> scrapeDurations w' = scrapeDurations w1 @ [took]"
proof -
  obtain err w1 where s: "scrapeRedisHost env e (scrape_begins w) = Fine (err, w1)"
    using assms(4,5)
    by (auto simp: Collect_def scrapeAndReport_def timed_def timeNow_def scrape_begins_def prog_defs
        split: outcome.splits prod.splits)
  from Collect_run [OF assms(1-4) s] assms(5) obtain took dur where c: "duration_gauge took dur"
    "scrapeDurations w' = scrapeDurations w1 @ [took]"
    "chan w' = chan w1 @ scrape_report env e err @ dur @ own_metrics e (totalScrapes w') (scrapeDurations w') (targetErrors w')"
    by auto
  have "error_gauge e 1 msg \<in> set (chan w')" if "err = Some msg" "ascii msg" for msg
  proof -
    have "const_metric_err env (error_desc e) GaugeValue (f64_of_int 1) [msg] = None"
      using assms(1) that(2) by (simp add: server_ok_def prom_accepts_ascii_def error_desc_def)
    then show ?thesis by (simp add: c(3) scrape_report_def that(1))
  qed
  with s c show ?thesis unfolding scrape_report_def by blast
qed

theorem up_tells_result_witness:
  "\<exists>w1 err took dur w'. Collect steady_env demo_exporter (start_world demo_exporter []) = Fine ((), w') \<and>
     scrapeRedisHost steady_env demo_exporter (scrape_begins (start_world demo_exporter [])) = Fine (err, w1) \<and>
     duration_gauge took dur \<and>
     chan w' = chan w1 @
      (case err of
         None \<Rightarrow> [error_gauge demo_exporter 0 [], up_gauge demo_exporter 1]
       | Some msg \<Rightarrow>
           (if const_metric_err steady_env (error_desc demo_exporter) GaugeValue (f64_of_int 1) [msg] = None
            then [error_gauge demo_exporter 1 msg] else []) @
           [up_gauge demo_exporter 0]) @
      dur @ own_metrics demo_exporter (totalScrapes w') (scrapeDurations w') (targetErrors w')"
proof -
  obtain w' where c: "Collect steady_env demo_exporter (start_world demo_exporter []) = Fine ((), w')"
    using finishes_Collect [OF demo_search_free, of steady_env] Collect_outcome(1) [OF steady_server_ok demo_options_ok inv_start]
    by (cases "Collect steady_env demo_exporter (start_world demo_exporter [])") (auto simp: finishes_def)
  have "redisAddr demo_exporter \<noteq> []" by (simp add: demo_exporter_def)
  from up_tells_result [OF steady_server_ok demo_options_ok inv_start this c] c show ?thesis by blast
qed

text \<open>No dialling succeeds.\<close>

definition unreachable :: "'c env \<Rightarrow> bool" where
  "unreachable env \<longleftrightarrow>
     (\<forall>uri opts n. \<exists>err. fst (dial_url env uri opts n) = Inl err) \<and>
     (\<forall>net addr opts n. \<exists>err. fst (dial_addr env net addr opts n) = Inl err)"

lemma returns_on_net: "(\<And>n. Q (fst (f n))) \<Longrightarrow> returns (on_net f) Q"
  by (auto simp: returns_def on_net_def act_def split: prod.splits) (metis fst_conv)

lemma connect_unreachable:
  assumes "unreachable env"
  shows "returns (connectToRedis env e) (\<lambda>r. \<exists>err. r = Inl err)"
proof -
  have addr: "returns (on_net (dial_addr env net a opts)) (\<lambda>r. \<exists>err. r = Inl err)" for net a opts
    by (rule returns_on_net) (use assms in \<open>simp add: unreachable_def\<close>)
  have url: "returns (on_net (dial_url env uri opts)) (\<lambda>r. \<exists>err. r = Inl err)" for uri opts
    by (rule returns_on_net) (use assms in \<open>simp add: unreachable_def\<close>)
  show ?thesis
    unfolding connectToRedis_def Let_def
    by (rule returns_bnd_any)
      (auto intro!: returns_ret returns_bnd [OF url] addr split: sum.splits list.splits)
qed

text \<open>C26: when no connection can be made, the scrape ends whatever patterns are configured, and it
  reports \<open>up\<close> as 0.\<close>

theorem unreachable_reported:
  assumes "server_ok env" and "options_ok env e" and "inv e no_ctx w" and "redisAddr e \<noteq> []"
    and "unreachable env"
  shows "\<exists>w'. Collect env e w = Fine ((), w') \<and> gauge_sent (chan w') ''up'' (f64_of_int 0) []"
proof -
  have checks: "prom_checks_labels env" using assms(1) by (simp add: server_ok_def)
  let ?w0 = "scrape_begins w"
  have start: "inv e no_ctx ?w0" using assms(3) by (simp add: inv_def no_ctx_def scrape_begins_def)
  obtain r took w1 where t: "timed env (connectToRedis env e) ?w0 = Fine ((r, took), w1)" and w1: "inv e no_ctx w1"
    using finishes_Fine [OF finishes_timed [OF finishes_connect(1)] keeps_timed [OF keeps_connectToRedis] start]
    by (metis surj_pair)
  have "\<exists>err. r = Inl err"
    using t returnsD [OF connect_unreachable [OF assms(5)]]
    by (fastforce simp: timed_def timeNow_def prog_defs split: outcome.splits prod.splits)
  then obtain err where r: "r = Inl err" by blast
  obtain w2 where g: "registerConstMetricGauge env e ''exporter_last_scrape_connect_time_seconds'' took [] w1 = Fine ((), w2)"
    using finishes_Fine [OF finishes_register(2) keeps_gauge [OF checks] w1] by force
  have "scrapeRedisHost env e ?w0 = Fine (Some err, w2)"
    using t g r by (simp add: scrapeRedisHost_def prog_defs)
  from Collect_run [OF assms(1-4) this] obtain w' rest where "Collect env e w = Fine ((), w')"
    "chan w' = chan w2 @ scrape_report env e (Some err) @ rest" by blast
  then show ?thesis by (auto simp: gauge_sent_def scrape_report_def up_gauge_def up_desc_def)
qed

definition down_env :: "reply goresult list env" where
  "down_env = steady_env\<lparr>dial_url := \<lambda>_ _ q. (Inl ''connection refused'', q),
     dial_addr := \<lambda>_ _ _ q. (Inl ''connection refused'', q)\<rparr>"

lemma down_server_ok: "server_ok down_env"
proof -
  have f: "const_metric_err down_env = const_metric_err demo_env" "const_summary_err down_env = const_summary_err demo_env"
      "const_histogram_err down_env = const_histogram_err demo_env" "range_order down_env = range_order demo_env"
    by (simp_all add: down_env_def steady_env_def)
  have "prom_checks_labels down_env" "prom_accepts_ascii down_env" "ranges_all down_env"
    unfolding prom_checks_labels_def prom_accepts_ascii_def ranges_all_def f
    using demo_env_checks demo_env_accepts demo_env_ranges
    unfolding prom_checks_labels_def prom_accepts_ascii_def ranges_all_def by blast+
  then show ?thesis
    by (simp add: server_ok_def down_env_def steady_env_def script_rows_ok_def histograms_ok_def streams_ok_def slowlog_ok_def
        modules_ok_def tile38_ok_def demo_Strings_def)
qed

theorem unreachable_reported_witness:
  "\<exists>w'. Collect down_env demo_exporter (start_world demo_exporter []) = Fine ((), w') \<and>
     gauge_sent (chan w') ''up'' (f64_of_int 0) []"
proof (rule unreachable_reported [OF down_server_ok _ inv_start])
  show "options_ok down_env demo_exporter" using demo_options_ok by (simp add: options_ok_def down_env_def)
  show "redisAddr demo_exporter \<noteq> []" by (simp add: demo_exporter_def)
  show "unreachable down_env" by (simp add: unreachable_def down_env_def)
qed

end
