(* ===== verification/GoMux.thy ===== *)
theory GoMux
  imports GoUrl
begin

text \<open>
  The request multiplexer of Go's \<open>net/http\<close> (\<open>ServeMux\<close>, \<open>pattern.go\<close> and \<open>routing_tree.go\<close> of Go
  1.25.0): patterns and their conflicts, which decide whether the constructor gets through, and the
  choice of the pattern for a request. What the multiplexer answers itself (a redirect, 400, 404 or
  405) is \<open>None\<close>. Patterns without wildcards, the only ones the exporter registers unless its metrics
  path has some, conflict exactly when they are equal, and the longest one that fits is chosen.
\<close>

section \<open>Patterns\<close>

text \<open>A segment of a pattern: a literal, a wildcard for one segment or one for all that follow; a slash
  at the end is a wildcard of the last kind without a name, and \<open>{$}\<close> is the literal slash.\<close>

datatype segment = Literal string | Wildcard string | Multi string

record pattern =
  pat_text :: string
  pat_method :: string
  pat_host :: string
  pat_segments :: "segment list"

text \<open>\<open>path.Clean\<close> on a path that starts with a slash, and \<open>cleanPath\<close>.\<close>

fun clean_elements :: "string list \<Rightarrow> string list \<Rightarrow> string list" where
  "clean_elements done [] = rev done"
| "clean_elements done (x # xs) =
     (if x = [] \<or> x = ''.'' then clean_elements done xs
      else if x = ''..'' then clean_elements (tl done) xs
      else clean_elements (x # done) xs)"

definition clean_rooted :: "string \<Rightarrow> string" where
  "clean_rooted p = ''/'' @ go_join (clean_elements [] (go_split p ''/'')) ''/''"

definition cleanPath :: "string \<Rightarrow> string" where
  "cleanPath p =
     (let q = (if has_prefix p ''/'' then p else ''/'' @ p);
          np = clean_rooted q
      in if has_suffix q ''/'' \<and> np \<noteq> ''/'' then np @ ''/'' else np)"

definition pathUnescape :: "string \<Rightarrow> string" where
  "pathUnescape p = (case url_unescape EncodePath p of None \<Rightarrow> p | Some u \<Rightarrow> u)"

definition token_char :: "char \<Rightarrow> bool" where
  "token_char c \<longleftrightarrow> alphanumeric c \<or> c \<in> set (quote_char # ''!#$%&*+-.^_`|~'')"

definition validMethod :: "string \<Rightarrow> bool" where
  "validMethod m \<longleftrightarrow> m \<noteq> [] \<and> list_all token_char m"

text \<open>The names of wildcards: letters, digits and underscores. What is a letter or a digit outside ASCII is
  the parameter \<open>uni\<close>.\<close>

definition isValidWildcardName :: "(string \<Rightarrow> bool) \<Rightarrow> string \<Rightarrow> bool" where
  "isValidWildcardName uni s \<longleftrightarrow>
     (if list_all (\<lambda>c. byte c < 128) s
      then s \<noteq> [] \<and> \<not> is_digit (hd s) \<and> list_all (\<lambda>c. alphanumeric c \<or> c = CHR ''_'') s
      else uni s)"

text \<open>A segment with a brace in it, given with whether it is the last one and the names seen so far.\<close>

definition wildcard_segment :: "(string \<Rightarrow> bool) \<Rightarrow> string list \<Rightarrow> bool \<Rightarrow> string \<Rightarrow> segment option" where
  "wildcard_segment uni seen final seg =
     (if hd seg \<noteq> CHR ''{'' \<or> last seg \<noteq> CHR ''}'' then None
      else
        (let name = butlast (tl seg);
             multi = has_suffix name ''...'';
             base = (if multi then take (length name - 3) name else name)
         in if name = ''$'' then (if final then Some (Literal ''/'') else None)
            else if multi \<and> \<not> final then None
            else if \<not> isValidWildcardName uni base \<or> base \<in> set seen then None
            else Some (if multi then Multi base else Wildcard base)))"

definition segment_name :: "segment \<Rightarrow> string list" where
  "segment_name seg = (case seg of Wildcard n \<Rightarrow> [n] | _ \<Rightarrow> [])"

function parse_segments :: "(string \<Rightarrow> bool) \<Rightarrow> string list \<Rightarrow> string \<Rightarrow> segment list option" where
  "parse_segments uni seen [] = Some []"
| "parse_segments uni seen (c # rest) =
     (if rest = [] then Some [Multi []]
      else
        (let seg = takeWhile (\<lambda>c. c \<noteq> CHR ''/'') rest;
             later = dropWhile (\<lambda>c. c \<noteq> CHR ''/'') rest
         in if CHR ''{'' \<notin> set seg
            then map_option ((#) (Literal (pathUnescape seg))) (parse_segments uni seen later)
            else case wildcard_segment uni seen (later = []) seg of
                None \<Rightarrow> None
              | Some s \<Rightarrow> map_option ((#) s) (parse_segments uni (segment_name s @ seen) later)))"
  by pat_completeness auto

termination
  by (relation "measure (\<lambda>(uni, seen, s). length s)") (auto simp: less_Suc_eq_le length_dropWhile_le)

definition blank_char :: "char \<Rightarrow> bool" where
  "blank_char c \<longleftrightarrow> c = CHR '' '' \<or> c = CHR 0x09"

definition parsePattern :: "(string \<Rightarrow> bool) \<Rightarrow> string \<Rightarrow> pattern option" where
  "parsePattern uni s =
     (let found = list_ex blank_char s;
          m = (if found then takeWhile (\<lambda>c. \<not> blank_char c) s else []);
          rest = (if found then dropWhile blank_char (dropWhile (\<lambda>c. \<not> blank_char c) s) else s);
          host = takeWhile (\<lambda>c. c \<noteq> CHR ''/'') rest;
          path = dropWhile (\<lambda>c. c \<noteq> CHR ''/'') rest
      in if m \<noteq> [] \<and> \<not> validMethod m then None
         else if path = [] \<or> CHR ''{'' \<in> set host then None
         else if m \<noteq> [] \<and> m \<noteq> ''CONNECT'' \<and> path \<noteq> cleanPath path then None
         else map_option (\<lambda>segs. \<lparr>pat_text = s, pat_method = m, pat_host = host, pat_segments = segs\<rparr>)
           (parse_segments uni [] path))"

section \<open>Conflicts\<close>

datatype relationship = Equivalent | MoreGeneral | MoreSpecific | Disjoint | Overlaps

definition inverseRelationship :: "relationship \<Rightarrow> relationship" where
  "inverseRelationship r =
     (case r of MoreSpecific \<Rightarrow> MoreGeneral | MoreGeneral \<Rightarrow> MoreSpecific | _ \<Rightarrow> r)"

definition combineRelationships :: "relationship \<Rightarrow> relationship \<Rightarrow> relationship" where
  "combineRelationships r1 r2 =
     (case r1 of
        Equivalent \<Rightarrow> r2
      | Disjoint \<Rightarrow> Disjoint
      | Overlaps \<Rightarrow> if r2 = Disjoint then Disjoint else Overlaps
      | _ \<Rightarrow> if r2 = Equivalent then r1 else if r2 = inverseRelationship r1 then Overlaps else r2)"

definition is_multi :: "segment \<Rightarrow> bool" where
  "is_multi s = (case s of Multi n \<Rightarrow> True | _ \<Rightarrow> False)"

definition compareSegments :: "segment \<Rightarrow> segment \<Rightarrow> relationship" where
  "compareSegments s1 s2 =
     (case (s1, s2) of
        (Multi _, Multi _) \<Rightarrow> Equivalent
      | (Multi _, _) \<Rightarrow> MoreGeneral
      | (_, Multi _) \<Rightarrow> MoreSpecific
      | (Wildcard _, Wildcard _) \<Rightarrow> Equivalent
      | (Wildcard _, Literal b) \<Rightarrow> if b = ''/'' then Disjoint else MoreGeneral
      | (Literal a, Wildcard _) \<Rightarrow> if a = ''/'' then Disjoint else MoreSpecific
      | (Literal a, Literal b) \<Rightarrow> if a = b then Equivalent else Disjoint)"

definition ends_multi :: "segment list \<Rightarrow> bool" where
  "ends_multi segs \<longleftrightarrow> segs \<noteq> [] \<and> is_multi (last segs)"

text \<open>The loop over corresponding segments; the flags say whether the patterns end in a wildcard for all
  that follows.\<close>

fun compare_from :: "bool \<Rightarrow> bool \<Rightarrow> relationship \<Rightarrow> segment list \<Rightarrow> segment list \<Rightarrow> relationship" where
  "compare_from m1 m2 rel (a # as) (b # bs) =
     (let rel' = combineRelationships rel (compareSegments a b)
      in if rel' = Disjoint then Disjoint else compare_from m1 m2 rel' as bs)"
| "compare_from m1 m2 rel [] [] = rel"
| "compare_from m1 m2 rel [] (b # bs) = (if m1 then combineRelationships rel MoreGeneral else Disjoint)"
| "compare_from m1 m2 rel (a # as) [] = (if m2 then combineRelationships rel MoreSpecific else Disjoint)"

definition comparePaths :: "segment list \<Rightarrow> segment list \<Rightarrow> relationship" where
  "comparePaths s1 s2 =
     (if length s1 \<noteq> length s2 \<and> \<not> ends_multi s1 \<and> \<not> ends_multi s2 then Disjoint
      else compare_from (ends_multi s1) (ends_multi s2) Equivalent s1 s2)"

definition compareMethods :: "string \<Rightarrow> string \<Rightarrow> relationship" where
  "compareMethods m1 m2 =
     (if m1 = m2 then Equivalent
      else if m1 = [] then MoreGeneral
      else if m2 = [] then MoreSpecific
      else if m1 = ''GET'' \<and> m2 = ''HEAD'' then MoreGeneral
      else if m1 = ''HEAD'' \<and> m2 = ''GET'' then MoreSpecific
      else Disjoint)"

definition conflictsWith :: "pattern \<Rightarrow> pattern \<Rightarrow> bool" where
  "conflictsWith p q \<longleftrightarrow> pat_host p = pat_host q \<and>
     combineRelationships (compareMethods (pat_method p) (pat_method q))
       (comparePaths (pat_segments p) (pat_segments q)) \<in> {Equivalent, Overlaps}"

text \<open>The routing tree has one child for single wildcards, which an empty literal shares; it refuses a
  second pattern at a leaf.\<close>

definition tree_key :: "segment \<Rightarrow> string" where
  "tree_key s = (case s of Literal l \<Rightarrow> l | _ \<Rightarrow> [])"

definition same_leaf :: "pattern \<Rightarrow> pattern \<Rightarrow> bool" where
  "same_leaf p q \<longleftrightarrow> pat_host p = pat_host q \<and> pat_method p = pat_method q \<and>
     \<not> ends_multi (pat_segments p) \<and> \<not> ends_multi (pat_segments q) \<and>
     map tree_key (pat_segments p) = map tree_key (pat_segments q)"

definition add_pattern :: "(string \<Rightarrow> bool) \<Rightarrow> pattern list \<Rightarrow> string \<Rightarrow> pattern list option" where
  "add_pattern uni ps s =
     (case parsePattern uni s of
        None \<Rightarrow> None
      | Some p \<Rightarrow> if list_ex (conflictsWith p) ps \<or> list_ex (same_leaf p) ps then None else Some (ps @ [p]))"

section \<open>The pattern for a request\<close>

text \<open>A node of the routing tree is the list of the patterns below it, each with its segments still to
  come; an absent node is the empty list.\<close>

type_synonym node = "(segment list \<times> pattern) list"

definition child :: "string \<Rightarrow> node \<Rightarrow> node" where
  "child key n = List.map_filter (\<lambda>(segs, p).
     case segs of
       [] \<Rightarrow> None
     | s # later \<Rightarrow> if \<not> is_multi s \<and> tree_key s = key then Some (later, p) else None) n"

text \<open>The pattern that ends at the node, and the one for all that follows (the last one added).\<close>

definition leaf :: "node \<Rightarrow> pattern option" where
  "leaf n = map_option snd (find (\<lambda>(segs, p). segs = []) n)"

definition multi_child :: "node \<Rightarrow> pattern option" where
  "multi_child n = map_option snd (find (\<lambda>(segs, p). segs \<noteq> [] \<and> is_multi (hd segs)) (rev n))"

definition first_segment :: "string \<Rightarrow> string \<times> string" where
  "first_segment path =
     (if path = ''/'' then (''/'', [])
      else (pathUnescape (takeWhile (\<lambda>c. c \<noteq> CHR ''/'') (tl path)), dropWhile (\<lambda>c. c \<noteq> CHR ''/'') (tl path)))"

lemma first_segment_less: "first_segment (c # cs) = (seg, rest) \<Longrightarrow> length rest < Suc (length cs)"
  by (auto simp: first_segment_def less_Suc_eq_le length_dropWhile_le split: if_splits)

function match_path :: "node \<Rightarrow> string \<Rightarrow> pattern option" where
  "match_path n [] = leaf n"
| "match_path n (c # cs) =
     (if n = [] then None
      else
        (let (seg, rest) = first_segment (c # cs) in
         case match_path (child seg n) rest of
           Some p \<Rightarrow> Some p
         | None \<Rightarrow>
             (case (if seg = ''/'' then None else match_path (child [] n) rest) of
                Some p \<Rightarrow> Some p
              | None \<Rightarrow> multi_child n)))"
  by pat_completeness auto

termination
  by (relation "measure (\<lambda>(n, path). length path)") (auto dest: first_segment_less [OF sym])

definition method_node :: "string \<Rightarrow> pattern list \<Rightarrow> node" where
  "method_node m ps = map (\<lambda>p. (pat_segments p, p)) (filter (\<lambda>p. pat_method p = m) ps)"

definition first_some :: "'a option \<Rightarrow> 'a option \<Rightarrow> 'a option" where
  "first_some a b = (case a of None \<Rightarrow> b | Some x \<Rightarrow> Some x)"

definition match_method :: "pattern list \<Rightarrow> string \<Rightarrow> string \<Rightarrow> pattern option" where
  "match_method ps m path =
     first_some (match_path (method_node m ps) path)
       (first_some (if m = ''HEAD'' then match_path (method_node ''GET'' ps) path else None)
         (match_path (method_node [] ps) path))"

definition match_tree :: "pattern list \<Rightarrow> string \<Rightarrow> string \<Rightarrow> string \<Rightarrow> pattern option" where
  "match_tree ps host m path =
     first_some (if host = [] then None else match_method (filter (\<lambda>p. pat_host p = host) ps) m path)
       (match_method (filter (\<lambda>p. pat_host p = []) ps) m path)"

definition exactMatch :: "pattern option \<Rightarrow> string \<Rightarrow> bool" where
  "exactMatch n path =
     (case n of
        None \<Rightarrow> False
      | Some p \<Rightarrow> \<not> ends_multi (pat_segments p) \<or>
          (path = [] \<or> last path = CHR ''/'') \<and>
          length (pat_segments p) = length (filter (\<lambda>c. c = CHR ''/'') path))"

text \<open>Whether \<open>matchOrRedirect\<close> sends the client to the path with a slash at the end.\<close>

definition slash_redirect :: "pattern list \<Rightarrow> string \<Rightarrow> string \<Rightarrow> string \<Rightarrow> bool" where
  "slash_redirect ps host m path \<longleftrightarrow>
     \<not> exactMatch (match_tree ps host m path) path \<and> path \<noteq> [] \<and> \<not> has_suffix path ''/'' \<and>
     exactMatch (match_tree ps host m (path @ ''/'')) (path @ ''/'')"

text \<open>\<open>net.SplitHostPort\<close>, of which the host is used, and \<open>stripHostPort\<close>.\<close>

definition split_host_port :: "string \<Rightarrow> string option" where
  "split_host_port h =
     (case cut_last h CHR '':'' of
        None \<Rightarrow> None
      | Some (front, port) \<Rightarrow>
          if has_prefix h ''['' then
            (if last front = CHR '']'' \<and> CHR '']'' \<notin> set (butlast front) \<and> CHR '']'' \<notin> set port \<and> CHR ''['' \<notin> set (tl h)
             then Some (butlast (tl front)) else None)
          else if CHR '':'' \<in> set front \<or> CHR ''['' \<in> set h \<or> CHR '']'' \<in> set h then None
          else Some front)"

definition stripHostPort :: "string \<Rightarrow> string" where
  "stripHostPort h = (case split_host_port h of None \<Rightarrow> h | Some host \<Rightarrow> host)"

definition escaped_path :: "url \<Rightarrow> string" where
  "escaped_path u = escaped_part EncodePath (RawPath u) (Path u)"

text \<open>\<open>ServeMux.ServeHTTP\<close> and \<open>findHandler\<close>: the text of the pattern whose handler serves the request.\<close>

definition find_handler :: "pattern list \<Rightarrow> string \<Rightarrow> string \<Rightarrow> string \<Rightarrow> url \<Rightarrow> string option" where
  "find_handler ps m host requestURI u =
     (let escaped = escaped_path u in
      if requestURI = ''*'' then None
      else if m = ''CONNECT'' then
        (if slash_redirect ps (Host u) m escaped then None
         else map_option pat_text (match_tree ps host m escaped))
      else
        (let h = stripHostPort host; path = cleanPath escaped in
         if slash_redirect ps h m path \<or> path \<noteq> escaped then None
         else map_option pat_text (match_tree ps h m path)))"

section \<open>Plain paths\<close>

text \<open>Paths without wildcards, in the form to which the library cleans paths.\<close>

definition plain_path :: "string \<Rightarrow> bool" where
  "plain_path p \<longleftrightarrow>
     has_prefix p ''/'' \<and> list_all (\<lambda>c. alphanumeric c \<or> c \<in> set ''-_/'') p \<and> \<not> go_contains p ''//''"

definition plain_piece :: "string \<Rightarrow> bool" where
  "plain_piece l \<longleftrightarrow> l \<noteq> [] \<and> list_all (\<lambda>c. alphanumeric c \<or> c \<in> set ''-_'') l"

fun plain_segs :: "segment list \<Rightarrow> bool" where
  "plain_segs [] = True"
| "plain_segs (Literal l # s) = (plain_piece l \<and> plain_segs s)"
| "plain_segs (Multi n # s) = (n = [] \<and> s = [])"
| "plain_segs (Wildcard n # s) = False"

fun seg_text :: "segment list \<Rightarrow> string" where
  "seg_text [] = []"
| "seg_text (Literal l # s) = ''/'' @ l @ seg_text s"
| "seg_text (Multi n # s) = ''/'' @ seg_text s"
| "seg_text (Wildcard n # s) = ''/'' @ seg_text s"

lemma seg_text_slash: "seg_text s = [] \<and> s = [] \<or> (\<exists>t. seg_text s = CHR ''/'' # t)"
  by (cases s rule: seg_text.cases) auto

lemma seg_text_Nil [simp]: "seg_text s = [] \<longleftrightarrow> s = []"
  using seg_text_slash [of s] by auto

lemma piece_char:
  assumes "alphanumeric c \<or> c \<in> set ''-_''"
  shows "plain_char c" and "c \<noteq> CHR ''/''" and "c \<noteq> CHR ''{''" and "c \<noteq> CHR ''.''" and "\<not> blank_char c"
  using assms by (auto simp: plain_char_def alphanumeric_def is_digit_def byte_def blank_char_def)

lemma piece_chars:
  assumes "plain_piece l"
  shows "list_all plain_char l" and "CHR ''/'' \<notin> set l" and "CHR ''{'' \<notin> set l" and "CHR ''.'' \<notin> set l"
    and "\<not> list_ex blank_char l" and "l \<noteq> []"
proof -
  have c: "alphanumeric c \<or> c \<in> set ''-_''" if "c \<in> set l" for c
    using assms that by (auto simp: plain_piece_def list_all_iff)
  show "list_all plain_char l" "\<not> list_ex blank_char l"
    unfolding list_all_iff list_ex_iff using piece_char [OF c] by blast+
  show "CHR ''/'' \<notin> set l" "CHR ''{'' \<notin> set l" "CHR ''.'' \<notin> set l"
    using piece_char [OF c] by blast+
  show "l \<noteq> []" using assms by (simp add: plain_piece_def)
qed

lemma piece_last: "plain_piece l \<Longrightarrow> last l \<noteq> CHR ''/''"
  using piece_chars(2,6) last_in_set by metis

lemma piece_cut:
  assumes "plain_piece l"
  shows "takeWhile (\<lambda>c. c \<noteq> CHR ''/'') (l @ seg_text s) = l" and "dropWhile (\<lambda>c. c \<noteq> CHR ''/'') (l @ seg_text s) = seg_text s"
proof -
  note l = piece_chars(2) [OF assms]
  have "takeWhile (\<lambda>c. c \<noteq> CHR ''/'') (l @ seg_text s) = l \<and> dropWhile (\<lambda>c. c \<noteq> CHR ''/'') (l @ seg_text s) = seg_text s"
  proof (cases "seg_text s")
    case Nil
    then show ?thesis using no_char [OF l] by simp
  next
    case (Cons c t)
    then have "c = CHR ''/''" using seg_text_slash [of s] by auto
    with Cons show ?thesis using before_char [OF l, of t] by simp
  qed
  then show "takeWhile (\<lambda>c. c \<noteq> CHR ''/'') (l @ seg_text s) = l" "dropWhile (\<lambda>c. c \<noteq> CHR ''/'') (l @ seg_text s) = seg_text s"
    by blast+
qed

lemma piece_unescaped: "plain_piece l \<Longrightarrow> pathUnescape l = l"
proof -
  assume "plain_piece l"
  from piece_chars(1) [OF this] show ?thesis by (simp add: pathUnescape_def alphanumeric_unescaped)
qed

lemma parse_plain_segs: "plain_segs s \<Longrightarrow> parse_segments uni seen (seg_text s) = Some s"
proof (induction s rule: plain_segs.induct)
  case (2 l s)
  then have l: "plain_piece l" and s: "parse_segments uni seen (seg_text s) = Some s" by simp_all
  moreover from l have "l @ seg_text s \<noteq> []" "CHR ''{'' \<notin> set l"
    using piece_chars [OF l] by simp_all
  ultimately show ?case by (simp add: piece_cut piece_unescaped Let_def)
qed simp_all

lemma plain_segs_unique: "plain_segs s \<Longrightarrow> plain_segs s' \<Longrightarrow> seg_text s = seg_text s' \<longleftrightarrow> s = s'"
  by (metis option.inject parse_plain_segs)

lemma contains_drop: "go_contains s sub \<Longrightarrow> go_contains (x @ s) sub"
  by (induction x) simp_all

lemma plain_path_segs:
  assumes "plain_path p"
  obtains s where "plain_segs s" and "s \<noteq> []" and "seg_text s = p"
proof -
  have "\<exists>s. plain_segs s \<and> s \<noteq> [] \<and> seg_text s = p"
    using assms
  proof (induction "length p" arbitrary: p rule: less_induct)
    case less
    then obtain rest where p: "p = CHR ''/'' # rest" by (cases p) (auto simp: plain_path_def has_prefix_def)
    show ?case
    proof (cases "rest = []")
      case True
      then have "plain_segs [Multi []] \<and> [Multi []] \<noteq> [] \<and> seg_text [Multi []] = p" by (simp add: p)
      then show ?thesis by blast
    next
      case False
      define l t where "l = takeWhile (\<lambda>c. c \<noteq> CHR ''/'') rest" and "t = dropWhile (\<lambda>c. c \<noteq> CHR ''/'') rest"
      have rest: "rest = l @ t" by (simp add: l_def t_def)
      have "hd rest \<noteq> CHR ''/''" using less.prems False by (cases rest) (auto simp: plain_path_def p has_prefix_def)
      with False have "l \<noteq> []" by (cases rest) (auto simp: l_def)
      moreover have "list_all (\<lambda>c. alphanumeric c \<or> c \<in> set ''-_/'') rest" using less.prems by (simp add: plain_path_def p)
      then have chars: "list_all (\<lambda>c. alphanumeric c \<or> c \<in> set ''-_/'') l" "list_all (\<lambda>c. alphanumeric c \<or> c \<in> set ''-_/'') t"
        by (simp_all add: rest)
      moreover have "CHR ''/'' \<notin> set l" unfolding l_def by (auto dest: set_takeWhileD)
      ultimately have l: "plain_piece l" unfolding plain_piece_def list_all_iff by auto
      show ?thesis
      proof (cases "t = []")
        case True
        with l have "plain_segs [Literal l] \<and> [Literal l] \<noteq> [] \<and> seg_text [Literal l] = p" by (simp add: p rest)
        then show ?thesis by blast
      next
        case False
        then have "hd t = CHR ''/''" unfolding t_def using hd_dropWhile by blast
        with False have "has_prefix t ''/''" by (cases t) (auto simp: has_prefix_def)
        moreover have "\<not> go_contains t ''//''"
          using less.prems contains_drop [of t "''//''" "CHR ''/'' # l"] by (auto simp: plain_path_def p rest simp del: go_contains.simps)
        ultimately have "plain_path t" using chars by (simp add: plain_path_def)
        moreover have "length t < length p" by (simp add: p rest)
        ultimately obtain s where "plain_segs s \<and> s \<noteq> [] \<and> seg_text s = t" using less.hyps by blast
        with l have "plain_segs (Literal l # s) \<and> Literal l # s \<noteq> [] \<and> seg_text (Literal l # s) = p"
          by (simp add: p rest)
        then show ?thesis by blast
      qed
    qed
  qed
  with that show ?thesis by blast
qed

section \<open>Plain patterns conflict exactly when they are equal\<close>

definition plain_pattern :: "segment list \<Rightarrow> pattern" where
  "plain_pattern s = \<lparr>pat_text = seg_text s, pat_method = [], pat_host = [], pat_segments = s\<rparr>"

lemma plain_pattern_fields [simp]:
  "pat_text (plain_pattern s) = seg_text s" "pat_method (plain_pattern s) = []" "pat_host (plain_pattern s) = []"
  "pat_segments (plain_pattern s) = s"
  by (simp_all add: plain_pattern_def)

lemma plain_text_no_blank: "plain_segs s \<Longrightarrow> \<not> list_ex blank_char (seg_text s)"
proof (induction s rule: plain_segs.induct)
  case (2 l s)
  then show ?case using piece_chars(5) [of l] by (auto simp: blank_char_def list_ex_iff)
qed (simp_all add: blank_char_def)

lemma parse_plain_pattern:
  assumes "plain_segs s" and "s \<noteq> []"
  shows "parsePattern uni (seg_text s) = Some (plain_pattern s)"
proof -
  obtain t where t: "seg_text s = CHR ''/'' # t" using seg_text_slash [of s] assms(2) by auto
  then have "takeWhile (\<lambda>c. c \<noteq> CHR ''/'') (seg_text s) = []" "dropWhile (\<lambda>c. c \<noteq> CHR ''/'') (seg_text s) = seg_text s"
    by simp_all
  then show ?thesis
    using plain_text_no_blank [OF assms(1)] assms
    by (simp add: parsePattern_def Let_def parse_plain_segs plain_pattern_def)
qed

lemma combine_Equivalent [simp]: "combineRelationships Equivalent r = r"
  by (simp add: combineRelationships_def)

lemma compare_from_plain:
  assumes "plain_segs s1" and "plain_segs s2"
  shows "compare_from m1 m2 Equivalent s1 s2 \<in> {Equivalent, Overlaps} \<longleftrightarrow> s1 = s2"
  using assms
proof (induction s1 arbitrary: s2)
  case Nil
  then show ?case by (cases s2) simp_all
next
  case (Cons a s1)
  show ?case
  proof (cases s2)
    case Nil
    then show ?thesis by simp
  next
    case s2: (Cons b s2')
    show ?thesis
    proof (cases a)
      case a: (Literal x)
      show ?thesis
      proof (cases b)
        case (Literal y)
        with Cons s2 a show ?thesis by (auto simp: compareSegments_def)
      next
        case (Multi n)
        with Cons.prems s2 have "s2' = []" by simp
        with s2 a Multi show ?thesis by (cases s1) (simp_all add: compareSegments_def combineRelationships_def inverseRelationship_def)
      qed (use Cons.prems s2 in simp)
    next
      case a: (Multi n)
      with Cons.prems have s1: "s1 = []" and n: "n = []" by simp_all
      show ?thesis
      proof (cases b)
        case (Literal y)
        with s2 a s1 show ?thesis by (cases s2') (simp_all add: compareSegments_def combineRelationships_def inverseRelationship_def)
      next
        case (Multi k)
        with Cons.prems s2 have "s2' = []" "k = []" by simp_all
        with s2 a s1 n Multi show ?thesis by (simp add: compareSegments_def)
      qed (use Cons.prems s2 in simp)
    qed (use Cons.prems in simp)
  qed
qed

lemma conflict_plain:
  assumes "plain_segs s1" and "plain_segs s2"
  shows "conflictsWith (plain_pattern s1) (plain_pattern s2) \<longleftrightarrow> s1 = s2"
  using compare_from_plain [OF assms]
  by (auto simp: conflictsWith_def comparePaths_def compareMethods_def)

lemma tree_key_simps [simp]: "tree_key (Literal l) = l" "tree_key (Wildcard m) = []" "tree_key (Multi m) = []"
  by (simp_all add: tree_key_def)

lemma is_multi_simps [simp]: "\<not> is_multi (Literal l)" "\<not> is_multi (Wildcard m)" "is_multi (Multi m)"
  by (simp_all add: is_multi_def)

lemma tree_key_plain:
  assumes "plain_segs s1" and "plain_segs s2" and "\<not> ends_multi s1" and "\<not> ends_multi s2"
    and "map tree_key s1 = map tree_key s2"
  shows "s1 = s2"
  using assms
proof (induction s1 arbitrary: s2)
  case (Cons a s1)
  then obtain b s2' where s2: "s2 = b # s2'" by (cases s2) auto
  have lit: "\<exists>x. c = Literal x" if "plain_segs (c # s)" "\<not> ends_multi (c # s)" for c s
    using that by (cases c) (auto simp: ends_multi_def is_multi_def)
  obtain x where a: "a = Literal x" using lit [OF Cons.prems(1,3)] ..
  obtain y where b: "b = Literal y" using lit [OF Cons.prems(2,4) [unfolded s2]] ..
  from Cons.prems(5) have "x = y" and keys: "map tree_key s1 = map tree_key s2'"
    by (simp_all add: s2 a b)
  moreover have "plain_segs s1" "plain_segs s2'" using Cons.prems(1,2) by (simp_all add: a b s2)
  moreover have "\<not> ends_multi s1" "\<not> ends_multi s2'"
    using Cons.prems(3,4) by (auto simp: s2 ends_multi_def)
  ultimately have "x = y" "s1 = s2'" using Cons.IH [of s2'] by blast+
  then show ?case by (simp add: s2 a b)
qed simp

lemma add_plain:
  assumes "list_all plain_segs ss" and "plain_segs s" and "s \<noteq> []"
  shows "add_pattern uni (map plain_pattern ss) (seg_text s) =
    (if s \<in> set ss then None else Some (map plain_pattern (ss @ [s])))"
proof -
  have plain: "plain_segs s'" if "s' \<in> set ss" for s' using assms(1) that by (simp add: list_all_iff)
  have "list_ex (conflictsWith (plain_pattern s)) (map plain_pattern ss) \<longleftrightarrow> s \<in> set ss"
    using conflict_plain [OF assms(2) plain] unfolding list_ex_iff by auto
  moreover have "s \<in> set ss" if "list_ex (same_leaf (plain_pattern s)) (map plain_pattern ss)"
  proof -
    from that obtain s' where "s' \<in> set ss" and "same_leaf (plain_pattern s) (plain_pattern s')"
      by (auto simp: list_ex_iff)
    moreover from this have "s = s'" using tree_key_plain [OF assms(2) plain] by (simp add: same_leaf_def)
    ultimately show ?thesis by simp
  qed
  ultimately show ?thesis using parse_plain_pattern [OF assms(2,3)] by (auto simp: add_pattern_def)
qed

text \<open>The patterns of a list of routes.\<close>

definition mux_patterns :: "(string \<Rightarrow> bool) \<Rightarrow> string list \<Rightarrow> pattern list" where
  "mux_patterns uni ps = List.map_filter (parsePattern uni) ps"

lemma mux_patterns_plain:
  assumes "list_all plain_path ps"
  obtains ss where "list_all (\<lambda>s. plain_segs s \<and> s \<noteq> []) ss" and "map seg_text ss = ps"
    and "mux_patterns uni ps = map plain_pattern ss"
  using assms
proof (induction ps arbitrary: thesis)
  case Nil
  show ?case by (rule Nil.prems(1) [of "[]"]) (simp_all add: mux_patterns_def map_filter_simps)
next
  case (Cons p ps)
  from Cons.prems(2) obtain ss where ss: "list_all (\<lambda>s. plain_segs s \<and> s \<noteq> []) ss" "map seg_text ss = ps"
      "mux_patterns uni ps = map plain_pattern ss"
    using Cons.IH by auto
  from Cons.prems(2) obtain s where s: "plain_segs s" "s \<noteq> []" "seg_text s = p"
    using plain_path_segs by auto
  show ?case
    by (rule Cons.prems(1) [of "s # ss"])
      (use ss s parse_plain_pattern [OF s(1,2), of uni] in \<open>auto simp: mux_patterns_def map_filter_simps\<close>)
qed

lemma add_plain_path:
  assumes "list_all plain_path ps" and "plain_path p"
  shows "add_pattern uni (mux_patterns uni ps) p = (if p \<in> set ps then None else Some (mux_patterns uni (ps @ [p])))"
proof -
  obtain ss where ss: "list_all (\<lambda>s. plain_segs s \<and> s \<noteq> []) ss" "map seg_text ss = ps"
      "mux_patterns uni ps = map plain_pattern ss"
    using mux_patterns_plain [OF assms(1)] by blast
  obtain s where s: "plain_segs s" "s \<noteq> []" "seg_text s = p" using plain_path_segs [OF assms(2)] by blast
  have "s \<in> set ss \<longleftrightarrow> p \<in> seg_text ` set ss"
    using ss(1) s plain_segs_unique [OF s(1)] by (auto simp: list_all_iff)
  also have "seg_text ` set ss = set ps" by (simp flip: ss(2))
  finally have mem: "s \<in> set ss \<longleftrightarrow> p \<in> set ps" .
  have "list_all plain_segs ss" using ss(1) by (simp add: list_all_iff)
  from add_plain [OF this s(1,2), of uni]
  have add: "add_pattern uni (mux_patterns uni ps) p =
      (if p \<in> set ps then None else Some (map plain_pattern (ss @ [s])))"
    by (simp only: s(3) ss(3) mem)
  have "map plain_pattern (ss @ [s]) = mux_patterns uni ps @ [plain_pattern s]" by (simp add: ss(3))
  also have "\<dots> = mux_patterns uni (ps @ [p])"
    using parse_plain_pattern [OF s(1,2), of uni] by (simp add: mux_patterns_def map_filter_def s(3))
  finally show ?thesis using add by simp
qed

section \<open>The longest plain pattern is chosen\<close>

fun covers :: "segment list \<Rightarrow> segment list \<Rightarrow> bool" where
  "covers [] qs \<longleftrightarrow> qs = []"
| "covers (Multi n # s) qs \<longleftrightarrow> qs \<noteq> []"
| "covers (Literal a # s) (Literal b # qs) \<longleftrightarrow> a = b \<and> covers s qs"
| "covers _ _ \<longleftrightarrow> False"

definition chosen :: "node \<Rightarrow> segment list \<Rightarrow> pattern option \<Rightarrow> bool" where
  "chosen n qs r \<longleftrightarrow>
     (case r of
        None \<Rightarrow> \<forall>(s, p) \<in> set n. \<not> covers s qs
      | Some p \<Rightarrow> \<exists>s. (s, p) \<in> set n \<and> covers s qs \<and>
          (\<forall>(s', p') \<in> set n. covers s' qs \<longrightarrow> length (seg_text s') \<le> length (seg_text s)))"

lemma child_iff:
  "(s, p) \<in> set (child key n) \<longleftrightarrow> (\<exists>seg. (seg # s, p) \<in> set n \<and> \<not> is_multi seg \<and> tree_key seg = key)"
  by (force simp: child_def map_filter_def split: list.splits if_splits)

lemma match_empty_node [simp]: "match_path [] path = None"
  by (cases path) (simp_all add: leaf_def)

lemma find_found: "find P xs = Some x \<Longrightarrow> x \<in> set xs \<and> P x"
  by (induction xs) (auto split: if_splits)

lemma leaf_chosen: "chosen n [] (leaf n)"
proof (cases "find (\<lambda>(s, p). s = []) n")
  case None
  have "\<not> covers s []" if "(s, p) \<in> set n" for s p
    using None that by (cases s rule: plain_segs.cases) (auto simp: find_None_iff)
  with None show ?thesis by (auto simp: chosen_def leaf_def)
next
  case (Some x)
  then obtain p where x: "x = ([], p)" "([], p) \<in> set n" using find_found [OF Some] by (cases x) auto
  have "s' = []" if "covers s' []" for s' using that by (cases s' rule: plain_segs.cases) auto
  with Some x show ?thesis by (auto simp: chosen_def leaf_def)
qed

lemma multi_chosen:
  assumes "\<forall>(s, p) \<in> set n. plain_segs s" and "qs \<noteq> []" and "\<And>s p. (s, p) \<in> set n \<Longrightarrow> covers s qs \<Longrightarrow> is_multi (hd s)"
  shows "chosen n qs (multi_child n)"
proof (cases "find (\<lambda>(s, p). s \<noteq> [] \<and> is_multi (hd s)) (rev n)")
  case None
  have "\<not> covers s qs" if "(s, p) \<in> set n" for s p
    using None assms(2) assms(3) [OF that] that by (cases s) (auto simp: find_None_iff)
  with None show ?thesis by (auto simp: chosen_def multi_child_def)
next
  case (Some x)
  obtain s p where x: "x = (s, p)" by (cases x)
  have multi: "s' = [Multi []]" if "(s', p') \<in> set n" "s' \<noteq> []" "is_multi (hd s')" for s' p'
    using assms(1) that by (cases s' rule: plain_segs.cases) (auto simp: is_multi_def)
  have s: "(s, p) \<in> set n" "s = [Multi []]" using find_found [OF Some] multi by (auto simp: x)
  have "length (seg_text s') \<le> length (seg_text s)" if "(s', p') \<in> set n" "covers s' qs" for s' p'
  proof -
    have "s' \<noteq> []" using that assms(2) by auto
    then show ?thesis using multi [OF that(1)] assms(3) [OF that] s(2) by simp
  qed
  then show ?thesis using Some s assms(2) by (auto simp: chosen_def multi_child_def x)
qed

lemma plain_child:
  assumes "\<forall>(s, p) \<in> set n. plain_segs s" and "key = [] \<or> key = ''/''"
  shows "child key n = []"
proof -
  have "(s, p) \<notin> set (child key n)" for s p
  proof
    assume "(s, p) \<in> set (child key n)"
    then obtain seg where m: "(seg # s, p) \<in> set n" "\<not> is_multi seg" and k: "tree_key seg = key" by (auto simp: child_iff)
    with assms(1) obtain l where "seg = Literal l" "plain_piece l"
      by (cases seg) (auto simp: is_multi_def)
    with k assms(2) piece_chars [of l] show False by (auto simp: tree_key_def)
  qed
  then show ?thesis by (metis equals0I prod.exhaust_sel set_empty)
qed

lemma match_path_chosen:
  assumes "plain_segs qs" and "\<forall>(s, p) \<in> set n. plain_segs s"
  shows "chosen n qs (match_path n (seg_text qs))"
  using assms
proof (induction qs arbitrary: n rule: plain_segs.induct)
  case 1
  then show ?case by (simp add: leaf_chosen)
next
  case (3 k qs)
  then have qs: "qs = []" "k = []" by simp_all
  have "match_path n (seg_text [Multi []]) = multi_child n"
    using plain_child [OF 3(2), of "''/''"] by (simp add: first_segment_def multi_child_def)
  moreover have "is_multi (hd s)" if "(s, p) \<in> set n" "covers s [Multi []]" for s p
    using that by (cases s rule: plain_segs.cases) (auto simp: is_multi_def)
  ultimately show ?case using multi_chosen [OF 3(2), of "[Multi []]"] by (simp add: qs)
next
  case (2 l qs)
  then have l: "plain_piece l" and qs: "plain_segs qs" by simp_all
  have first: "first_segment (CHR ''/'' # l @ seg_text qs) = (l, seg_text qs)"
    using piece_chars(6) [OF l] by (simp add: first_segment_def piece_cut [OF l] piece_unescaped [OF l])
  have "l \<noteq> ''/''" using piece_chars(2) [OF l] by auto
  then have step: "match_path n (seg_text (Literal l # qs)) =
      (if n = [] then None
       else case match_path (child l n) (seg_text qs) of Some p \<Rightarrow> Some p | None \<Rightarrow> multi_child n)"
    using plain_child [OF 2(3), of "[]"] by (simp add: first split: option.split)
  have c: "(s, p) \<in> set (child l n) \<longleftrightarrow> (Literal l # s, p) \<in> set n" for s p
  proof
    assume "(s, p) \<in> set (child l n)"
    then obtain seg where seg: "(seg # s, p) \<in> set n" "\<not> is_multi seg" "tree_key seg = l" by (auto simp: child_iff)
    with piece_chars(6) [OF l] show "(Literal l # s, p) \<in> set n" by (cases seg) auto
  next
    assume "(Literal l # s, p) \<in> set n"
    then have "(Literal l # s, p) \<in> set n \<and> \<not> is_multi (Literal l) \<and> tree_key (Literal l) = l" by simp
    then show "(s, p) \<in> set (child l n)" unfolding child_iff by blast
  qed
  have "\<forall>(s, p) \<in> set (child l n). plain_segs s" using 2(3) by (fastforce simp: c)
  from 2(1) [OF qs this] have IH: "chosen (child l n) qs (match_path (child l n) (seg_text qs))" .
  have cov: "covers s (Literal l # qs) \<longleftrightarrow> s = [Multi []] \<or> (\<exists>s'. s = Literal l # s' \<and> covers s' qs)"
    if "(s, p) \<in> set n" for s p
    using 2(3) that by (cases s rule: plain_segs.cases) auto
  show ?case
  proof (cases "match_path (child l n) (seg_text qs)")
    case None
    have "is_multi (hd s)" if "(s, p) \<in> set n" "covers s (Literal l # qs)" for s p
      using IH that cov [OF that(1)] unfolding None by (auto simp: chosen_def c is_multi_def)
    then have "chosen n (Literal l # qs) (multi_child n)" using multi_chosen [OF 2(3)] by blast
    with None show ?thesis unfolding step by (auto simp: multi_child_def)
  next
    case (Some p)
    with IH obtain s where s: "(s, p) \<in> set (child l n)" "covers s qs"
      and all: "\<forall>(s', p') \<in> set (child l n). covers s' qs \<longrightarrow> length (seg_text s') \<le> length (seg_text s)"
      by (auto simp: chosen_def)
    from s(1) have m: "(Literal l # s, p) \<in> set n" by (simp add: c)
    have best: "length (seg_text s') \<le> length (seg_text s)" if "(Literal l # s', p') \<in> set n" "covers s' qs" for s' p'
      using all that c [of s' p'] by blast
    have "length (seg_text s') \<le> length (seg_text (Literal l # s))"
      if "(s', p') \<in> set n" "covers s' (Literal l # qs)" for s' p'
      using that cov [OF that(1)] best by auto
    moreover have "covers (Literal l # s) (Literal l # qs)" using s(2) by simp
    ultimately have "chosen n (Literal l # qs) (Some p)" using m unfolding chosen_def option.case by blast
    moreover have "n \<noteq> []" using m by auto
    ultimately show ?thesis unfolding step using Some by simp
  qed
qed simp

text \<open>In terms of the paths: a pattern serves its own path and, if it ends in a slash, all that start with
  it.\<close>

definition serves :: "string \<Rightarrow> string \<Rightarrow> bool" where
  "serves p q \<longleftrightarrow> p = q \<or> has_suffix p ''/'' \<and> has_prefix q p"

lemma has_suffix_slash: "has_suffix p ''/'' \<longleftrightarrow> p \<noteq> [] \<and> last p = CHR ''/''"
  by (cases p rule: rev_cases) (auto simp: has_suffix_def has_prefix_def)

lemma piece_text_eq:
  assumes "plain_piece a" and "plain_piece b"
  shows "a @ seg_text s = b @ seg_text s' \<longleftrightarrow> a = b \<and> seg_text s = seg_text s'"
  using piece_cut [OF assms(1), of s] piece_cut [OF assms(2), of s'] by metis

lemma prefix_piece:
  assumes "plain_piece a" and "plain_piece b" and "s \<noteq> []" and "a @ seg_text s @ v = b @ seg_text s'"
  shows "a = b \<and> seg_text s @ v = seg_text s'"
proof -
  obtain t where t: "seg_text s = CHR ''/'' # t" using seg_text_slash [of s] assms(3) by auto
  have "takeWhile (\<lambda>c. c \<noteq> CHR ''/'') (a @ seg_text s @ v) = a" "dropWhile (\<lambda>c. c \<noteq> CHR ''/'') (a @ seg_text s @ v) = seg_text s @ v"
    using before_char [OF piece_chars(2) [OF assms(1)], of "t @ v"] by (simp_all add: t)
  with piece_cut [OF assms(2), of s'] assms(4) show ?thesis by simp
qed

lemma serves_short: "\<not> serves (c # t) []" "plain_piece a \<Longrightarrow> \<not> serves (CHR ''/'' # a @ t) ''/''"
  by (auto simp: serves_def has_prefix_def plain_piece_def)

lemma covers_serves: "plain_segs s \<Longrightarrow> plain_segs qs \<Longrightarrow> covers s qs \<longleftrightarrow> serves (seg_text s) (seg_text qs)"
proof (induction s qs rule: covers.induct)
  case (1 qs)
  have "serves [] (seg_text qs) \<longleftrightarrow> [] = seg_text qs" by (simp add: serves_def has_suffix_slash)
  then have "serves [] (seg_text qs) \<longleftrightarrow> qs = []" by (metis seg_text_Nil)
  then show ?case by simp
next
  case (2 n s qs)
  then have s: "s = []" by simp
  show ?case
  proof (cases "qs = []")
    case False
    then obtain t where "seg_text qs = CHR ''/'' # t" using seg_text_slash [of qs] by auto
    with False s show ?thesis by (simp add: serves_def has_suffix_slash)
  qed (use s in \<open>simp add: serves_def has_prefix_def\<close>)
next
  case (3 a s b qs)
  then have a: "plain_piece a" and b: "plain_piece b" and IH: "covers s qs = serves (seg_text s) (seg_text qs)" by simp_all
  have suf: "has_suffix (''/'' @ a @ seg_text s) ''/'' \<longleftrightarrow> has_suffix (seg_text s) ''/''"
    using piece_last [OF a] piece_chars(6) [OF a] by (cases "s = []") (auto simp: has_suffix_slash)
  have "serves (''/'' @ a @ seg_text s) (''/'' @ b @ seg_text qs) \<longleftrightarrow> a = b \<and> serves (seg_text s) (seg_text qs)"
  proof
    assume l: "serves (''/'' @ a @ seg_text s) (''/'' @ b @ seg_text qs)"
    show "a = b \<and> serves (seg_text s) (seg_text qs)"
    proof (cases "''/'' @ a @ seg_text s = ''/'' @ b @ seg_text qs")
      case True
      then show ?thesis using piece_text_eq [OF a b] by (simp add: serves_def)
    next
      case False
      with l have slash: "has_suffix (seg_text s) ''/''" and "has_prefix (''/'' @ b @ seg_text qs) (''/'' @ a @ seg_text s)"
        unfolding serves_def suf by blast+
      then obtain v where "a @ seg_text s @ v = b @ seg_text qs" by (auto simp: has_prefix_iff)
      moreover have "s \<noteq> []" using slash by (auto simp: has_suffix_slash)
      ultimately have "a = b \<and> seg_text s @ v = seg_text qs" using prefix_piece [OF a b] by blast
      moreover from this have "has_prefix (seg_text qs) (seg_text s)"
        using has_prefix_append [of "seg_text s" v] by simp
      ultimately show ?thesis using slash by (simp add: serves_def)
    qed
  next
    assume r: "a = b \<and> serves (seg_text s) (seg_text qs)"
    then show "serves (''/'' @ a @ seg_text s) (''/'' @ b @ seg_text qs)"
      unfolding serves_def suf by (auto simp: has_prefix_iff)
  qed
  with IH show ?case by simp
qed (simp_all add: serves_short)

text \<open>The path of a plain request is clean.\<close>

lemma split_pieces: "plain_segs s \<Longrightarrow> s \<noteq> [] \<Longrightarrow> go_split (seg_text s) ''/'' = [] # map tree_key s"
proof (induction s rule: plain_segs.induct)
  case (2 l s)
  then have l: "CHR ''/'' \<notin> set l" using piece_chars(2) by simp
  have first: "go_split (seg_text (Literal l # s)) ''/'' = [] # go_split (l @ seg_text s) ''/''"
    using split_append [of "CHR ''/''" "[]" "l @ seg_text s"] by simp
  show ?case
  proof (cases "s = []")
    case True
    then show ?thesis unfolding first by (simp add: split_none [OF l])
  next
    case False
    then obtain t where t: "seg_text s = CHR ''/'' # t" using seg_text_slash [of s] by auto
    have "go_split (seg_text s) ''/'' = [] # go_split t ''/''"
      unfolding t using split_append [of "CHR ''/''" "[]" t] by simp
    with 2 False have "go_split t ''/'' = map tree_key s" by simp
    then show ?thesis unfolding first t split_append [OF l] by simp
  qed
next
  case (3 n s)
  then show ?case using split_append [of "CHR ''/''" "[]" "[]"] split_none [of "CHR ''/''" "[]"] by simp
qed simp_all

fun literals :: "segment list \<Rightarrow> string list" where
  "literals [] = []"
| "literals (Literal l # s) = l # literals s"
| "literals (_ # s) = literals s"

lemma clean_pieces: "plain_segs s \<Longrightarrow> clean_elements acc (map tree_key s) = rev acc @ literals s"
proof (induction s arbitrary: acc rule: plain_segs.induct)
  case (2 l s)
  then have "CHR ''.'' \<notin> set l" "l \<noteq> []" using piece_chars(4,6) by simp_all
  then have "l \<noteq> []" "l \<noteq> ''.''" "l \<noteq> ''..''" by auto
  with 2 show ?case by simp
qed simp_all

lemma join_literals:
  "plain_segs s \<Longrightarrow> s \<noteq> [] \<Longrightarrow>
   ''/'' @ go_join (literals s) ''/'' @ (if ends_multi s \<and> literals s \<noteq> [] then ''/'' else []) = seg_text s"
proof (induction s rule: plain_segs.induct)
  case (2 l s)
  show ?case
  proof (cases "s = []")
    case True
    then show ?thesis by (simp add: ends_multi_def)
  next
    case False
    with 2 have IH: "''/'' @ go_join (literals s) ''/'' @ (if ends_multi s \<and> literals s \<noteq> [] then ''/'' else []) = seg_text s"
      by simp
    have ends: "ends_multi (Literal l # s) = ends_multi s" using False by (simp add: ends_multi_def)
    show ?thesis
    proof (cases "literals s = []")
      case True
      with 2 False have "s = [Multi []]" by (cases s rule: plain_segs.cases) auto
      then show ?thesis by (simp add: ends_multi_def)
    next
      case False
      then have "go_join (l # literals s) ''/'' = l @ ''/'' @ go_join (literals s) ''/''" by (rule go_join_Cons)
      with IH False ends show ?thesis by simp
    qed
  qed
next
  case (3 n s)
  then show ?case by (simp add: ends_multi_def)
qed simp_all

lemma seg_text_slash_end: "plain_segs s \<Longrightarrow> has_suffix (seg_text s) ''/'' \<longleftrightarrow> ends_multi s"
proof (induction s rule: plain_segs.induct)
  case (2 l s)
  then have "last l \<noteq> CHR ''/''" "l \<noteq> []" using piece_last piece_chars(6) by simp_all
  with 2 show ?case by (cases "s = []") (auto simp: has_suffix_slash ends_multi_def)
qed (simp_all add: has_suffix_slash ends_multi_def)

lemma cleanPath_plain:
  assumes "plain_segs s" and "s \<noteq> []"
  shows "cleanPath (seg_text s) = seg_text s"
proof -
  have "has_prefix (seg_text s) ''/''" using seg_text_slash [of s] assms(2) by auto
  moreover have c: "clean_rooted (seg_text s) = ''/'' @ go_join (literals s) ''/''"
    using clean_pieces [OF assms(1), of "[]"] by (simp add: clean_rooted_def split_pieces [OF assms])
  moreover have "go_join (l # ls) ''/'' \<noteq> []" if "plain_piece l" for l ls
    using piece_chars(6) [OF that] by (cases "ls = []") (simp_all add: go_join_Cons)
  then have "''/'' @ go_join (literals s) ''/'' \<noteq> ''/'' \<longleftrightarrow> literals s \<noteq> []"
    using assms by (cases s rule: plain_segs.cases) auto
  ultimately show ?thesis
    using join_literals [OF assms] seg_text_slash_end [OF assms(1)]
    by (auto simp: cleanPath_def Let_def split: if_splits)
qed

text \<open>Which handler a plain request reaches: the host and the method do not matter.\<close>

lemma match_tree_plain:
  "match_tree (map plain_pattern ss) host m path = match_path (map (\<lambda>s. (s, plain_pattern s)) ss) path"
proof -
  have node: "method_node m' (map plain_pattern ss) = (if m' = [] then map (\<lambda>s. (s, plain_pattern s)) ss else [])" for m'
    by (simp add: method_node_def filter_map o_def)
  have "match_method (map plain_pattern ss) m path = match_path (map (\<lambda>s. (s, plain_pattern s)) ss) path"
    by (simp add: match_method_def node first_some_def split: option.split)
  moreover have "filter (\<lambda>p. pat_host p = host) (map plain_pattern ss) = (if host = [] then map plain_pattern ss else [])" for host
    by (simp add: filter_map o_def)
  moreover have "match_method [] m path = None"
    by (simp add: match_method_def method_node_def first_some_def)
  ultimately show ?thesis by (simp add: match_tree_def first_some_def)
qed

definition longest_serving :: "string list \<Rightarrow> string \<Rightarrow> string option \<Rightarrow> bool" where
  "longest_serving ps q r \<longleftrightarrow>
     (case r of
        None \<Rightarrow> \<forall>p \<in> set ps. \<not> serves p q
      | Some p \<Rightarrow> p \<in> set ps \<and> serves p q \<and> (\<forall>p' \<in> set ps. serves p' q \<longrightarrow> length p' \<le> length p))"

lemma match_tree_longest:
  assumes "list_all plain_path ps" and qs: "plain_segs qs" "qs \<noteq> []" "seg_text qs = q"
  shows "longest_serving ps q (map_option pat_text (match_tree (mux_patterns uni ps) host m q))"
proof -
  obtain ss where ss: "list_all (\<lambda>s. plain_segs s \<and> s \<noteq> []) ss" "map seg_text ss = ps"
      "mux_patterns uni ps = map plain_pattern ss"
    using mux_patterns_plain [OF assms(1)] by blast
  let ?n = "map (\<lambda>s. (s, plain_pattern s)) ss"
  have plain: "plain_segs s" if "s \<in> set ss" for s using ss(1) that by (simp add: list_all_iff)
  then have "\<forall>(s, p) \<in> set ?n. plain_segs s" by auto
  from match_path_chosen [OF qs(1) this] have c: "chosen ?n qs (match_path ?n q)" unfolding qs(3) .
  have cov: "covers s qs \<longleftrightarrow> serves (seg_text s) q" if "s \<in> set ss" for s
    using covers_serves [OF plain [OF that] qs(1)] unfolding qs(3) .
  have ps: "set ps = seg_text ` set ss" by (simp flip: ss(2))
  show ?thesis
    unfolding ss(3) match_tree_plain
  proof (cases "match_path ?n q")
    case None
    with c show "longest_serving ps q (map_option pat_text (match_path ?n q))"
      by (auto simp: chosen_def longest_serving_def ps cov)
  next
    case (Some p)
    with c obtain s where "s \<in> set ss" "p = plain_pattern s" "covers s qs"
      "\<forall>s' \<in> set ss. covers s' qs \<longrightarrow> length (seg_text s') \<le> length (seg_text s)"
      by (auto simp: chosen_def)
    with Some show "longest_serving ps q (map_option pat_text (match_path ?n q))"
      by (simp add: longest_serving_def ps cov)
  qed
qed

text \<open>A match is exact when it is for the pattern itself.\<close>

lemma count_slashes: "plain_segs s \<Longrightarrow> length (filter (\<lambda>c. c = CHR ''/'') (seg_text s)) = length s"
proof (induction s rule: plain_segs.induct)
  case (2 l s)
  then have "filter (\<lambda>c. c = CHR ''/'') l = []" using piece_chars(2) [of l] by (auto simp: filter_empty_conv)
  with 2 show ?case by simp
qed simp_all

lemma covers_same_length: "plain_segs s \<Longrightarrow> plain_segs qs \<Longrightarrow> covers s qs \<Longrightarrow> length s = length qs \<Longrightarrow> ends_multi qs \<Longrightarrow> s = qs"
proof (induction s qs rule: covers.induct)
  case (2 n s qs)
  then have "length qs = 1" "n = []" "s = []" by simp_all
  then obtain x where "qs = [x]" by (auto simp: length_Suc_conv)
  with 2 \<open>n = []\<close> \<open>s = []\<close> show ?case by (cases x) (simp_all add: ends_multi_def)
next
  case (3 a s b qs)
  then have "qs \<noteq> []" by (cases s rule: plain_segs.cases) (auto simp: ends_multi_def)
  with 3 show ?case by (simp add: ends_multi_def)
qed simp_all

lemma covers_other: "plain_segs s \<Longrightarrow> covers s qs \<Longrightarrow> s \<noteq> qs \<Longrightarrow> ends_multi s"
proof (induction s qs rule: covers.induct)
  case (3 a s b qs)
  then have "ends_multi s" by simp
  then show ?case by (auto simp: ends_multi_def)
qed (simp_all add: ends_multi_def)

lemma exact_plain:
  assumes "list_all plain_path ps" and qs: "plain_segs qs" "qs \<noteq> []" "seg_text qs = q"
  shows "exactMatch (match_tree (mux_patterns uni ps) host m q) q \<longleftrightarrow> q \<in> set ps"
proof -
  note long = match_tree_longest [OF assms, of uni host m]
  obtain ss where ss: "list_all (\<lambda>s. plain_segs s \<and> s \<noteq> []) ss" "map seg_text ss = ps"
      "mux_patterns uni ps = map plain_pattern ss"
    using mux_patterns_plain [OF assms(1)] by blast
  let ?n = "map (\<lambda>s. (s, plain_pattern s)) ss"
  have plain: "plain_segs s" if "s \<in> set ss" for s using ss(1) that by (simp add: list_all_iff)
  then have "\<forall>(s, p) \<in> set ?n. plain_segs s" by auto
  from match_path_chosen [OF qs(1) this] have c: "chosen ?n qs (match_path ?n q)" unfolding qs(3) .
  have tree: "match_tree (mux_patterns uni ps) host m q = match_path ?n q"
    unfolding ss(3) by (rule match_tree_plain)
  show ?thesis
  proof (cases "match_path ?n q")
    case None
    then have "\<not> serves q q" if "q \<in> set ps" using long that by (auto simp: tree longest_serving_def)
    with None show ?thesis by (auto simp: tree exactMatch_def serves_def)
  next
    case (Some p)
    with c obtain s where s: "s \<in> set ss" "p = plain_pattern s" "covers s qs" by (auto simp: chosen_def)
    have exact: "exactMatch (Some p) q \<longleftrightarrow> \<not> ends_multi s \<or> ends_multi qs \<and> length s = length qs"
      using seg_text_slash_end [OF qs(1)] qs(2) count_slashes [OF qs(1)]
      by (auto simp: exactMatch_def s(2) has_suffix_slash simp flip: qs(3))
    have same: "exactMatch (Some p) q \<longleftrightarrow> s = qs"
      using exact covers_other [OF plain [OF s(1)] s(3)] covers_same_length [OF plain [OF s(1)] qs(1) s(3)] by auto
    moreover have "q \<in> set ps \<longleftrightarrow> s = qs"
    proof
      assume "q \<in> set ps"
      moreover have "longest_serving ps q (Some (seg_text s))" using long Some by (simp add: tree s(2))
      ultimately have "serves (seg_text s) q" and "length q \<le> length (seg_text s)"
        by (auto simp: longest_serving_def serves_def)
      then have "seg_text s = q" by (auto simp: serves_def has_prefix_iff)
      then show "s = qs" using plain_segs_unique [OF plain [OF s(1)] qs(1)] qs(3) by simp
    next
      assume "s = qs"
      with s(1) show "q \<in> set ps" using qs(3) ss(2) by force
    qed
    ultimately show ?thesis by (simp add: tree Some)
  qed
qed

lemma slash_appended:
  "plain_segs s \<Longrightarrow> \<not> ends_multi s \<Longrightarrow> plain_segs (s @ [Multi []]) \<and> seg_text (s @ [Multi []]) = seg_text s @ ''/''"
proof (induction s rule: plain_segs.induct)
  case (2 l s)
  then have "\<not> ends_multi s" by (auto simp: ends_multi_def)
  with 2 show ?case by simp
qed (simp_all add: ends_multi_def)

lemma plain_two_slashes: "plain_path (q @ ''/'') \<Longrightarrow> \<not> has_suffix q ''/''"
proof
  assume "plain_path (q @ ''/'')" and "has_suffix q ''/''"
  then obtain t where "q = t @ ''/''" by (cases q rule: rev_cases) (auto simp: has_suffix_slash)
  moreover have "go_contains (t @ ''//'') ''//''" by (rule contains_drop) (simp add: has_prefix_def)
  ultimately show False using \<open>plain_path (q @ ''/'')\<close> by (simp add: plain_path_def)
qed

lemma slash_redirect_plain:
  assumes "list_all plain_path ps" and qs: "plain_segs qs" "qs \<noteq> []" "seg_text qs = q"
  shows "slash_redirect (mux_patterns uni ps) h m q \<longleftrightarrow> q \<notin> set ps \<and> q @ ''/'' \<in> set ps"
proof -
  have "q \<noteq> []" using qs by auto
  moreover have "\<not> has_suffix q ''/''" if "q @ ''/'' \<in> set ps"
    using assms(1) that plain_two_slashes by (auto simp: list_all_iff)
  moreover have "exactMatch (match_tree (mux_patterns uni ps) h m (q @ ''/'')) (q @ ''/'') \<longleftrightarrow> q @ ''/'' \<in> set ps"
    if "\<not> has_suffix q ''/''"
  proof (rule exact_plain [OF assms(1)])
    have "\<not> ends_multi qs" using that seg_text_slash_end [OF qs(1)] by (simp add: qs(3))
    from slash_appended [OF qs(1) this]
    show "plain_segs (qs @ [Multi []])" "seg_text (qs @ [Multi []]) = q @ ''/''" by (simp_all add: qs(3))
  qed simp
  ultimately show ?thesis using exact_plain [OF assms] by (auto simp: slash_redirect_def)
qed

lemma add_without_slash:
  assumes "CHR ''/'' \<notin> set p"
  shows "add_pattern uni ps p = None"
proof -
  have "CHR ''/'' \<notin> set (dropWhile f (dropWhile g p))" for f g using assms by (auto dest!: set_dropWhileD)
  then have "dropWhile (\<lambda>c. c \<noteq> CHR ''/'') (dropWhile f (dropWhile g p)) = []" for f g
    using no_char [of "CHR ''/''" "dropWhile f (dropWhile g p)"] by blast
  moreover have "dropWhile (\<lambda>c. c \<noteq> CHR ''/'') p = []" using no_char [OF assms] by simp
  ultimately have "parsePattern uni p = None" by (simp add: parsePattern_def Let_def del: dropWhile_eq_Nil_conv)
  then show ?thesis by (simp add: add_pattern_def)
qed

lemma find_plain_handler:
  assumes "list_all plain_path ps" and "plain_path q" and "escaped_path u = q" and "uri \<noteq> ''*''"
  shows "if q \<notin> set ps \<and> q @ ''/'' \<in> set ps then find_handler (mux_patterns uni ps) m host uri u = None
    else longest_serving ps q (find_handler (mux_patterns uni ps) m host uri u)"
proof -
  obtain qs where qs: "plain_segs qs" "qs \<noteq> []" "seg_text qs = q" using plain_path_segs [OF assms(2)] by blast
  have clean: "cleanPath q = q" using cleanPath_plain [OF qs(1,2)] unfolding qs(3) .
  show ?thesis
    using match_tree_longest [OF assms(1) qs]
    unfolding find_handler_def assms(3) Let_def clean slash_redirect_plain [OF assms(1) qs] using assms(4) by auto
qed

lemma find_own_handler:
  assumes "list_all plain_path ps" and "q \<in> set ps" and "escaped_path u = q" and "uri \<noteq> ''*''"
  shows "find_handler (mux_patterns uni ps) m host uri u = Some q"
proof -
  have "plain_path q" using assms(1,2) by (simp add: list_all_iff)
  from find_plain_handler [OF assms(1) this assms(3,4)] assms(2)
  have l: "longest_serving ps q (find_handler (mux_patterns uni ps) m host uri u)" by simp
  have own: "serves q q" by (simp add: serves_def)
  then have "longest_serving ps q (Some p) \<Longrightarrow> p = q" for p
    using assms(2) by (fastforce simp: longest_serving_def serves_def has_prefix_iff)
  moreover have "\<not> longest_serving ps q None" using assms(2) own by (auto simp: longest_serving_def)
  ultimately show ?thesis using l by (cases "find_handler (mux_patterns uni ps) m host uri u") auto
qed

end
