(* ===== verification/Constructor.thy ===== *)
theory Constructor
  imports Scrape GoMux
begin

text \<open>
  \<open>NewRedisExporter\<close> and \<open>Describe\<close> (\<open>exporter/exporter.go\<close>): the checks of the arguments, the
  defaults, the tables, the registration with the Prometheus library and the routes.
\<close>

section \<open>The constructor\<close>

definition redis_uri :: "string \<Rightarrow> string" where
  "redis_uri uri =
     (if has_prefix uri ''valkey://'' then replace_first uri ''valkey://'' ''redis://''
      else if has_prefix uri ''valkeys://'' then replace_first uri ''valkeys://'' ''rediss://''
      else uri)"

definition key_arguments :: "Options \<Rightarrow> (string \<times> string) list" where
  "key_arguments opts =
     [(''check-keys'', CheckKeys opts), (''check-single-keys'', CheckSingleKeys opts),
      (''check-streams'', CheckStreams opts), (''check-single-streams'', CheckSingleStreams opts),
      (''count-keys'', CountKeys opts)]"

fun checkArguments :: "(string \<times> string) list \<Rightarrow> string option" where
  "checkArguments [] = None"
| "checkArguments ((name, arg) # args) =
     (case parseKeyArg arg of
        Inl err \<Rightarrow> Some (''couldn't parse '' @ name @ '': '' @ err)
      | Inr keys \<Rightarrow> checkArguments args)"

definition make_exporter :: "string \<Rightarrow> Options \<Rightarrow> BuildInfo \<Rightarrow> Exporter" where
  "make_exporter uri opts build =
     \<lparr>redisAddr = redis_uri uri,
      options = opts\<lparr>
        ConfigCommandName := (if ConfigCommandName opts = [] then ''CONFIG'' else ConfigCommandName opts),
        MetricsPath := (if MetricsPath opts = [] then ''/metrics'' else MetricsPath opts)\<rparr>,
      metricMapCounters = counter_table,
      metricMapGauges =
        (if InclSystemMetrics opts then put ''total_system_memory'' ''total_system_memory_bytes'' gauge_table
         else gauge_table),
      buildInfo = build\<rparr>"

text \<open>What \<open>Describe\<close> sends: the stored descriptions (given as the entries of that map), one for each
  INFO field, and the three of the exporter's own metrics.\<close>

definition own_descs :: "string \<Rightarrow> desc list" where
  "own_descs ns =
     [newMetricDescr ns ''exporter_scrapes_total'' ''Current total redis scrapes.'' [],
      newMetricDescr ns ''exporter_scrape_duration_seconds'' ''Durations of scrapes by the exporter'' [],
      newMetricDescr ns ''target_scrape_request_errors_total'' ''Errors in requests to the exporter'' []]"

definition Describe :: "'c env \<Rightarrow> Exporter \<Rightarrow> (string \<times> desc) list \<Rightarrow> ('c, desc list) io" where
  "Describe env e metricDescriptions =
     (let ns = Namespace (options e);
          named = map (\<lambda>(_, v). newMetricDescr ns v (v @ '' metric'') [])
      in bnd (rangeMap env metricDescriptions) (\<lambda>ds.
         bnd (rangeMap env (metricMapGauges e)) (\<lambda>gs.
         bnd (rangeMap env (metricMapCounters e)) (\<lambda>cs.
           ret (map snd ds @ named gs @ named cs @ own_descs ns)))))"

text \<open>The description of the gauge with the build information.\<close>

definition build_desc :: "string \<Rightarrow> desc" where
  "build_desc ns = newMetricDescr ns ''exporter_build_info'' ''redis exporter build_info''
     [''version'', ''commit_sha'', ''build_date'', ''golang_version'']"

definition catalogue_descs :: "string \<Rightarrow> (string \<times> desc) list" where
  "catalogue_descs ns = map (\<lambda>(k, txt, lbls). (k, newMetricDescr ns k txt lbls)) catalogue"

text \<open>A registry is given by the descriptions it holds; the library checks the new ones against these and
  ends the process when it refuses them.\<close>

definition mustRegister :: "'c env \<Rightarrow> desc list \<Rightarrow> desc list \<Rightarrow> ('c, desc list) io" where
  "mustRegister env reg ds =
     (case register_error env reg ds of
        Some err \<Rightarrow> panic err
      | None \<Rightarrow> ret (reg @ ds))"

text \<open>The routes in the order in which they are added; the HTTP library ends the process when one cannot be
  added.\<close>

definition fixed_routes :: "string list" where
  "fixed_routes = [''/'', ''/scrape'', ''/discover-cluster-nodes'', ''/health'', ''/-/reload'']"

fun addRoutes :: "'c env \<Rightarrow> pattern list \<Rightarrow> string list \<Rightarrow> ('c, pattern list) io" where
  "addRoutes env mux [] = ret mux"
| "addRoutes env mux (p # ps) =
     (case add_pattern (unicode_name env) mux p of
        None \<Rightarrow> panic (mux_message env (map pat_text mux) p)
      | Some mux' \<Rightarrow> addRoutes env mux' ps)"

text \<open>The end of the constructor: registration and routes, for the descriptions that the exporter has.\<close>

definition registerAndRoute :: "'c env \<Rightarrow> desc list \<Rightarrow> Exporter \<Rightarrow> desc list \<Rightarrow> ('c, unit) io" where
  "registerAndRoute env reg e ds =
     bnd (mustRegister env reg ds) (\<lambda>reg'.
     bnd (addRoutes env [] [MetricsPath (options e)]) (\<lambda>mux.
     bnd (if RedisMetricsOnly (options e) then ret reg'
          else mustRegister env reg' [build_desc (Namespace (options e))]) (\<lambda>_.
     bnd (addRoutes env mux fixed_routes) (\<lambda>_. skip))))"

definition NewRedisExporter ::
    "'c env \<Rightarrow> desc list \<Rightarrow> string \<Rightarrow> Options \<Rightarrow> BuildInfo \<Rightarrow> ('c, Exporter goresult) io" where
  "NewRedisExporter env reg uri opts build =
     (case checkArguments (key_arguments opts) of
        Some err \<Rightarrow> ret (Inl err)
      | None \<Rightarrow>
          (let e = make_exporter uri opts build; stored = catalogue_descs (Namespace opts) in
           andthen (modify (\<lambda>w. w\<lparr>descs := map_of stored\<rparr>))
           (bnd (Describe env e stored) (\<lambda>ds.
              andthen (registerAndRoute env reg e ds) (ret (Inr e))))))"


section \<open>What is registered\<close>

text \<open>Descriptions that the Prometheus library accepts from a new collector: the names and labels are
  valid, and descriptions of one name agree.\<close>

definition valid_name :: "string \<Rightarrow> bool" where
  "valid_name s \<longleftrightarrow> s \<noteq> [] \<and> \<not> is_digit (hd s) \<and> list_all metric_char s"

definition valid_label :: "string \<Rightarrow> bool" where
  "valid_label s \<longleftrightarrow> valid_name s \<and> \<not> has_prefix s ''__''"

definition registrable :: "desc list \<Rightarrow> bool" where
  "registrable ds \<longleftrightarrow>
     (\<forall>d \<in> set ds. valid_name (desc_fq d) \<and> list_all valid_label (desc_labels d) \<and> distinct (desc_labels d)) \<and>
     (\<forall>d \<in> set ds. \<forall>d' \<in> set ds. desc_fq d = desc_fq d' \<longrightarrow> d = d')"

text \<open>What the library documents of registration: it succeeds for such descriptions when the registry has
  none of their names, and fails when it has one of them.\<close>

definition taken :: "desc list \<Rightarrow> desc list \<Rightarrow> bool" where
  "taken reg ds \<longleftrightarrow> (\<exists>d \<in> set ds. desc_fq d \<in> desc_fq ` set reg)"

definition prom_registers :: "'c env \<Rightarrow> bool" where
  "prom_registers env \<longleftrightarrow> (\<forall>reg ds. registrable ds \<longrightarrow> \<not> taken reg ds \<longrightarrow> register_error env reg ds = None)"

definition prom_refuses :: "'c env \<Rightarrow> bool" where
  "prom_refuses env \<longleftrightarrow> (\<forall>reg ds. taken reg ds \<longrightarrow> register_error env reg ds \<noteq> None)"

text \<open>The names made from the tables of INFO fields, the exporter's own, and a test that separates both
  from the names of the catalogue.\<close>

definition field_names :: "string list" where
  "field_names = map snd gauge_table @ map snd counter_table @ [''total_system_memory_bytes'']"

definition own_names :: "string list" where
  "own_names = [''exporter_scrapes_total'', ''exporter_scrape_duration_seconds'', ''target_scrape_request_errors_total'']"

definition catalogue_prefix :: "string \<Rightarrow> bool" where
  "catalogue_prefix s \<longleftrightarrow>
     s = ''up'' \<or>
     list_ex (has_prefix s)
       [''commands_d'', ''commands_f'', ''commands_l'', ''commands_r'', ''commands_t'', ''conf'',
        ''connected_slave_'', ''db'', ''er'', ''exporter_l'', ''key_'', ''keys_'', ''las'', ''laten'',
        ''master_l'', ''master_s'', ''module_i'', ''number_of_d'', ''sc'', ''search_index_'', ''sen'',
        ''slave_i'', ''slave_r'', ''slo'', ''sta'', ''str'']"

lemmas table_parts =
  gauges_server_def gauges_clients_def gauges_memory_def gauges_persistence_def gauges_stats_def
  gauges_replication_def gauges_cluster_def gauges_tile38_def gauges_keydb_def gauges_search_def
  gauges_valkey_def counters_core_def counters_modules_def

lemma catalogue_prefixed: "list_all catalogue_prefix catalogue_names"
  by (simp add: catalogue_names_def catalogue_def names_parts catalogue_prefix_def has_prefix_def)

definition field_prefix :: "string \<Rightarrow> bool" where
  "field_prefix s \<longleftrightarrow> \<not> catalogue_prefix s \<and> \<not> has_prefix s ''exporter_'' \<and> \<not> has_prefix s ''target_''"

lemma parts_prefixed:
  "list_all field_prefix (map snd gauges_server)"
  "list_all field_prefix (map snd gauges_clients)"
  "list_all field_prefix (map snd gauges_memory)"
  "list_all field_prefix (map snd gauges_persistence)"
  "list_all field_prefix (map snd gauges_stats)"
  "list_all field_prefix (map snd gauges_replication)"
  "list_all field_prefix (map snd gauges_cluster)"
  "list_all field_prefix (map snd gauges_tile38)"
  "list_all field_prefix (map snd gauges_keydb)"
  "list_all field_prefix (map snd gauges_search)"
  "list_all field_prefix (map snd gauges_valkey)"
  "list_all field_prefix (map snd counters_core)"
  "list_all field_prefix (map snd counters_modules)"
  by (simp_all add: table_parts field_prefix_def catalogue_prefix_def has_prefix_def)

lemma fields_prefixed: "list_all field_prefix field_names"
proof -
  have "field_prefix ''total_system_memory_bytes''" by (simp add: field_prefix_def catalogue_prefix_def has_prefix_def)
  then show ?thesis
    using parts_prefixed by (simp add: field_names_def gauge_table_def counter_table_def)
qed

lemma own_not_prefixed: "list_all (\<lambda>s. \<not> catalogue_prefix s) own_names"
  by (simp add: own_names_def catalogue_prefix_def has_prefix_def)

lemma parts_valid:
  "list_all valid_name (map snd gauges_server)"
  "list_all valid_name (map snd gauges_clients)"
  "list_all valid_name (map snd gauges_memory)"
  "list_all valid_name (map snd gauges_persistence)"
  "list_all valid_name (map snd gauges_stats)"
  "list_all valid_name (map snd gauges_replication)"
  "list_all valid_name (map snd gauges_cluster)"
  "list_all valid_name (map snd gauges_tile38)"
  "list_all valid_name (map snd gauges_keydb)"
  "list_all valid_name (map snd gauges_search)"
  "list_all valid_name (map snd gauges_valkey)"
  "list_all valid_name (map snd counters_core)"
  "list_all valid_name (map snd counters_modules)"
  by code_simp+

lemma names_valid: "list_all valid_name field_names" "list_all valid_name own_names"
proof -
  have "list_all valid_name [''total_system_memory_bytes'']" by code_simp
  then show "list_all valid_name field_names"
    using parts_valid by (simp add: field_names_def gauge_table_def counter_table_def)
  show "list_all valid_name own_names" by code_simp
qed

definition entry_valid :: "string \<times> string \<times> string list \<Rightarrow> bool" where
  "entry_valid entry =
     (case entry of (k, txt, ls) \<Rightarrow> valid_name k \<and> list_all valid_label ls \<and> distinct ls)"

lemma descriptions_valid:
  "list_all entry_valid descriptions_instance"
  "list_all entry_valid descriptions_keys"
  "list_all entry_valid descriptions_search"
  "list_all entry_valid descriptions_sentinel"
  "list_all entry_valid descriptions_streams"
  by code_simp+

lemma catalogue_valid: "list_all entry_valid catalogue"
  using descriptions_valid by (simp add: catalogue_def)


section \<open>Registration succeeds\<close>

lemma fq_name_inject: "fq_name ns a = fq_name ns b \<Longrightarrow> a = b"
  by (simp add: fq_name_def split: if_splits)

lemma fq_name_valid: "ns = [] \<or> valid_name ns \<Longrightarrow> valid_name a \<Longrightarrow> valid_name (fq_name ns a)"
  by (auto simp: fq_name_def valid_name_def metric_char_def)

text \<open>The descriptions of a new exporter: of the catalogue, of the INFO fields, and its own.\<close>

definition new_descs :: "string \<Rightarrow> desc set" where
  "new_descs ns =
     {d. \<exists>k. map_of (catalogue_descs ns) k = Some d} \<union>
     (\<lambda>v. newMetricDescr ns v (v @ '' metric'') []) ` set field_names \<union>
     set (own_descs ns)"

lemma catalogue_desc:
  assumes "map_of (catalogue_descs ns) k = Some d"
  shows "\<exists>hlp ls. d = Desc ns k hlp ls \<and> (k, hlp, ls) \<in> set catalogue"
  using map_of_SomeD [OF assms] by (auto simp: catalogue_descs_def newMetricDescr_def)

lemma catalogue_entry:
  assumes "(k, hlp, ls) \<in> set catalogue"
  shows "valid_name k \<and> list_all valid_label ls \<and> distinct ls \<and> catalogue_prefix k"
proof -
  have "entry_valid (k, hlp, ls)" using catalogue_valid assms unfolding list_all_iff by blast
  moreover have "k \<in> set catalogue_names"
    unfolding catalogue_names_def using assms by force
  then have "catalogue_prefix k" using catalogue_prefixed unfolding list_all_iff by blast
  ultimately show ?thesis by (simp add: entry_valid_def)
qed

lemma field_entry: "v \<in> set field_names \<Longrightarrow> valid_name v \<and> \<not> catalogue_prefix v \<and> v \<notin> set own_names"
proof -
  assume v: "v \<in> set field_names"
  then have "field_prefix v" "valid_name v"
    using fields_prefixed names_valid(1) unfolding list_all_iff by blast+
  then show ?thesis by (auto simp: field_prefix_def own_names_def has_prefix_def)
qed

lemma own_entry: "v \<in> set own_names \<Longrightarrow> valid_name v \<and> \<not> catalogue_prefix v"
  using own_not_prefixed names_valid(2) unfolding list_all_iff by blast

lemma own_desc: "d \<in> set (own_descs ns) \<Longrightarrow> desc_namespace d = ns \<and> desc_labels d = [] \<and> desc_name d \<in> set own_names"
  by (auto simp: own_descs_def own_names_def newMetricDescr_def)

lemma own_desc_unique: "d \<in> set (own_descs ns) \<Longrightarrow> d' \<in> set (own_descs ns) \<Longrightarrow> desc_name d = desc_name d' \<Longrightarrow> d = d'"
  unfolding own_descs_def newMetricDescr_def list.set insert_iff by (elim disjE emptyE) simp_all

lemma new_desc_cases:
  assumes "d \<in> new_descs ns"
  obtains (catalogue) "map_of (catalogue_descs ns) (desc_name d) = Some d" "catalogue_prefix (desc_name d)"
  | (field) "d = newMetricDescr ns (desc_name d) (desc_name d @ '' metric'') []" "\<not> catalogue_prefix (desc_name d)"
      "desc_name d \<notin> set own_names"
  | (own) "d \<in> set (own_descs ns)" "\<not> catalogue_prefix (desc_name d)" "desc_name d \<in> set own_names"
proof -
  from assms consider (c) k where "map_of (catalogue_descs ns) k = Some d"
    | (f) v where "v \<in> set field_names" "d = newMetricDescr ns v (v @ '' metric'') []"
    | (o) "d \<in> set (own_descs ns)"
    by (auto simp: new_descs_def)
  then show ?thesis
  proof cases
    case (c k)
    then obtain hlp ls where "d = Desc ns k hlp ls" "(k, hlp, ls) \<in> set catalogue" using catalogue_desc by blast
    with c catalogue_entry catalogue show ?thesis by simp
  next
    case (f v)
    with field_entry field show ?thesis by (simp add: newMetricDescr_def)
  next
    case o
    with own_desc own_entry own show ?thesis by blast
  qed
qed

lemma new_desc_valid:
  assumes "d \<in> new_descs ns" and "ns = [] \<or> valid_name ns"
  shows "desc_namespace d = ns \<and> valid_name (desc_fq d) \<and> list_all valid_label (desc_labels d) \<and> distinct (desc_labels d)"
proof -
  from assms(1) consider (c) k where "map_of (catalogue_descs ns) k = Some d"
    | (f) v where "v \<in> set field_names" "d = newMetricDescr ns v (v @ '' metric'') []"
    | (o) "d \<in> set (own_descs ns)"
    by (auto simp: new_descs_def)
  then show ?thesis
  proof cases
    case (c k)
    then obtain hlp ls where "d = Desc ns k hlp ls" "(k, hlp, ls) \<in> set catalogue" using catalogue_desc by blast
    with catalogue_entry fq_name_valid [OF assms(2)] show ?thesis by (simp add: desc_fq_def)
  next
    case (f v)
    with field_entry fq_name_valid [OF assms(2)] show ?thesis by (simp add: newMetricDescr_def desc_fq_def)
  next
    case o
    with own_desc [OF o] own_entry fq_name_valid [OF assms(2)] show ?thesis by (simp add: desc_fq_def)
  qed
qed

lemma new_descs_registrable:
  assumes "set ds \<subseteq> new_descs ns" and "ns = [] \<or> valid_name ns"
  shows "registrable ds"
proof -
  have same: "d = d'" if "d \<in> new_descs ns" "d' \<in> new_descs ns" "desc_fq d = desc_fq d'" for d d'
  proof -
    have name: "desc_name d = desc_name d'"
    proof (rule fq_name_inject)
      show "fq_name ns (desc_name d) = fq_name ns (desc_name d')"
        using that(3) new_desc_valid [OF that(1) assms(2)] new_desc_valid [OF that(2) assms(2)]
        by (simp add: desc_fq_def)
    qed
    have uniq: "d = d'"
      if "map_of (catalogue_descs ns) (desc_name d) = Some d" "map_of (catalogue_descs ns) (desc_name d') = Some d'"
    proof -
      have "Some d = map_of (catalogue_descs ns) (desc_name d')" unfolding name [symmetric] by (rule that(1) [symmetric])
      also have "\<dots> = Some d'" by (rule that(2))
      finally show ?thesis unfolding option.inject .
    qed
    from \<open>d \<in> new_descs ns\<close> show ?thesis
    proof (cases rule: new_desc_cases)
      case c: catalogue
      from \<open>d' \<in> new_descs ns\<close> show ?thesis
      proof (cases rule: new_desc_cases)
        case catalogue
        with c(1) uniq show ?thesis by blast
      qed (use c(2) name in metis)+
    next
      case f: field
      from \<open>d' \<in> new_descs ns\<close> show ?thesis
      proof (cases rule: new_desc_cases)
        case field
        with f(1) name show ?thesis by metis
      qed (use f(2,3) name in metis)+
    next
      case o: own
      from \<open>d' \<in> new_descs ns\<close> show ?thesis
      proof (cases rule: new_desc_cases)
        case own
        with o(1) name own_desc_unique show ?thesis by blast
      qed (use o(2,3) name in metis)+
    qed
  qed
  have valid: "valid_name (desc_fq d) \<and> list_all valid_label (desc_labels d) \<and> distinct (desc_labels d)" if "d \<in> set ds" for d
    using new_desc_valid [OF _ assms(2), of d] that assms(1) by blast
  show ?thesis
    unfolding registrable_def
    using valid same assms(1) by blast
qed

lemma rangeMap_entries:
  "rangeMap env m w = Fine (xs, w') \<Longrightarrow> w' = w\<lparr>tick := Suc (tick w)\<rparr> \<and> (\<forall>(k, v) \<in> set xs. map_of m k = Some v)"
  by (auto simp: rangeMap_def act_def map_filter_def)

lemma put_values: "snd ` set (put k v m) \<subseteq> insert v (snd ` set m)"
  by (induction m rule: put.induct) auto

lemma exporter_fields:
  "snd ` set (metricMapGauges (make_exporter uri opts build)) \<subseteq> set field_names"
  "snd ` set (metricMapCounters (make_exporter uri opts build)) \<subseteq> set field_names"
  using put_values [of "''total_system_memory''" "''total_system_memory_bytes''" gauge_table]
  by (auto simp: make_exporter_def field_names_def)

lemma Describe_run:
  assumes "snd ` set (metricMapGauges e) \<subseteq> set field_names" and "snd ` set (metricMapCounters e) \<subseteq> set field_names"
  shows "\<exists>ds. Describe env e (catalogue_descs (Namespace (options e))) w = Fine (ds, w\<lparr>tick := tick w + 3\<rparr>) \<and>
    set ds \<subseteq> new_descs (Namespace (options e))"
proof -
  let ?ns = "Namespace (options e)"
  obtain cs where cs: "rangeMap env (catalogue_descs ?ns) w = Fine (cs, w\<lparr>tick := Suc (tick w)\<rparr>)"
    by (simp add: rangeMap_def act_def)
  let ?w = "w\<lparr>tick := Suc (tick w)\<rparr>"
  obtain gs where gs: "rangeMap env (metricMapGauges e) ?w = Fine (gs, ?w\<lparr>tick := Suc (tick ?w)\<rparr>)"
    by (simp add: rangeMap_def act_def)
  let ?w' = "?w\<lparr>tick := Suc (tick ?w)\<rparr>"
  obtain ks where ks: "rangeMap env (metricMapCounters e) ?w' = Fine (ks, ?w'\<lparr>tick := Suc (tick ?w')\<rparr>)"
    by (simp add: rangeMap_def act_def)
  have field: "v \<in> set field_names" if "(k, v) \<in> set gs \<union> set ks" for k v
  proof -
    from that consider "map_of (metricMapGauges e) k = Some v" | "map_of (metricMapCounters e) k = Some v"
      using rangeMap_entries [OF gs] rangeMap_entries [OF ks] by blast
    then show ?thesis
    proof cases
      case 1
      then have "v \<in> snd ` set (metricMapGauges e)" by (force dest: map_of_SomeD)
      with assms(1) show ?thesis by blast
    next
      case 2
      then have "v \<in> snd ` set (metricMapCounters e)" by (force dest: map_of_SomeD)
      with assms(2) show ?thesis by blast
    qed
  qed
  have catalogue: "\<exists>k. map_of (catalogue_descs ?ns) k = Some (snd p)" if "p \<in> set cs" for p
  proof -
    obtain k v where p: "p = (k, v)" by (cases p)
    have "\<forall>(k, v) \<in> set cs. map_of (catalogue_descs ?ns) k = Some v" using rangeMap_entries [OF cs] ..
    with that p have "map_of (catalogue_descs ?ns) k = Some v" by blast
    then show ?thesis unfolding p snd_conv by blast
  qed
  define ds where "ds = map snd cs @ map (\<lambda>(_, v). newMetricDescr ?ns v (v @ '' metric'') []) gs @
     map (\<lambda>(_, v). newMetricDescr ?ns v (v @ '' metric'') []) ks @ own_descs ?ns"
  have "set ds \<subseteq> new_descs ?ns"
    using field catalogue unfolding ds_def new_descs_def by fastforce
  moreover have "Describe env e (catalogue_descs ?ns) w = Fine (ds, w\<lparr>tick := tick w + 3\<rparr>)"
    unfolding Describe_def Let_def ds_def by (simp add: bnd_def cs gs [simplified] ks [simplified] ret_def eval_nat_numeral)
  ultimately show ?thesis by blast
qed


lemma rangeMap_all:
  assumes "rangeMap env m w = Fine (xs, w')" and "ranges_all env" and "map_of m k = Some v"
  shows "(k, v) \<in> set xs"
proof -
  have "mset (range_order env (tick w) (map fst m)) = mset (map fst m)" using assms(2) by (simp add: ranges_all_def)
  then have "set (range_order env (tick w) (map fst m)) = set (map fst m)" by (rule mset_eq_setD)
  moreover have "k \<in> set (map fst m)" using map_of_SomeD [OF assms(3)] by force
  ultimately show ?thesis using assms(1,3) by (force simp: rangeMap_def act_def map_filter_def)
qed

text \<open>The full names that an exporter registers.\<close>

definition described :: "Exporter \<Rightarrow> string set" where
  "described e = fq_name (Namespace (options e)) `
     (set catalogue_names \<union> ran (map_of (metricMapGauges e)) \<union> ran (map_of (metricMapCounters e)) \<union> set own_names \<union>
      (if RedisMetricsOnly (options e) then {} else {''exporter_build_info''}))"

lemma Describe_names:
  assumes "Describe env e (catalogue_descs (Namespace (options e))) w = Fine (ds, w')"
  shows "desc_fq ` set ds \<subseteq> described e"
    and "ranges_all env \<Longrightarrow> n \<in> described e \<Longrightarrow> n \<in> desc_fq ` set ds \<or>
      \<not> RedisMetricsOnly (options e) \<and> n = desc_fq (build_desc (Namespace (options e)))"
proof -
  let ?ns = "Namespace (options e)" and ?f = "\<lambda>(_, v). newMetricDescr (Namespace (options e)) v (v @ '' metric'') []"
  from assms obtain cs gs ks w1 w2 w3 where cs: "rangeMap env (catalogue_descs ?ns) w = Fine (cs, w1)"
    and gs: "rangeMap env (metricMapGauges e) w1 = Fine (gs, w2)"
    and ks: "rangeMap env (metricMapCounters e) w2 = Fine (ks, w3)"
    and ds: "ds = map snd cs @ map ?f gs @ map ?f ks @ own_descs ?ns"
    by (auto simp: Describe_def Let_def bnd_Fine ret_def)
  have named: "desc_fq (?f (k, v)) = fq_name ?ns v" for k v by (simp add: desc_fq_def newMetricDescr_def)
  have own: "desc_fq ` set (own_descs ?ns) = fq_name ?ns ` set own_names"
    by (simp add: own_descs_def own_names_def desc_fq_def newMetricDescr_def)
  have entry: "desc_fq d = fq_name ?ns k \<and> k \<in> set catalogue_names" if "map_of (catalogue_descs ?ns) k = Some d" for k d
  proof -
    from catalogue_desc [OF that] obtain hlp ls where "d = Desc ?ns k hlp ls" "(k, hlp, ls) \<in> set catalogue" by blast
    moreover have "fst (k, hlp, ls) \<in> set (map fst catalogue)" using calculation(2) unfolding set_map by (rule imageI)
    ultimately show ?thesis by (simp add: desc_fq_def catalogue_names_def del: set_map)
  qed
  have cat: "desc_fq (snd p) \<in> described e" if "p \<in> set cs" for p
  proof -
    obtain k d where p: "p = (k, d)" by (cases p)
    have "map_of (catalogue_descs ?ns) k = Some d" using rangeMap_entries [OF cs] that p by blast
    from entry [OF this] show ?thesis by (auto simp: p described_def)
  qed
  have field: "desc_fq (?f p) \<in> described e" if "p \<in> set gs \<union> set ks" for p
  proof -
    obtain k v where p: "p = (k, v)" by (cases p)
    have "map_of (metricMapGauges e) k = Some v \<or> map_of (metricMapCounters e) k = Some v"
      using that rangeMap_entries [OF gs] rangeMap_entries [OF ks] unfolding p by blast
    then have "v \<in> ran (map_of (metricMapGauges e)) \<union> ran (map_of (metricMapCounters e))" by (auto intro: ranI)
    then show ?thesis unfolding p named by (auto simp: described_def)
  qed
  have "desc_fq ` set (own_descs ?ns) \<subseteq> described e" unfolding own described_def by blast
  with cat field show "desc_fq ` set ds \<subseteq> described e" unfolding ds by auto
  show "n \<in> desc_fq ` set ds \<or> \<not> RedisMetricsOnly (options e) \<and> n = desc_fq (build_desc ?ns)"
    if all: "ranges_all env" and "n \<in> described e"
  proof -
    from that(2) consider k where "k \<in> set catalogue_names" "n = fq_name ?ns k"
      | k v where "map_of (metricMapGauges e) k = Some v \<or> map_of (metricMapCounters e) k = Some v" "n = fq_name ?ns v"
      | "n \<in> fq_name ?ns ` set own_names"
      | "\<not> RedisMetricsOnly (options e)" "n = fq_name ?ns ''exporter_build_info''"
      unfolding described_def ran_def by (auto split: if_splits)
    then show ?thesis
    proof cases
      case (1 k)
      then have "k \<in> fst ` set (catalogue_descs ?ns)" by (force simp: catalogue_names_def catalogue_descs_def)
      then obtain d where d: "map_of (catalogue_descs ?ns) k = Some d"
        by (cases "map_of (catalogue_descs ?ns) k") (auto simp: map_of_eq_None_iff)
      then have "(k, d) \<in> set cs" using rangeMap_all [OF cs all] by blast
      then have "snd (k, d) \<in> set ds" unfolding ds set_append set_map by blast
      then have "desc_fq d \<in> desc_fq ` set ds" by simp
      with entry [OF d] 1 show ?thesis by simp
    next
      case (2 k v)
      then have "(k, v) \<in> set gs \<union> set ks" using rangeMap_all [OF gs all] rangeMap_all [OF ks all] by blast
      then have "?f (k, v) \<in> ?f ` (set gs \<union> set ks)" by (rule imageI)
      then have "?f (k, v) \<in> set ds" unfolding ds by (simp only: set_append set_map) blast
      then have "desc_fq (?f (k, v)) \<in> desc_fq ` set ds" by (rule imageI)
      then show ?thesis unfolding named 2(2) ..
    next
      case 3
      then show ?thesis unfolding ds set_append image_Un own by blast
    next
      case 4
      then show ?thesis by (simp add: build_desc_def desc_fq_def newMetricDescr_def)
    qed
  qed
qed

lemma build_registrable: "ns = [] \<or> valid_name ns \<Longrightarrow> registrable [build_desc ns]"
proof -
  assume ns: "ns = [] \<or> valid_name ns"
  have "valid_name ''exporter_build_info''" "list_all valid_label [''version'', ''commit_sha'', ''build_date'', ''golang_version'']"
    by code_simp+
  with fq_name_valid [OF ns] show ?thesis
    by (simp add: registrable_def build_desc_def newMetricDescr_def desc_fq_def)
qed

lemma build_fresh:
  assumes "set ds \<subseteq> new_descs ns" and "ns = [] \<or> valid_name ns"
  shows "desc_fq (build_desc ns) \<notin> desc_fq ` set ds"
proof
  assume "desc_fq (build_desc ns) \<in> desc_fq ` set ds"
  then obtain d where d: "d \<in> set ds" and "desc_fq (build_desc ns) = desc_fq d" by blast
  with assms(1) new_desc_valid [OF _ assms(2), of d]
  have "fq_name ns ''exporter_build_info'' = fq_name ns (desc_name d)"
    by (auto simp: desc_fq_def build_desc_def newMetricDescr_def)
  then have name: "desc_name d = ''exporter_build_info''" using fq_name_inject by metis
  have not: "\<not> catalogue_prefix ''exporter_build_info''" "''exporter_build_info'' \<notin> set own_names"
    "\<not> field_prefix ''exporter_build_info''"
    by (simp_all add: catalogue_prefix_def field_prefix_def own_names_def has_prefix_def)
  from d assms(1) consider (c) k where "map_of (catalogue_descs ns) k = Some d"
    | (f) v where "v \<in> set field_names" "d = newMetricDescr ns v (v @ '' metric'') []"
    | (o) "d \<in> set (own_descs ns)"
    by (auto simp: new_descs_def)
  then show False
  proof cases
    case (c k)
    with catalogue_desc obtain hlp ls where "d = Desc ns k hlp ls" "(k, hlp, ls) \<in> set catalogue" by blast
    with catalogue_entry name not show False by simp
  next
    case (f v)
    with name fields_prefixed not show False by (simp add: newMetricDescr_def list_all_iff)
  next
    case o
    with own_desc name not show False by metis
  qed
qed


section \<open>Routes\<close>

lemma fixed_routes_plain: "list_all plain_path fixed_routes" and fixed_routes_distinct: "distinct fixed_routes"
  by code_simp+

lemma addRoutes_append: "addRoutes env mux (ps @ qs) = bnd (addRoutes env mux ps) (\<lambda>mux'. addRoutes env mux' qs)"
  by (induction env mux ps rule: addRoutes.induct)
    (auto simp: prog_defs fun_eq_iff split: option.splits)

lemma addRoutes_run:
  assumes "list_all plain_path added" and "list_all plain_path ps"
  shows "if distinct ps \<and> set ps \<inter> set added = {}
    then addRoutes env (mux_patterns (unicode_name env) added) ps w = Fine (mux_patterns (unicode_name env) (added @ ps), w)
    else \<exists>msg. addRoutes env (mux_patterns (unicode_name env) added) ps w = Panic msg"
  using assms
proof (induction ps arbitrary: added)
  case Nil
  then show ?case by (simp add: ret_def)
next
  case (Cons p ps)
  from Cons.prems have plain: "plain_path p" "list_all plain_path ps" by simp_all
  note add = add_plain_path [OF Cons.prems(1) plain(1), of "unicode_name env"]
  show ?case
  proof (cases "p \<in> set added")
    case True
    with add show ?thesis by (auto simp: panic_def)
  next
    case False
    with add have step: "addRoutes env (mux_patterns (unicode_name env) added) (p # ps) w =
        addRoutes env (mux_patterns (unicode_name env) (added @ [p])) ps w" by simp
    from Cons.prems have "list_all plain_path (added @ [p])" by simp
    from Cons.IH [OF this plain(2)] False show ?thesis unfolding step by (auto split: if_splits)
  qed
qed

lemma constructor_routes:
  assumes "plain_path mp"
  shows "if mp \<notin> set fixed_routes
    then addRoutes env [] (mp # fixed_routes) w = Fine (mux_patterns (unicode_name env) (mp # fixed_routes), w)
    else \<exists>msg. addRoutes env [] (mp # fixed_routes) w = Panic msg"
proof -
  have "list_all plain_path (mp # fixed_routes)" using assms fixed_routes_plain by simp
  have none: "mux_patterns (unicode_name env) [] = []" by (simp add: mux_patterns_def map_filter_simps)
  have "list_all plain_path []" by simp
  from addRoutes_run [OF this \<open>list_all plain_path (mp # fixed_routes)\<close>, of env w] fixed_routes_distinct
  show ?thesis unfolding none by (simp del: addRoutes.simps)
qed

lemma no_slash_routes: "CHR ''/'' \<notin> set mp \<Longrightarrow> \<exists>msg. addRoutes env [] (mp # fixed_routes) w = Panic msg"
  by (simp add: add_without_slash panic_def)

definition routes :: "Exporter \<Rightarrow> string list" where
  "routes e = MetricsPath (options e) # fixed_routes"

section \<open>The constructor\<close>

lemma metrics_path_plain:
  "MetricsPath opts = [] \<or> plain_path (MetricsPath opts) \<Longrightarrow> plain_path (MetricsPath (options (make_exporter uri opts build)))"
proof -
  have "plain_path ''/metrics''" by code_simp
  then show "MetricsPath opts = [] \<or> plain_path (MetricsPath opts) \<Longrightarrow> ?thesis" by (auto simp: make_exporter_def)
qed

lemma ret_bnd: "bnd (ret a) f = f a"
  by (simp add: bnd_def ret_def)

lemma panic_bnd: "bnd (panic e) f = panic e"
  by (simp add: bnd_def panic_def)

lemma bnd_panics:
  "(\<exists>a. m w = Fine (a, w)) \<or> (\<exists>msg. m w = Panic msg) \<Longrightarrow> \<exists>msg. bnd m (\<lambda>_. panic err) w = Panic msg"
  by (auto simp: bnd_def panic_def)

lemma bnd_at: "m w = Fine (a, w') \<Longrightarrow> bnd m f w = f a w'"
  by (simp add: bnd_def)

lemma addRoutes_ends: "(\<exists>mux'. addRoutes env mux ps w = Fine (mux', w)) \<or> (\<exists>msg. addRoutes env mux ps w = Panic msg)"
  by (induction env mux ps rule: addRoutes.induct) (auto simp: ret_def panic_def split: option.splits)

text \<open>The constructor after the arguments are checked: what it registers, and how it goes on.\<close>

lemma constructor_steps:
  fixes uri opts build
  defines "e \<equiv> make_exporter uri opts build"
  assumes "checkArguments (key_arguments opts) = None"
  shows "\<exists>ds. set ds \<subseteq> new_descs (Namespace (options e)) \<and> desc_fq ` set ds \<subseteq> described e \<and>
    (ranges_all env \<longrightarrow> described e \<subseteq> desc_fq ` set ds \<union>
      (if RedisMetricsOnly (options e) then {} else {desc_fq (build_desc (Namespace (options e)))})) \<and>
    NewRedisExporter env reg uri opts build w =
      andthen (registerAndRoute env reg e ds) (ret (Inr e)) (w\<lparr>descs := initial_descs e, tick := tick w + 3\<rparr>)"
proof -
  let ?ns = "Namespace (options e)" and ?w = "w\<lparr>descs := map_of (catalogue_descs (Namespace (options e)))\<rparr>"
  have ns: "Namespace opts = ?ns" by (simp add: e_def make_exporter_def)
  obtain ds where d: "Describe env e (catalogue_descs ?ns) ?w = Fine (ds, ?w\<lparr>tick := tick ?w + 3\<rparr>)"
    and new: "set ds \<subseteq> new_descs ?ns"
    unfolding e_def using Describe_run [OF exporter_fields] by blast
  have w: "?w\<lparr>tick := tick ?w + 3\<rparr> = w\<lparr>descs := initial_descs e, tick := tick w + 3\<rparr>"
    by (simp add: initial_descs_def catalogue_descs_def)
  have first: "andthen (modify f) m w = m (f w)" for f and m :: "('a, 'b) io" by (simp add: andthen_def bnd_def modify_def)
  have second: "bnd m f ?w = f ds (?w\<lparr>tick := tick ?w + 3\<rparr>)" if "m = Describe env e (catalogue_descs ?ns)" for m and f :: "desc list \<Rightarrow> ('a, 'b) io"
    unfolding that by (simp only: bnd_def d outcome.case prod.case)
  have run: "NewRedisExporter env reg uri opts build w =
      andthen (registerAndRoute env reg e ds) (ret (Inr e)) (w\<lparr>descs := initial_descs e, tick := tick w + 3\<rparr>)"
    unfolding NewRedisExporter_def assms(2) Let_def e_def [symmetric] ns option.case first second [OF refl] w by (rule refl)
  have "described e \<subseteq> desc_fq ` set ds \<union> (if RedisMetricsOnly (options e) then {} else {desc_fq (build_desc ?ns)})"
    if "ranges_all env"
    using Describe_names(2) [OF d that] by auto
  with new Describe_names(1) [OF d] run show ?thesis by blast
qed

text \<open>Registration in a registry that has none of the names.\<close>

lemma registerAndRoute_run:
  assumes "prom_registers env" and "set ds \<subseteq> new_descs (Namespace (options e))" and "desc_fq ` set ds \<subseteq> described e"
    and "Namespace (options e) = [] \<or> valid_name (Namespace (options e))" and "desc_fq ` set reg \<inter> described e = {}"
  shows "registerAndRoute env reg e ds w = bnd (addRoutes env [] (routes e)) (\<lambda>_. skip) w"
proof -
  let ?build = "build_desc (Namespace (options e))"
  have "\<not> taken reg ds" using assms(3,5) by (auto simp: taken_def)
  with new_descs_registrable [OF assms(2,4)] have first: "mustRegister env reg ds = ret (reg @ ds)"
    using assms(1) by (simp add: prom_registers_def mustRegister_def)
  have second: "mustRegister env (reg @ ds) [?build] = ret ((reg @ ds) @ [?build])" if "\<not> RedisMetricsOnly (options e)"
  proof -
    have "desc_fq ?build \<in> described e" using that by (simp add: described_def build_desc_def newMetricDescr_def desc_fq_def)
    then have "\<not> taken (reg @ ds) [?build]" using assms(5) build_fresh [OF assms(2,4)] by (auto simp: taken_def)
    with build_registrable [OF assms(4)] assms(1) show ?thesis by (simp add: prom_registers_def mustRegister_def)
  qed
  obtain r where build: "(if RedisMetricsOnly (options e) then ret (reg @ ds) else mustRegister env (reg @ ds) [?build]) =
      (ret r :: ('a, desc list) io)"
    using second by (cases "RedisMetricsOnly (options e)") auto
  have "registerAndRoute env reg e ds w =
      bnd (addRoutes env [] [MetricsPath (options e)]) (\<lambda>mux. bnd (addRoutes env mux fixed_routes) (\<lambda>_. skip)) w"
    unfolding registerAndRoute_def first ret_bnd build ..
  also have "\<dots> = bnd (addRoutes env [] (routes e)) (\<lambda>_. skip) w"
    using addRoutes_append [of env "[]" "[MetricsPath (options e)]" fixed_routes]
    by (simp add: routes_def bnd_def del: addRoutes.simps split: outcome.split)
  finally show ?thesis .
qed

text \<open>A registry that has one of the names.\<close>

lemma registerAndRoute_refused:
  assumes "prom_refuses env" and "n \<in> desc_fq ` set reg"
    and "n \<in> desc_fq ` set ds \<or> \<not> RedisMetricsOnly (options e) \<and> n = desc_fq (build_desc (Namespace (options e)))"
  shows "\<exists>msg. registerAndRoute env reg e ds w = Panic msg"
proof (cases "n \<in> desc_fq ` set ds")
  case True
  then obtain d where "d \<in> set ds" "n = desc_fq d" by blast
  with assms(2) have "desc_fq d \<in> desc_fq ` set reg" by simp
  with \<open>d \<in> set ds\<close> have "taken reg ds" unfolding taken_def by (rule bexI [rotated])
  with assms(1) obtain err where "register_error env reg ds = Some err" by (auto simp: prom_refuses_def)
  then show ?thesis by (simp add: registerAndRoute_def mustRegister_def bnd_def panic_def)
next
  case False
  let ?build = "build_desc (Namespace (options e))"
  from False assms(3) have build: "\<not> RedisMetricsOnly (options e)" "n = desc_fq ?build" by blast+
  have "taken (reg @ ds) [?build]" using assms(2) unfolding build(2) taken_def by (simp add: image_Un)
  with assms(1) obtain err where "register_error env (reg @ ds) [?build] = Some err" by (auto simp: prom_refuses_def)
  then have refused: "mustRegister env (reg @ ds) [?build] = panic err" by (simp add: mustRegister_def)
  consider msg where "mustRegister env reg ds w = Panic msg" | "mustRegister env reg ds w = Fine (reg @ ds, w)"
    by (cases "register_error env reg ds") (auto simp: mustRegister_def panic_def ret_def)
  then show ?thesis
  proof cases
    case 2
    have "registerAndRoute env reg e ds w = bnd (addRoutes env [] [MetricsPath (options e)]) (\<lambda>mux. panic err) w"
      unfolding registerAndRoute_def bnd_at [of "mustRegister env reg ds", OF 2] if_not_P [OF build(1)] refused panic_bnd
      by (rule refl)
    also have "\<exists>msg. \<dots> = Panic msg" by (rule bnd_panics [OF addRoutes_ends])
    finally show ?thesis .
  qed (simp add: registerAndRoute_def bnd_def)
qed

text \<open>A constructor that returns an exporter has added its routes, whatever the registry.\<close>

lemma register_world: "mustRegister env reg ds w = Fine (r, w') \<Longrightarrow> w' = w"
  by (simp add: mustRegister_def panic_def ret_def split: option.splits)

lemma routes_world: "addRoutes env mux ps w = Fine (mux', w') \<Longrightarrow> w' = w"
  using addRoutes_ends [of env mux ps w] by auto

lemma registerAndRoute_Fine:
  assumes "registerAndRoute env reg e ds w = Fine (u, w')"
  shows "w' = w \<and> (\<exists>mux. addRoutes env [] (routes e) w = Fine (mux, w))"
proof -
  from assms [unfolded registerAndRoute_def bnd_Fine] obtain reg' w1 mux w2 reg'' w3 mux' w4 where
    steps: "mustRegister env reg ds w = Fine (reg', w1)" "addRoutes env [] [MetricsPath (options e)] w1 = Fine (mux, w2)"
      "(if RedisMetricsOnly (options e) then ret reg'
        else mustRegister env reg' [build_desc (Namespace (options e))]) w2 = Fine (reg'', w3)"
      "addRoutes env mux fixed_routes w3 = Fine (mux', w4)"
    and last: "skip w4 = Fine (u, w')" by blast
  have "w3 = w2"
    using steps(3) register_world by (cases "RedisMetricsOnly (options e)") (auto simp: ret_def)
  then have same: "w1 = w" "w2 = w" "w3 = w" "w4 = w"
    using register_world [OF steps(1)] routes_world [OF steps(2)] routes_world [OF steps(4)] by simp_all
  have "addRoutes env [] (routes e) w = Fine (mux', w)"
    unfolding routes_def addRoutes_append [of env "[]" "[MetricsPath (options e)]" fixed_routes, simplified append_Cons append_Nil]
    unfolding bnd_def using steps(2,4) unfolding same by (simp del: addRoutes.simps)
  with last same show ?thesis by (auto simp: skip_def ret_def)
qed

lemma constructor_Fine:
  assumes "NewRedisExporter env reg uri opts build w = Fine (Inr e, w')"
  shows "checkArguments (key_arguments opts) = None \<and> e = make_exporter uri opts build \<and>
    w' = w\<lparr>descs := initial_descs e, tick := tick w + 3\<rparr> \<and> (\<exists>mux. addRoutes env [] (routes e) w' = Fine (mux, w'))"
proof -
  let ?e = "make_exporter uri opts build"
  have args: "checkArguments (key_arguments opts) = None"
    using assms by (cases "checkArguments (key_arguments opts)") (auto simp: NewRedisExporter_def ret_def)
  let ?w = "w\<lparr>descs := initial_descs ?e, tick := tick w + 3\<rparr>"
  from constructor_steps [OF args, of uri build env reg w] obtain ds where run: "NewRedisExporter env reg uri opts build w =
      andthen (registerAndRoute env reg ?e ds) (ret (Inr ?e)) ?w" by blast
  from assms have "\<exists>u w1. registerAndRoute env reg ?e ds ?w = Fine (u, w1) \<and> ret (Inr ?e :: Exporter goresult) w1 = Fine (Inr e, w')"
    unfolding run andthen_def bnd_Fine .
  then obtain u w1 where r: "registerAndRoute env reg ?e ds ?w = Fine (u, w1)" and last: "ret (Inr ?e :: Exporter goresult) w1 = Fine (Inr e, w')"
    by (elim exE conjE)
  from last have "e = ?e" "w' = w1" by (simp_all add: ret_def)
  with args registerAndRoute_Fine [OF r] show ?thesis by simp
qed

lemma constructor_run:
  fixes uri opts build
  defines "e \<equiv> make_exporter uri opts build"
  assumes "prom_registers env" and "checkArguments (key_arguments opts) = None"
    and "Namespace opts = [] \<or> valid_name (Namespace opts)" and "desc_fq ` set reg \<inter> described e = {}"
  shows "NewRedisExporter env reg uri opts build w =
    bnd (addRoutes env [] (routes e)) (\<lambda>_. ret (Inr e)) (w\<lparr>descs := initial_descs e, tick := tick w + 3\<rparr>)"
proof -
  have ns: "Namespace (options e) = [] \<or> valid_name (Namespace (options e))"
    using assms(4) by (simp add: e_def make_exporter_def)
  let ?w = "w\<lparr>descs := initial_descs e, tick := tick w + 3\<rparr>"
  obtain ds where ds: "set ds \<subseteq> new_descs (Namespace (options e))" "desc_fq ` set ds \<subseteq> described e"
    and run: "NewRedisExporter env reg uri opts build w = andthen (registerAndRoute env reg e ds) (ret (Inr e)) ?w"
    unfolding e_def using constructor_steps [OF assms(3), of uri build env reg w] by blast
  note registerAndRoute_run [OF assms(2) ds ns assms(5), of ?w]
  then have "NewRedisExporter env reg uri opts build w =
      andthen (bnd (addRoutes env [] (routes e)) (\<lambda>_. skip)) (ret (Inr e)) ?w"
    unfolding run andthen_def by (simp add: bnd_def)
  then show ?thesis by (simp add: andthen_def bnd_def skip_def ret_def split: outcome.split)
qed

lemma own_routes:
  assumes "MetricsPath opts = [] \<or> plain_path (MetricsPath opts) \<or> CHR ''/'' \<notin> set (MetricsPath opts)"
  shows "if MetricsPath opts \<in> set fixed_routes \<or> MetricsPath opts \<noteq> [] \<and> CHR ''/'' \<notin> set (MetricsPath opts)
    then \<exists>msg. addRoutes env [] (routes (make_exporter uri opts build)) w = Panic msg
    else \<exists>mux. addRoutes env [] (routes (make_exporter uri opts build)) w = Fine (mux, w)"
proof -
  let ?mp = "MetricsPath (options (make_exporter uri opts build))"
  have mp: "?mp = (if MetricsPath opts = [] then ''/metrics'' else MetricsPath opts)"
    by (simp add: make_exporter_def)
  show ?thesis
  proof (cases "MetricsPath opts \<noteq> [] \<and> CHR ''/'' \<notin> set (MetricsPath opts)")
    case True
    then show ?thesis using no_slash_routes [of ?mp env w] by (simp add: mp routes_def del: addRoutes.simps)
  next
    case False
    with assms have "plain_path ?mp" using metrics_path_plain [of opts uri build] by auto
    moreover have "MetricsPath opts \<in> set fixed_routes \<longleftrightarrow> ?mp \<in> set fixed_routes" by (auto simp: mp fixed_routes_def)
    ultimately show ?thesis
      using constructor_routes [of ?mp env w] False
      unfolding routes_def [of "make_exporter uri opts build"]
      by (auto simp del: addRoutes.simps split: if_splits)
  qed
qed

text \<open>C10: with key arguments that can be parsed and a valid namespace, the constructor makes the exporter,
  its defaults filled in and the descriptions of the catalogue stored, unless
  \<^item> the metrics path is one of those the exporter serves itself, or has no slash: then the process ends
    while the routes are added;
  \<^item> the registry it is given has a metric with one of the exporter's full names: then the process ends while
    the exporter, or its build information, is registered.
  Nothing else makes it fail: no two of the exporter's own descriptions clash. A metrics path with a slash
  has to be plain, and \<open>registered\<close> stands for the registry's contents.\<close>

theorem constructor_result:
  assumes "prom_registers env" and "prom_refuses env" and "ranges_all env"
    and "checkArguments (key_arguments opts) = None"
    and "Namespace opts = [] \<or> valid_name (Namespace opts)"
    and "MetricsPath opts = [] \<or> plain_path (MetricsPath opts) \<or> CHR ''/'' \<notin> set (MetricsPath opts)"
  shows "if MetricsPath opts \<in> {''/'', ''/scrape'', ''/discover-cluster-nodes'', ''/health'', ''/-/reload''} \<or>
      MetricsPath opts \<noteq> [] \<and> CHR ''/'' \<notin> set (MetricsPath opts) \<or>
      desc_fq ` set registered \<inter> described (make_exporter uri opts build) \<noteq> {}
    then \<exists>msg. NewRedisExporter env registered uri opts build w = Panic msg
    else NewRedisExporter env registered uri opts build w =
      Fine (Inr (make_exporter uri opts build),
        w\<lparr>descs := initial_descs (make_exporter uri opts build), tick := tick w + 3\<rparr>)"
proof -
  let ?e = "make_exporter uri opts build"
  let ?w = "w\<lparr>descs := initial_descs ?e, tick := tick w + 3\<rparr>"
  have fixed: "{''/'', ''/scrape'', ''/discover-cluster-nodes'', ''/health'', ''/-/reload''} = set fixed_routes"
    by (simp add: fixed_routes_def)
  show ?thesis
  proof (cases "desc_fq ` set registered \<inter> described ?e = {}")
    case True
    note run = constructor_run [OF assms(1,4,5) True, of w]
    show ?thesis
      using own_routes [OF assms(6), of env uri build ?w] True
      unfolding run fixed bnd_def by (auto simp: ret_def simp del: addRoutes.simps split: if_splits)
  next
    case False
    then obtain n where n: "n \<in> desc_fq ` set registered" "n \<in> described ?e" by blast
    obtain ds where ds: "ranges_all env \<longrightarrow> described ?e \<subseteq> desc_fq ` set ds \<union>
        (if RedisMetricsOnly (options ?e) then {} else {desc_fq (build_desc (Namespace (options ?e)))})"
      and run: "NewRedisExporter env registered uri opts build w = andthen (registerAndRoute env registered ?e ds) (ret (Inr ?e)) ?w"
      using constructor_steps [OF assms(4), of uri build env registered w] by blast
    from ds [THEN mp, OF assms(3)] n(2) have "n \<in> desc_fq ` set ds \<or>
        \<not> RedisMetricsOnly (options ?e) \<and> n = desc_fq (build_desc (Namespace (options ?e)))"
      by (auto split: if_splits)
    from registerAndRoute_refused [OF assms(2) n(1) this, of ?w]
    obtain msg where "registerAndRoute env registered ?e ds ?w = Panic msg" by blast
    with False show ?thesis unfolding run by (simp add: andthen_def bnd_def)
  qed
qed

lemma demo_registers: "prom_registers demo_env" "prom_refuses demo_env"
  by (auto simp: prom_registers_def prom_refuses_def taken_def demo_register_def list_ex_iff)

lemma process_free:
  assumes "Namespace (options e) = ''redis''"
  shows "desc_fq ` set (demo_outside ProcessCollector) \<inter> described e = {}"
proof -
  have "desc_fq d \<notin> described e" if "d \<in> set (demo_outside ProcessCollector)" for d
  proof
    assume "desc_fq d \<in> described e"
    with assms have "hd (desc_fq d) = CHR ''r''" by (auto simp: described_def fq_name_def)
    with that show False by (auto simp: desc_fq_def fq_name_def)
  qed
  then show ?thesis by blast
qed

text \<open>The process collector is in the registry that \<open>main\<close> makes.\<close>

theorem constructor_result_witness:
  "(\<exists>w. NewRedisExporter demo_env (demo_outside ProcessCollector) ''valkey://localhost:6379'' demo_options (buildInfo demo_exporter)
     (start_world demo_exporter []) = Fine (Inr demo_exporter, w)) \<and>
   (\<exists>msg. NewRedisExporter demo_env (demo_outside ProcessCollector) ''redis://localhost''
     (demo_options\<lparr>Namespace := ''process''\<rparr>) (buildInfo demo_exporter) (start_world demo_exporter []) = Panic msg) \<and>
   (\<exists>msg. NewRedisExporter demo_env [] ''redis://localhost'' (demo_options\<lparr>MetricsPath := ''/health''\<rparr>) (buildInfo demo_exporter)
     (start_world demo_exporter []) = Panic msg) \<and>
   (\<exists>msg. NewRedisExporter demo_env [] ''redis://localhost'' (demo_options\<lparr>MetricsPath := ''metrics''\<rparr>) (buildInfo demo_exporter)
     (start_world demo_exporter []) = Panic msg)"
proof (intro conjI)
  let ?process = "demo_options\<lparr>Namespace := ''process''\<rparr>"
  have args: "checkArguments (key_arguments demo_options) = None"
    "checkArguments (key_arguments ?process) = None"
    "checkArguments (key_arguments (demo_options\<lparr>MetricsPath := ''/health''\<rparr>)) = None"
    "checkArguments (key_arguments (demo_options\<lparr>MetricsPath := ''metrics''\<rparr>)) = None" by code_simp+
  have ns: "valid_name (Namespace demo_options)" "valid_name ''process''"
    "plain_path (MetricsPath demo_options)" "plain_path ''/health''" by code_simp+
  have ranges: "ranges_all demo_env" by simp
  note result = constructor_result [OF demo_registers ranges]
  have e: "make_exporter ''valkey://localhost:6379'' demo_options (buildInfo demo_exporter) = demo_exporter"
    by (simp add: make_exporter_def demo_exporter_def demo_options_def redis_uri_def has_prefix_def replace_first_def)
  have opts: "MetricsPath demo_options = ''/metrics''" "Namespace demo_options = ''redis''"
    by (simp_all add: demo_options_def)
  have free: "desc_fq ` set (demo_outside ProcessCollector) \<inter> described demo_exporter = {}"
    by (rule process_free) (simp add: demo_exporter_def demo_options_def)
  show "\<exists>w. NewRedisExporter demo_env (demo_outside ProcessCollector) ''valkey://localhost:6379'' demo_options
      (buildInfo demo_exporter) (start_world demo_exporter []) = Fine (Inr demo_exporter, w)"
    using result [OF args(1), of "demo_outside ProcessCollector" "''valkey://localhost:6379''" "buildInfo demo_exporter"] ns free
    unfolding e by (simp add: opts)
  have "''start_time_seconds'' \<in> set catalogue_names"
    by (simp add: catalogue_names_def catalogue_def names_parts)
  then have "fq_name ''process'' ''start_time_seconds'' \<in> described (make_exporter ''redis://localhost'' ?process (buildInfo demo_exporter))"
    by (simp add: described_def make_exporter_def)
  then have taken: "desc_fq (demo_outside ProcessCollector ! 1) \<in>
      described (make_exporter ''redis://localhost'' ?process (buildInfo demo_exporter))"
    by (simp add: desc_fq_def fq_name_def)
  have clash: "desc_fq ` set (demo_outside ProcessCollector) \<inter>
      described (make_exporter ''redis://localhost'' ?process (buildInfo demo_exporter)) \<noteq> {}"
  proof -
    have "demo_outside ProcessCollector ! 1 \<in> set (demo_outside ProcessCollector)" by simp
    then have "desc_fq (demo_outside ProcessCollector ! 1) \<in> desc_fq ` set (demo_outside ProcessCollector)" by (rule imageI)
    with taken show ?thesis by blast
  qed
  show "\<exists>msg. NewRedisExporter demo_env (demo_outside ProcessCollector) ''redis://localhost''
     ?process (buildInfo demo_exporter) (start_world demo_exporter []) = Panic msg"
    using result [OF args(2), of "demo_outside ProcessCollector" "''redis://localhost''" "buildInfo demo_exporter"] ns clash
    by (simp add: opts del: demo_outside.simps)
  show "\<exists>msg. NewRedisExporter demo_env [] ''redis://localhost'' (demo_options\<lparr>MetricsPath := ''/health''\<rparr>) (buildInfo demo_exporter)
     (start_world demo_exporter []) = Panic msg"
    using result [OF args(3), of "[]" "''redis://localhost''" "buildInfo demo_exporter" "start_world demo_exporter []"] ns
    by (simp add: opts)
  show "\<exists>msg. NewRedisExporter demo_env [] ''redis://localhost'' (demo_options\<lparr>MetricsPath := ''metrics''\<rparr>) (buildInfo demo_exporter)
     (start_world demo_exporter []) = Panic msg"
    using result [OF args(4), of "[]" "''redis://localhost''" "buildInfo demo_exporter" "start_world demo_exporter []"] ns
    by (simp add: opts)
qed

end
