(* ===== verification/GoHttp.thy ===== *)
theory GoHttp
  imports GoUrl
begin

text \<open>
  The part of Go's \<open>net/http\<close> and \<open>net/url\<close> that the handlers use to read a request: the values of a
  query string (\<open>URL.Query\<close>, \<open>Values.Get\<close>) and the credentials of basic authentication
  (\<open>Request.BasicAuth\<close>, with \<open>base64.StdEncoding\<close>).
\<close>

section \<open>Query strings\<close>

definition query_unescape :: "string \<Rightarrow> string option" where
  "query_unescape s = url_unescape EncodeUserPassword (map (\<lambda>c. if c = CHR ''+'' then CHR '' '' else c) s)"

definition query_pair :: "string \<Rightarrow> (string \<times> string) option" where
  "query_pair part =
     (if CHR '';'' \<in> set part \<or> part = [] then None
      else case cut_or_all part CHR ''='' of
          (k, v) \<Rightarrow>
            (case (query_unescape k, query_unescape v) of
               (Some k', Some v') \<Rightarrow> Some (k', v')
             | _ \<Rightarrow> None))"

text \<open>The pairs in the order in which they are written; what cannot be read is left out.\<close>

definition parse_query :: "string \<Rightarrow> (string \<times> string) list" where
  "parse_query s = List.map_filter query_pair (go_split s ''&'')"

definition query_get :: "string \<Rightarrow> string \<Rightarrow> string" where
  "query_get rawQuery key = (case map_of (parse_query rawQuery) key of None \<Rightarrow> [] | Some v \<Rightarrow> v)"

section \<open>Base 64\<close>

definition base64_chars :: string where
  "base64_chars = ''ABCDEFGHIJKLMNOPQRSTUVWXYZabcdefghijklmnopqrstuvwxyz0123456789+/''"

definition base64_char :: "int \<Rightarrow> char" where
  "base64_char n = base64_chars ! nat n"

definition base64_value :: "char \<Rightarrow> int option" where
  "base64_value c =
     (if c \<in> set base64_chars then Some (int (length (takeWhile (\<lambda>d. d \<noteq> c) base64_chars))) else None)"

text \<open>Four characters are three bytes; the last group may end in one or two \<open>=\<close>, which stand for
  missing bytes (the bits that are left over are ignored).\<close>

definition byte_char :: "int \<Rightarrow> char" where
  "byte_char n = char_of (n mod 256)"

fun base64_groups :: "string \<Rightarrow> string option" where
  "base64_groups [] = Some []"
| "base64_groups (a # b # c # d # rest) =
     (case (base64_value a, base64_value b) of
        (Some x, Some y) \<Rightarrow>
          (case (base64_value c, base64_value d) of
             (Some z, Some u) \<Rightarrow>
               map_option (\<lambda>r. byte_char (x * 4 + y div 16) # byte_char (y * 16 + z div 4) # byte_char (z * 64 + u) # r)
                 (base64_groups rest)
           | (Some z, None) \<Rightarrow>
               if d = CHR ''='' \<and> rest = []
               then Some [byte_char (x * 4 + y div 16), byte_char (y * 16 + z div 4)] else None
           | (None, _) \<Rightarrow>
               if c = CHR ''='' \<and> d = CHR ''='' \<and> rest = [] then Some [byte_char (x * 4 + y div 16)] else None)
      | _ \<Rightarrow> None)"
| "base64_groups _ = None"

definition base64_decode :: "string \<Rightarrow> string option" where
  "base64_decode s = base64_groups (filter (\<lambda>c. c \<noteq> CHR 0x0A \<and> c \<noteq> CHR 0x0D) s)"

fun base64_encode :: "string \<Rightarrow> string" where
  "base64_encode [] = []"
| "base64_encode [a] =
     [base64_char (byte a div 4), base64_char (byte a mod 4 * 16), CHR ''='', CHR ''='']"
| "base64_encode [a, b] =
     [base64_char (byte a div 4), base64_char (byte a mod 4 * 16 + byte b div 16),
      base64_char (byte b mod 16 * 4), CHR ''='']"
| "base64_encode (a # b # c # rest) =
     base64_char (byte a div 4) # base64_char (byte a mod 4 * 16 + byte b div 16) #
     base64_char (byte b mod 16 * 4 + byte c div 64) # base64_char (byte c mod 64) # base64_encode rest"

section \<open>Basic authentication\<close>

definition basic_scheme :: string where "basic_scheme = ''Basic ''"

text \<open>The user and the password of an \<open>Authorization\<close> header (empty when there is none).\<close>

definition basic_auth :: "string \<Rightarrow> (string \<times> string) option" where
  "basic_auth header =
     (if map lower_char (take 6 header) \<noteq> map lower_char basic_scheme then None
      else (case base64_decode (drop 6 header) of
          None \<Rightarrow> None
        | Some s \<Rightarrow> if CHR '':'' \<in> set s then Some (cut_or_all s CHR '':'') else None))"

text \<open>The header a client sends.\<close>

definition basic_header :: "string \<Rightarrow> string \<Rightarrow> string" where
  "basic_header user pwd = basic_scheme @ base64_encode (user @ '':'' @ pwd)"

section \<open>Facts\<close>

lemma base64_value_char:
  assumes "0 \<le> n" and "n < 64"
  shows "base64_value (base64_char n) = Some n"
proof -
  have "\<forall>k \<in> set [0..<64]. base64_value (base64_char (int k)) = Some (int k)" by code_simp
  moreover have "nat n \<in> set [0..<64]" using assms by simp
  ultimately have "base64_value (base64_char (int (nat n))) = Some (int (nat n))" by (rule bspec)
  with assms(1) show ?thesis by simp
qed

lemma base64_chars_plain: "base64_char n \<noteq> CHR 0x0A \<and> base64_char n \<noteq> CHR 0x0D" if "0 \<le> n" "n < 64"
proof -
  have "base64_char n \<in> set base64_chars"
    unfolding base64_char_def using that by (intro nth_mem) (simp add: base64_chars_def)
  then show ?thesis by (auto simp: base64_chars_def)
qed

lemma base64_pad: "base64_value CHR ''='' = None"
  by code_simp

lemma byte_value_range: "0 \<le> byte c" "byte c < 256"
  using byte_range [of c] by simp_all

lemma byte_char_byte: "byte_char (byte c) = c"
  using byte_value_range [of c] by (simp add: byte_char_def byte_def)

text \<open>The pieces of the bytes fit together again.\<close>

lemma div_add_less: "0 \<le> y \<Longrightarrow> y < k \<Longrightarrow> (x * k + y) div k = (x::int)"
  by simp

lemma mod_add_less: "0 \<le> y \<Longrightarrow> y < k \<Longrightarrow> (x * k + y) mod k = (y::int)"
  by simp

lemma six_bits:
  assumes "0 \<le> a" "a < 256" "0 \<le> b" "b < 256" "0 \<le> c" "c < (256::int)"
  shows "a div 4 * 4 + (a mod 4 * 16 + b div 16) div 16 = a"
    and "((a mod 4 * 16 + b div 16) * 16 + (b mod 16 * 4 + c div 64) div 4) mod 256 = b"
    and "((b mod 16 * 4 + c div 64) * 64 + c mod 64) mod 256 = c"
    and "a div 4 * 4 + (a mod 4 * 16) div 16 = a"
    and "((a mod 4 * 16 + b div 16) * 16 + (b mod 16 * 4) div 4) mod 256 = b"
proof -
  have b: "0 \<le> b div 16" "b div 16 < 16" and c: "0 \<le> c div 64" "c div 64 < 4"
    using assms by presburger+
  have join: "(x * 16 + b div 16) * 16 + b mod 16 = x * 256 + b" for x
    using div_mult_mod_eq [of b 16] by (simp add: algebra_simps)
  have join3: "(x * 4 + c div 64) * 64 + c mod 64 = x * 256 + c" for x
    using div_mult_mod_eq [of c 64] by (simp add: algebra_simps)
  show "a div 4 * 4 + (a mod 4 * 16 + b div 16) div 16 = a"
    unfolding div_add_less [OF b] by simp
  show "((a mod 4 * 16 + b div 16) * 16 + (b mod 16 * 4 + c div 64) div 4) mod 256 = b"
    unfolding div_add_less [OF c] join by (rule mod_add_less [OF assms(3,4)])
  show "((b mod 16 * 4 + c div 64) * 64 + c mod 64) mod 256 = c"
    unfolding join3 by (rule mod_add_less [OF assms(5,6)])
  show "a div 4 * 4 + (a mod 4 * 16) div 16 = a"
    by simp
  show "((a mod 4 * 16 + b div 16) * 16 + (b mod 16 * 4) div 4) mod 256 = b"
    using mod_add_less [OF assms(3,4), of "a mod 4"] by (simp add: join)
qed

lemma six_range:
  assumes "0 \<le> a" "a < 256" "0 \<le> b" "b < 256" "0 \<le> c" "c < (256::int)"
  shows "0 \<le> a div 4" "a div 4 < 64" "0 \<le> a mod 4 * 16" "a mod 4 * 16 < 64"
    "0 \<le> a mod 4 * 16 + b div 16" "a mod 4 * 16 + b div 16 < 64"
    "0 \<le> b mod 16 * 4" "b mod 16 * 4 < 64"
    "0 \<le> b mod 16 * 4 + c div 64" "b mod 16 * 4 + c div 64 < 64" "0 \<le> c mod 64" "c mod 64 < 64"
  using assms by presburger+

lemma base64_groups_encode: "base64_groups (base64_encode s) = Some s"
proof (induction s rule: base64_encode.induct)
  case 1
  then show ?case by simp
next
  case (2 a)
  note r = byte_value_range [of a] byte_value_range [of a] byte_value_range [of a]
  have "byte_char (byte a div 4 * 4 + byte a mod 4 * 16 div 16) = a"
    unfolding six_bits(4) [OF r] by (rule byte_char_byte)
  then show ?case
    by (simp add: base64_value_char six_range [OF r] base64_pad)
next
  case (3 a b)
  note r = byte_value_range [of a] byte_value_range [of b] byte_value_range [of b]
  have 1: "byte_char (byte a div 4 * 4 + (byte a mod 4 * 16 + byte b div 16) div 16) = a"
    unfolding six_bits(1) [OF r] by (rule byte_char_byte)
  have 2: "byte_char ((byte a mod 4 * 16 + byte b div 16) * 16 + byte b mod 16 * 4 div 4) = b"
    unfolding byte_char_def six_bits(5) [OF r] by (simp add: byte_def)
  show ?case
    unfolding base64_encode.simps base64_groups.simps base64_value_char [OF six_range(1,2) [OF r]]
      base64_value_char [OF six_range(5,6) [OF r]] base64_value_char [OF six_range(7,8) [OF r]] base64_pad
    by (simp only: prod.case option.case 1 2 simp_thms if_True)
next
  case (4 a b c rest)
  note r = byte_value_range [of a] byte_value_range [of b] byte_value_range [of c]
  have 1: "byte_char (byte a div 4 * 4 + (byte a mod 4 * 16 + byte b div 16) div 16) = a"
    unfolding six_bits(1) [OF r] by (rule byte_char_byte)
  have 2: "byte_char ((byte a mod 4 * 16 + byte b div 16) * 16 + (byte b mod 16 * 4 + byte c div 64) div 4) = b"
    unfolding byte_char_def six_bits(2) [OF r] by (simp add: byte_def)
  have 3: "byte_char ((byte b mod 16 * 4 + byte c div 64) * 64 + byte c mod 64) = c"
    unfolding byte_char_def six_bits(3) [OF r] by (simp add: byte_def)
  show ?case
    unfolding base64_encode.simps base64_groups.simps base64_value_char [OF six_range(1,2) [OF r]]
      base64_value_char [OF six_range(5,6) [OF r]] base64_value_char [OF six_range(9,10) [OF r]]
      base64_value_char [OF six_range(11,12) [OF r]] 4
    by (simp only: prod.case option.case 1 2 3 option.map)
qed

lemma base64_encode_plain: "filter (\<lambda>c. c \<noteq> CHR 0x0A \<and> c \<noteq> CHR 0x0D) (base64_encode s) = base64_encode s"
proof (induction s rule: base64_encode.induct)
  case (2 a)
  note r = byte_value_range [of a] byte_value_range [of a] byte_value_range [of a]
  show ?case by (simp add: base64_chars_plain six_range [OF r])
next
  case (3 a b)
  note r = byte_value_range [of a] byte_value_range [of b] byte_value_range [of b]
  show ?case by (simp add: base64_chars_plain six_range [OF r])
next
  case (4 a b c rest)
  note r = byte_value_range [of a] byte_value_range [of b] byte_value_range [of c]
  show ?case by (simp add: base64_chars_plain six_range [OF r] 4)
qed simp

lemma basic_auth_header:
  assumes "CHR '':'' \<notin> set user"
  shows "basic_auth (basic_header user pwd) = Some (user, pwd)"
proof -
  have "base64_decode (base64_encode s) = Some s" for s
    by (simp add: base64_decode_def base64_encode_plain base64_groups_encode)
  moreover have "take 6 (basic_header user pwd) = basic_scheme"
    "drop 6 (basic_header user pwd) = base64_encode (user @ '':'' @ pwd)"
    by (simp_all add: basic_header_def basic_scheme_def)
  ultimately show ?thesis
    using assms by (simp add: basic_auth_def cut_or_all_found)
qed

end
