(* ===== verification/GoJson.thy ===== *)
theory GoJson
  imports GoStrings
begin

text \<open>
  The part of Go's \<open>encoding/json\<close> behind \<open>json.Unmarshal\<close> into a \<open>map[string]string\<close>: an object whose
  values are strings, or \<open>null\<close> for the empty string. Every other document is an error, of syntax or of
  type; the text of the error is not part of this theory.
\<close>

section \<open>Strings\<close>

text \<open>The UTF-8 encoding of a rune; Go puts the replacement rune for a surrogate.\<close>

definition utf8_bytes :: "int \<Rightarrow> int list" where
  "utf8_bytes r =
     (if r < 0x80 then [r]
      else if r < 0x800 then [0xC0 + r div 64, 0x80 + r mod 64]
      else if r < 0x10000 then [0xE0 + r div 4096, 0x80 + r div 64 mod 64, 0x80 + r mod 64]
      else [0xF0 + r div 262144, 0x80 + r div 4096 mod 64, 0x80 + r div 64 mod 64, 0x80 + r mod 64])"

definition utf8_encode :: "int \<Rightarrow> string" where
  "utf8_encode r = map char_of (utf8_bytes (if 0xD800 \<le> r \<and> r \<le> 0xDFFF then 0xFFFD else r))"

definition replacement :: string where
  "replacement = utf8_encode 0xFFFD"

definition hex_digit_val :: "char \<Rightarrow> int option" where
  "hex_digit_val c = (if is_hex c then Some (unhex c) else None)"

text \<open>Four hexadecimal digits, and the same after \<open>\u\<close>.\<close>

definition hex4 :: "string \<Rightarrow> int option" where
  "hex4 s =
     (case map hex_digit_val (take 4 s) of
        [Some a, Some b, Some c, Some d] \<Rightarrow> Some (((a * 16 + b) * 16 + c) * 16 + d)
      | _ \<Rightarrow> None)"

definition backslash :: char where "backslash = CHR 0x5C"

definition unicode_escape :: "string \<Rightarrow> int option" where
  "unicode_escape s = (if has_prefix s [backslash, CHR ''u''] then hex4 (drop 2 s) else None)"

text \<open>What an escape stands for, after the backslash, and how many bytes it takes. Two escapes that
  make a pair of surrogates are one rune.\<close>

definition simple_escapes :: "(char \<times> string) list" where
  "simple_escapes =
     [(CHR 0x22, [CHR 0x22]), (backslash, [backslash]), (CHR ''/'', ''/''), (CHR ''b'', [CHR 0x08]),
      (CHR ''f'', [CHR 0x0C]), (CHR ''n'', [CHR 0x0A]), (CHR ''r'', [CHR 0x0D]), (CHR ''t'', [CHR 0x09])]"

definition json_escape :: "string \<Rightarrow> (string \<times> nat) option" where
  "json_escape s =
     (case s of
        [] \<Rightarrow> None
      | c # cs \<Rightarrow>
          if c = CHR ''u'' then
            (case hex4 cs of
               None \<Rightarrow> None
             | Some r \<Rightarrow>
                 if 0xD800 \<le> r \<and> r \<le> 0xDBFF then
                   (case unicode_escape (drop 4 cs) of
                      Some r' \<Rightarrow>
                        if 0xDC00 \<le> r' \<and> r' \<le> 0xDFFF
                        then Some (utf8_encode (0x10000 + (r - 0xD800) * 1024 + (r' - 0xDC00)), 11)
                        else Some (replacement, 5)
                    | None \<Rightarrow> Some (replacement, 5))
                 else Some (utf8_encode r, 5))
          else map_option (\<lambda>b. (b, 1)) (map_of simple_escapes c))"

text \<open>The content of a string literal after the opening quote, and the rest after the closing one. Bytes
  that are not UTF-8 are replaced.\<close>

function json_chars :: "string \<Rightarrow> (string \<times> string) option" where
  "json_chars s =
     (case s of
        [] \<Rightarrow> None
      | c # cs \<Rightarrow>
          if c = CHR 0x22 then Some ([], cs)
          else if c = backslash then
            (case json_escape cs of
               None \<Rightarrow> None
             | Some (b, n) \<Rightarrow> map_option (\<lambda>(t, r). (b @ t, r)) (json_chars (drop n cs)))
          else if byte c < 0x20 then None
          else if byte c < 0x80 then map_option (\<lambda>(t, r). (c # t, r)) (json_chars cs)
          else let n = rune_width s in
            map_option (\<lambda>(t, r). ((if n = 1 then replacement else take n s) @ t, r)) (json_chars (drop (n - 1) cs)))"
  by pat_completeness auto
termination
  by (relation "measure length") auto

declare json_chars.simps [simp del]

lemma json_chars_shorter: "json_chars s = Some (t, r) \<Longrightarrow> length r < length s"
proof (induction s arbitrary: t r rule: json_chars.induct)
  case (1 s)
  show ?case
  proof (cases s)
    case Nil
    with "1.prems" show ?thesis by (simp add: json_chars.simps)
  next
    case (Cons c cs)
    note ih = "1.IH" [OF Cons]
    consider (close) "c = CHR 0x22" | (escape) b n where "c \<noteq> CHR 0x22" "c = backslash" "json_escape cs = Some (b, n)"
      | (bad) "c \<noteq> CHR 0x22" "c = backslash" "json_escape cs = None"
      | (control) "c \<noteq> CHR 0x22" "c \<noteq> backslash" "byte c < 0x20"
      | (ascii) "c \<noteq> CHR 0x22" "c \<noteq> backslash" "\<not> byte c < 0x20" "byte c < 0x80"
      | (other) "c \<noteq> CHR 0x22" "c \<noteq> backslash" "\<not> byte c < 0x20" "\<not> byte c < 0x80"
      by (cases "json_escape cs") auto
    then show ?thesis
    proof cases
      case escape
      then obtain t' where "json_chars (drop n cs) = Some (t', r)"
        using "1.prems" Cons by (subst (asm) json_chars.simps) auto
      from ih(1) [OF escape(1,2,3) refl this] Cons show ?thesis by simp
    next
      case ascii
      then obtain t' where "json_chars cs = Some (t', r)"
        using "1.prems" Cons by (subst (asm) json_chars.simps) auto
      from ih(2) [OF ascii this] Cons show ?thesis by simp
    next
      case other
      then obtain t' where "json_chars (drop (rune_width s - 1) cs) = Some (t', r)"
        using "1.prems" Cons by (subst (asm) json_chars.simps) (auto simp: Let_def)
      from ih(3) [OF other refl this] Cons show ?thesis by simp
    qed (use "1.prems" Cons in \<open>subst (asm) json_chars.simps, auto\<close>)+
  qed
qed

section \<open>Objects of strings\<close>

definition json_space :: "char \<Rightarrow> bool" where
  "json_space c \<longleftrightarrow> byte c \<in> {9, 10, 13, 32}"

definition skip_space :: "string \<Rightarrow> string" where
  "skip_space s = dropWhile json_space s"

lemma length_skip_space: "length (skip_space s) \<le> length s"
  by (simp add: skip_space_def length_dropWhile_le)

text \<open>A string with its quotes; the value of a member, \<open>null\<close> included.\<close>

definition json_string :: "string \<Rightarrow> (string \<times> string) option" where
  "json_string s = (case s of c # cs \<Rightarrow> if c = CHR 0x22 then json_chars cs else None | [] \<Rightarrow> None)"

definition json_member_value :: "string \<Rightarrow> (string \<times> string) option" where
  "json_member_value s = (if has_prefix s ''null'' then Some ([], drop 4 s) else json_string s)"

definition json_member :: "string \<Rightarrow> ((string \<times> string) \<times> string) option" where
  "json_member s =
     (case json_string (skip_space s) of
        None \<Rightarrow> None
      | Some (k, r) \<Rightarrow>
          (case skip_space r of
             c # r' \<Rightarrow>
               if c = CHR '':'' then map_option (\<lambda>(v, r''). ((k, v), r'')) (json_member_value (skip_space r'))
               else None
           | [] \<Rightarrow> None))"

lemma json_string_shorter: "json_string s = Some (t, r) \<Longrightarrow> length r < length s"
  by (auto simp: json_string_def split: list.splits if_splits dest: json_chars_shorter)

lemma json_member_shorter:
  assumes "json_member s = Some (m, r)"
  shows "length r < length s"
proof -
  obtain k r1 c r2 where 1: "json_string (skip_space s) = Some (k, r1)" and 2: "skip_space r1 = c # r2"
    and 3: "\<exists>v. json_member_value (skip_space r2) = Some (v, r)"
    using assms by (auto simp: json_member_def split: option.splits list.splits if_splits)
  have "length r \<le> length (skip_space r2)"
    using 3 json_string_shorter by (fastforce simp: json_member_value_def split: if_splits)
  moreover have "length r1 < length s"
    using json_string_shorter [OF 1] length_skip_space [of s] by simp
  moreover have "length (c # r2) \<le> length r1" using length_skip_space [of r1] 2 by simp
  ultimately show ?thesis using length_skip_space [of r2] by simp
qed

text \<open>The members up to the closing brace; a later member replaces an earlier one of its name.\<close>

function json_members :: "(string \<times> string) list \<Rightarrow> string \<Rightarrow> ((string \<times> string) list \<times> string) option" where
  "json_members m s =
     (case json_member s of
        None \<Rightarrow> None
      | Some ((k, v), r) \<Rightarrow>
          (case skip_space r of
             c # r' \<Rightarrow>
               if c = CHR '','' then json_members (put k v m) r'
               else if c = CHR ''}'' then Some (put k v m, r')
               else None
           | [] \<Rightarrow> None))"
  by pat_completeness auto
termination
proof (relation "measure (length \<circ> snd)", simp)
  fix m :: "(string \<times> string) list" and s :: string and p kv r k v c r'
  assume p: "json_member s = Some p" "(kv, r) = p" "skip_space r = c # r'"
  then have "length r < length s" by (simp add: json_member_shorter [of s kv r])
  moreover have "length (c # r') \<le> length r" using p(3) length_skip_space [of r] by simp
  ultimately show "((put k v m, r'), m, s) \<in> measure (length \<circ> snd)" by simp
qed

declare json_members.simps [simp del]

definition json_object :: "string \<Rightarrow> (string \<times> string) list option" where
  "json_object doc =
     (let s = skip_space doc;
          closed = (\<lambda>m r. if skip_space r = [] then Some m else None)
      in if has_prefix s ''null'' then closed [] (drop 4 s)
         else case s of
             [] \<Rightarrow> None
           | c # r \<Rightarrow>
               if c \<noteq> CHR ''{'' then None
               else if has_prefix (skip_space r) ''}'' then closed [] (tl (skip_space r))
               else (case json_members [] r of None \<Rightarrow> None | Some (m, r') \<Rightarrow> closed m r'))"

section \<open>Reading back what is written\<close>

text \<open>A printer: quotes, backslashes and control characters are escaped, all other bytes stay.\<close>

definition print_byte :: "char \<Rightarrow> string" where
  "print_byte c =
     (if c = CHR 0x22 \<or> c = backslash then [backslash, c]
      else if byte c < 0x20 then [backslash, CHR ''u'', CHR ''0'', CHR ''0'', lower_hex (byte c div 16), lower_hex (byte c mod 16)]
      else [c])"

definition print_string :: "string \<Rightarrow> string" where
  "print_string s = CHR 0x22 # concat (map print_byte s) @ [CHR 0x22]"

definition print_member :: "string \<times> string \<Rightarrow> string" where
  "print_member kv = print_string (fst kv) @ '': '' @ print_string (snd kv)"

definition print_object :: "(string \<times> string) list \<Rightarrow> string" where
  "print_object m = ''{'' @ go_join (map print_member m) '', '' @ ''}''"

function valid_utf8 :: "string \<Rightarrow> bool" where
  "valid_utf8 s =
     (case s of
        [] \<Rightarrow> True
      | c # cs \<Rightarrow> (byte c < 0x80 \<or> 1 < rune_width s) \<and> valid_utf8 (drop (rune_width s - 1) cs))"
  by pat_completeness auto
termination
  by (relation "measure length") auto

declare valid_utf8.simps [simp del]

lemma rune_width_ascii: "byte c < 0x80 \<Longrightarrow> rune_width (c # cs) = 1"
  by (auto simp: rune_width_def split: list.split)

text \<open>The bytes of a rune are not ASCII, and they are a rune whatever follows.\<close>

lemma rune_width_bytes:
  assumes "1 < rune_width s"
  shows "list_all (\<lambda>c. 0x80 \<le> byte c) (take (rune_width s) s)"
    and "rune_width (take (rune_width s) s @ t) = rune_width s"
    and "rune_width s \<le> length s"
proof -
  consider "rune_width s = 2" | "rune_width s = 3" | "rune_width s = 4"
    using assms by (auto simp: rune_width_def split: list.splits if_splits)
  then have "list_all (\<lambda>c. 0x80 \<le> byte c) (take (rune_width s) s) \<and>
      rune_width (take (rune_width s) s @ t) = rune_width s \<and> rune_width s \<le> length s"
  proof cases
    case 1
    then obtain a b r where s: "s = a # b # r" "0xC2 \<le> byte a" "byte a \<le> 0xDF" "cont_byte b"
      by (auto simp: rune_width_def split: list.splits if_splits)
    then show ?thesis unfolding 1 by (auto simp: rune_width_def cont_byte_def split: list.split)
  next
    case 2
    then obtain a b c r where s: "s = a # b # c # r" "\<not> byte a \<le> 0xDF" "0xE0 \<le> byte a" "byte a \<le> 0xEF" "cont_byte b"
        "cont_byte c" "byte a = 0xE0 \<longrightarrow> 0xA0 \<le> byte b" "byte a = 0xED \<longrightarrow> byte b \<le> 0x9F"
      by (auto simp: rune_width_def split: list.splits if_splits)
    then show ?thesis unfolding 2 by (auto simp: rune_width_def cont_byte_def split: list.split)
  next
    case 3
    then obtain a b c d r where s: "s = a # b # c # d # r" "\<not> byte a \<le> 0xEF" "0xF0 \<le> byte a" "byte a \<le> 0xF4"
        "cont_byte b" "cont_byte c" "cont_byte d" "byte a = 0xF0 \<longrightarrow> 0x90 \<le> byte b" "byte a = 0xF4 \<longrightarrow> byte b \<le> 0x8F"
      by (auto simp: rune_width_def split: list.splits if_splits)
    then show ?thesis unfolding 3 by (auto simp: rune_width_def cont_byte_def)
  qed
  then show "list_all (\<lambda>c. 0x80 \<le> byte c) (take (rune_width s) s)"
    and "rune_width (take (rune_width s) s @ t) = rune_width s"
    and "rune_width s \<le> length s" by blast+
qed

lemma print_plain: "list_all (\<lambda>c. 0x80 \<le> byte c) s \<Longrightarrow> concat (map print_byte s) = s"
  by (induction s) (auto simp: print_byte_def backslash_def byte_def)

lemma lower_hex_val: "0 \<le> n \<Longrightarrow> n < 16 \<Longrightarrow> hex_digit_val (lower_hex n) = Some n"
  by (auto simp: hex_digit_val_def lower_hex_def is_hex_def unhex_def is_digit_def byte_def)

lemma json_escape_control:
  assumes "byte c < 0x20"
  shows "json_escape (tl (print_byte c) @ r) = Some ([c], 5)"
proof -
  have "print_byte c = [backslash, CHR ''u'', CHR ''0'', CHR ''0'', lower_hex (byte c div 16), lower_hex (byte c mod 16)]"
    using assms by (auto simp: print_byte_def backslash_def byte_def)
  moreover have "hex4 (CHR ''0'' # CHR ''0'' # lower_hex (byte c div 16) # lower_hex (byte c mod 16) # r) = Some (byte c)"
  proof -
    have "hex_digit_val CHR ''0'' = Some 0"
      by (simp add: hex_digit_val_def is_hex_def unhex_def is_digit_def byte_def)
    moreover have "hex_digit_val (lower_hex (byte c div 16)) = Some (byte c div 16)"
        "hex_digit_val (lower_hex (byte c mod 16)) = Some (byte c mod 16)"
      using byte_range [of c] by (auto intro!: lower_hex_val)
    ultimately show ?thesis by (simp add: hex4_def)
  qed
  moreover have "utf8_encode (byte c) = [c]"
    using assms by (simp add: utf8_encode_def utf8_bytes_def)
  ultimately show ?thesis
    using assms by (simp add: json_escape_def)
qed

lemma json_chars_escape:
  "json_escape cs = Some (b, n) \<Longrightarrow>
   json_chars (backslash # cs) = map_option (\<lambda>(t, r). (b @ t, r)) (json_chars (drop n cs))"
  by (subst json_chars.simps) (simp add: backslash_def)

lemma json_chars_ascii:
  "c \<noteq> CHR 0x22 \<Longrightarrow> c \<noteq> backslash \<Longrightarrow> \<not> byte c < 0x20 \<Longrightarrow> byte c < 0x80 \<Longrightarrow>
   json_chars (c # cs) = map_option (\<lambda>(t, r). (c # t, r)) (json_chars cs)"
  by (subst json_chars.simps) simp

lemma json_chars_rune:
  assumes "1 < rune_width s" and "s = c # cs" and "0x80 \<le> byte c"
  shows "json_chars s = map_option (\<lambda>(t, r). (take (rune_width s) s @ t, r)) (json_chars (drop (rune_width s - 1) cs))"
proof -
  have "c \<noteq> CHR 0x22" "c \<noteq> backslash" using assms(3) by (auto simp: backslash_def byte_def)
  with assms show ?thesis by (subst json_chars.simps) (simp add: Let_def)
qed

lemma json_chars_printed: "valid_utf8 s \<Longrightarrow> json_chars (concat (map print_byte s) @ CHR 0x22 # r) = Some (s, r)"
proof (induction s rule: valid_utf8.induct)
  case (1 s)
  show ?case
  proof (cases s)
    case Nil
    then show ?thesis by (simp add: json_chars.simps)
  next
    case (Cons c cs)
    let ?n = "rune_width s"
    from "1.prems" have valid: "byte c < 0x80 \<or> 1 < ?n" "valid_utf8 (drop (?n - 1) cs)"
      using Cons by (subst (asm) valid_utf8.simps, simp)+
    have ih: "json_chars (concat (map print_byte (drop (?n - 1) cs)) @ CHR 0x22 # r) = Some (drop (?n - 1) cs, r)"
      using "1.IH" [OF Cons] valid by blast
    show ?thesis
    proof (cases "byte c < 0x80")
      case True
      then have n: "?n = 1" using Cons by (simp add: rune_width_ascii)
      consider (special) "c = CHR 0x22 \<or> c = backslash"
        | (control) "byte c < 0x20" | (plain) "c \<noteq> CHR 0x22" "c \<noteq> backslash" "\<not> byte c < 0x20"
        by blast
      then show ?thesis
      proof cases
        case special
        then have "json_escape (c # t) = Some ([c], 1)" for t
          by (auto simp: json_escape_def simple_escapes_def backslash_def)
        moreover from special have "print_byte c = [backslash, c]" by (auto simp: print_byte_def)
        ultimately show ?thesis using ih n Cons by (simp add: json_chars_escape)
      next
        case control
        then have "c \<noteq> CHR 0x22" "c \<noteq> backslash" by (auto simp: backslash_def byte_def)
        with control obtain p where p: "print_byte c = backslash # p" "length p = 5"
          by (simp add: print_byte_def)
        then have "json_escape (p @ t) = Some ([c], 5)" for t
          using json_escape_control [OF control, of t] by simp
        with p ih n Cons show ?thesis by (simp add: json_chars_escape)
      next
        case plain
        then have "print_byte c = [c]" by (simp add: print_byte_def)
        with plain True ih n Cons show ?thesis by (simp add: json_chars_ascii)
      qed
    next
      case False
      with valid have w: "1 < ?n" by simp
      note bytes = rune_width_bytes [OF w]
      define p q where "p = take (?n - 1) cs" and "q = drop (?n - 1) cs"
      then have cs: "cs = p @ q" "length p = ?n - 1" using bytes(3) Cons by simp_all
      then have u: "take ?n s = c # p" using Cons w by (cases ?n) simp_all
      let ?rest = "concat (map print_byte q) @ CHR 0x22 # r"
      have n: "rune_width (c # p @ ?rest) = ?n" using bytes(2) [of ?rest] u by simp
      with w False have "json_chars (c # p @ ?rest) =
          map_option (\<lambda>(t, r). (take ?n (c # p @ ?rest) @ t, r)) (json_chars (drop (?n - 1) (p @ ?rest)))"
        using json_chars_rune [of "c # p @ ?rest" c "p @ ?rest"] by simp
      moreover have "take ?n (c # p @ ?rest) = c # p" "drop (?n - 1) (p @ ?rest) = ?rest"
        using cs(2) w by (cases ?n; simp)+
      moreover have "json_chars ?rest = Some (q, r)" using ih by (simp add: q_def)
      moreover have "concat (map print_byte (c # p)) = c # p"
        using print_plain [OF bytes(1)] unfolding u .
      then have printed: "concat (map print_byte s) @ CHR 0x22 # r = c # p @ ?rest" using Cons cs(1) by simp
      ultimately show ?thesis unfolding printed using Cons cs(1) by simp
    qed
  qed
qed

lemma json_string_printed: "valid_utf8 s \<Longrightarrow> json_string (print_string s @ r) = Some (s, r)"
  by (simp add: json_string_def print_string_def json_chars_printed)

lemma skip_space_simps [simp]:
  "skip_space (CHR '' '' # s) = skip_space s"
  "skip_space (CHR 0x22 # s) = CHR 0x22 # s"
  "skip_space (CHR '':'' # s) = CHR '':'' # s"
  "skip_space (CHR '','' # s) = CHR '','' # s"
  "skip_space (CHR ''{'' # s) = CHR ''{'' # s"
  "skip_space (CHR ''}'' # s) = CHR ''}'' # s"
  "skip_space [] = []"
  by (simp_all add: skip_space_def json_space_def byte_def)

lemma skip_space_printed [simp]: "skip_space (print_string s @ r) = print_string s @ r"
  by (simp add: print_string_def)

lemma json_member_printed:
  assumes "valid_utf8 k" and "valid_utf8 v"
  shows "json_member (print_member (k, v) @ r) = Some ((k, v), r)"
proof -
  have "\<not> has_prefix (print_string v @ r) ''null''" by (simp add: print_string_def has_prefix_def)
  then have "json_member_value (print_string v @ r) = Some (v, r)"
    by (simp add: json_member_value_def json_string_printed [OF assms(2)])
  with json_string_printed [OF assms(1), of "'': '' @ print_string v @ r"] show ?thesis
    by (simp add: json_member_def print_member_def)
qed

lemma json_member_space: "json_member (CHR '' '' # s) = json_member s"
  by (simp add: json_member_def)

lemma put_new: "k \<notin> fst ` set m \<Longrightarrow> put k v m = m @ [(k, v)]"
  by (induction m) auto

lemma json_members_printed:
  assumes "\<forall>(k, v) \<in> set ps. valid_utf8 k \<and> valid_utf8 v" and "distinct (map fst (m @ ps))" and "ps \<noteq> []"
  shows "json_members m (go_join (map print_member ps) '', '' @ CHR ''}'' # r) = Some (m @ ps, r) \<and>
    json_members m (CHR '' '' # go_join (map print_member ps) '', '' @ CHR ''}'' # r) = Some (m @ ps, r)"
  using assms
proof (induction ps arbitrary: m)
  case (Cons p ps)
  obtain k v where p: "p = (k, v)" by (cases p)
  then have kv: "valid_utf8 k" "valid_utf8 v" "k \<notin> fst ` set m" using Cons.prems by auto
  show ?case
  proof (cases ps)
    case Nil
    then show ?thesis
      by (simp add: p json_members.simps json_member_space json_member_printed [OF kv(1,2)] put_new [OF kv(3)])
  next
    case (Cons p' ps')
    with Cons.IH [of "m @ [(k, v)]"] Cons.prems p have ih:
      "json_members (m @ [(k, v)]) (CHR '' '' # go_join (map print_member ps) '', '' @ CHR ''}'' # r) = Some (m @ p # ps, r)"
      by simp
    have "go_join (map print_member (p # ps)) '', '' @ CHR ''}'' # r =
        print_member (k, v) @ CHR '','' # CHR '' '' # go_join (map print_member ps) '', '' @ CHR ''}'' # r"
      using Cons p by simp
    with ih show ?thesis
      by (simp add: json_members.simps [of m] json_member_space json_member_printed [OF kv(1,2)] put_new [OF kv(3)])
  qed
qed simp

lemma json_object_printed:
  assumes "\<forall>(k, v) \<in> set m. valid_utf8 k \<and> valid_utf8 v" and "distinct (map fst m)"
  shows "json_object (print_object m) = Some m"
proof (cases m)
  case Nil
  then show ?thesis by (simp add: json_object_def print_object_def has_prefix_def)
next
  case (Cons p ps)
  obtain t where t: "go_join (map print_member m) '', '' = CHR 0x22 # t"
    using Cons by (cases ps) (auto simp: print_member_def print_string_def)
  have "json_members [] (go_join (map print_member m) '', '' @ ''}'') = Some (m, [])"
    using json_members_printed [of m "[]" "[]"] assms Cons by simp
  with t show ?thesis by (simp add: json_object_def print_object_def has_prefix_def)
qed

end
