(* ===== verification/GoTime.thy ===== *)
theory GoTime
  imports GoFloat
begin

text \<open>
  Go's \<open>time.ParseDuration\<close>: a sequence of decimal numbers with units, as in \<open>1h15m30.5s\<close>, in nanoseconds.
  The sums are in 64 bits without sign, checked after each step; the fraction is scaled in floating point.
\<close>

definition time_quote :: "string \<Rightarrow> string" where
  "time_quote s = CHR 0x22 # concat (map (\<lambda>c.
     if 0x80 \<le> byte c \<or> byte c < 0x20 then [CHR 0x5C, CHR ''x'', lower_hex (byte c div 16), lower_hex (byte c mod 16)]
     else if c = CHR 0x22 \<or> c = CHR 0x5C then [CHR 0x5C, c] else [c]) s) @ [CHR 0x22]"

text \<open>The digits before the point; \<open>None\<close> when the number is too large. And those after it, as a number and
  the power of ten to divide by; digits beyond the range are dropped.\<close>

fun leading_int :: "int \<Rightarrow> string \<Rightarrow> (int \<times> string) option" where
  "leading_int x [] = Some (x, [])"
| "leading_int x (c # cs) =
     (if \<not> is_digit c then Some (x, c # cs)
      else if 2 ^ 63 div 10 < x then None
      else let x' = x * 10 + digit_val c in if 2 ^ 63 < x' then None else leading_int x' cs)"

fun leading_fraction :: "bool \<Rightarrow> int \<Rightarrow> f64 \<Rightarrow> string \<Rightarrow> int \<times> f64 \<times> string" where
  "leading_fraction over x sc [] = (x, sc, [])"
| "leading_fraction over x sc (c # cs) =
     (if \<not> is_digit c then (x, sc, c # cs)
      else if over \<or> (2 ^ 63 - 1) div 10 < x then leading_fraction True x sc cs
      else let y = x * 10 + digit_val c in
        if 2 ^ 63 < y then leading_fraction True x sc cs
        else leading_fraction False y (f64_mul sc (f64_of_int 10)) cs)"

text \<open>The micro sign and the Greek letter are both accepted.\<close>

definition duration_units :: "(string \<times> int) list" where
  "duration_units =
     [(''ns'', 1), (''us'', 1000), (map char_of [0xC2, 0xB5 :: int] @ ''s'', 1000),
      (map char_of [0xCE, 0xBC :: int] @ ''s'', 1000), (''ms'', 1000000), (''s'', 1000000000),
      (''m'', 60 * 1000000000), (''h'', 3600 * 1000000000)]"

definition number_char :: "char \<Rightarrow> bool" where
  "number_char c \<longleftrightarrow> c = CHR ''.'' \<or> is_digit c"

definition invalid_duration :: "string \<Rightarrow> string" where
  "invalid_duration orig = ''time: invalid duration '' @ time_quote orig"

text \<open>The number at the front, with what follows it: the whole part, the fraction and its scale.\<close>

definition duration_number :: "string \<Rightarrow> (int \<times> int \<times> f64 \<times> string) option" where
  "duration_number s =
     (if s = [] \<or> \<not> number_char (hd s) then None
      else case leading_int 0 s of
        None \<Rightarrow> None
      | Some (v, s1) \<Rightarrow>
          let (f, sc, s2) =
                (if has_prefix s1 ''.'' then leading_fraction False 0 (f64_of_int 1) (tl s1) else (0, f64_of_int 1, s1));
              pre = (length s1 \<noteq> length s);
              post = (has_prefix s1 ''.'' \<and> length s2 \<noteq> length (tl s1))
          in if pre \<or> post then Some (v, f, sc, s2) else None)"

definition duration_value :: "string \<Rightarrow> int \<Rightarrow> int \<Rightarrow> f64 \<Rightarrow> int \<Rightarrow> (string + int)" where
  "duration_value orig v f sc unit =
     (if 2 ^ 63 div unit < v then Inl (invalid_duration orig)
      else if 0 < f then
        let t = (case f64_trunc (f64_mul (f64_of_int f) (f64_div (f64_of_int unit) sc)) of Some n \<Rightarrow> n | None \<Rightarrow> 0);
            v' = wrapu64 (v * unit + t)
        in if 2 ^ 63 < v' then Inl (invalid_duration orig) else Inr v'
      else Inr (v * unit))"

definition duration_term :: "string \<Rightarrow> string \<Rightarrow> (string + (int \<times> string))" where
  "duration_term orig s =
     (case duration_number s of
        None \<Rightarrow> Inl (invalid_duration orig)
      | Some (v, f, sc, s2) \<Rightarrow>
          let u = takeWhile (\<lambda>c. \<not> number_char c) s2; s3 = dropWhile (\<lambda>c. \<not> number_char c) s2 in
          if u = [] then Inl (''time: missing unit in duration '' @ time_quote orig)
          else case map_of duration_units u of
              None \<Rightarrow> Inl (''time: unknown unit '' @ time_quote u @ '' in duration '' @ time_quote orig)
            | Some unit \<Rightarrow> (case duration_value orig v f sc unit of Inl err \<Rightarrow> Inl err | Inr d \<Rightarrow> Inr (d, s3)))"

lemma leading_int_shorter: "leading_int x s = Some (v, r) \<Longrightarrow> length r \<le> length s"
  by (induction x s rule: leading_int.induct) (fastforce simp: Let_def split: if_splits)+

lemma leading_fraction_shorter: "leading_fraction over x sc s = (v, sc', r) \<Longrightarrow> length r \<le> length s"
  by (induction over x sc s rule: leading_fraction.induct) (fastforce simp: Let_def split: if_splits)+

lemma duration_number_shorter: "duration_number s = Some (v, f, sc, r) \<Longrightarrow> length r \<le> length s"
  by (auto simp: duration_number_def Let_def split: if_splits option.splits prod.splits
      dest!: leading_int_shorter leading_fraction_shorter)

lemma duration_term_shorter:
  assumes "duration_term orig s = Inr (d, r)"
  shows "length r < length s"
proof -
  obtain v f sc s2 where n: "duration_number s = Some (v, f, sc, s2)"
    and u: "takeWhile (\<lambda>c. \<not> number_char c) s2 \<noteq> []" and r: "r = dropWhile (\<lambda>c. \<not> number_char c) s2"
    using assms by (auto simp: duration_term_def Let_def split: option.splits if_splits prod.splits sum.splits)
  have "length s2 = length (takeWhile (\<lambda>c. \<not> number_char c) s2) + length r"
    unfolding r length_append [symmetric] by simp
  with u have "length r < length s2" by simp
  with duration_number_shorter [OF n] show ?thesis by simp
qed

function duration_terms :: "string \<Rightarrow> int \<Rightarrow> string \<Rightarrow> (string + int)" where
  "duration_terms orig d s =
     (if s = [] then Inr d
      else case duration_term orig s of
          Inl err \<Rightarrow> Inl err
        | Inr (v, s') \<Rightarrow>
            let d' = wrapu64 (d + v) in
            if 2 ^ 63 < d' then Inl (invalid_duration orig) else duration_terms orig d' s')"
  by pat_completeness auto
termination
  by (relation "measure (\<lambda>(orig, d, s). length s)") (auto dest: duration_term_shorter)

declare duration_terms.simps [simp del]

definition parse_duration :: "string \<Rightarrow> (string + int)" where
  "parse_duration s =
     (let neg = has_prefix s ''-'';
          rest = (if neg \<or> has_prefix s ''+'' then tl s else s)
      in if rest = ''0'' then Inr 0
         else if rest = [] then Inl (invalid_duration s)
         else case duration_terms s 0 rest of
             Inl err \<Rightarrow> Inl err
           | Inr d \<Rightarrow>
               if neg then Inr (- d)
               else if 2 ^ 63 - 1 < d then Inl (invalid_duration s)
               else Inr d)"

section \<open>Facts\<close>

lemma duration_terms_range: "0 \<le> d \<Longrightarrow> d \<le> 2 ^ 63 \<Longrightarrow> duration_terms orig d s = Inr r \<Longrightarrow> 0 \<le> r \<and> r \<le> 2 ^ 63"
proof (induction orig d s rule: duration_terms.induct)
  case (1 orig d s)
  show ?case
  proof (cases "s = []")
    case True
    with 1 show ?thesis by (simp add: duration_terms.simps)
  next
    case False
    then obtain v s' where t: "duration_term orig s = Inr (v, s')" "\<not> 2 ^ 63 < wrapu64 (d + v)"
        "duration_terms orig (wrapu64 (d + v)) s' = Inr r"
      using "1.prems"(3) by (subst (asm) duration_terms.simps) (auto simp: Let_def split: sum.splits if_splits)
    from "1.IH" [OF False t(1) refl refl t(2) _ _ t(3)] t(2) show ?thesis by (simp add: wrapu64_def)
  qed
qed

lemma parse_duration_range: "parse_duration s = Inr d \<Longrightarrow> min_int64 \<le> d \<and> d \<le> max_int64"
  using duration_terms_range [of 0 s "if has_prefix s ''-'' \<or> has_prefix s ''+'' then tl s else s"]
  by (auto simp: parse_duration_def Let_def min_int64_def max_int64_def split: sum.splits if_splits)

lemma digits_grow:
  "list_all is_digit ds \<Longrightarrow> 0 \<le> x \<Longrightarrow> x \<le> foldl (\<lambda>n c. 10 * n + digit_val c) x ds"
proof (induction ds arbitrary: x)
  case (Cons c cs)
  then have "0 \<le> digit_val c" by (simp add: digit_val_def is_digit_def)
  then have "x \<le> 10 * x + digit_val c" "0 \<le> 10 * x + digit_val c" using Cons.prems(2) by simp_all
  with Cons.IH [of "10 * x + digit_val c"] Cons.prems(1) show ?case by simp
qed simp

lemma leading_int_digits:
  assumes "list_all is_digit ds" and "0 \<le> x" and "x \<le> 2 ^ 63" and "r = [] \<or> \<not> is_digit (hd r)"
  shows "leading_int x (ds @ r) =
    (let v = foldl (\<lambda>n c. 10 * n + digit_val c) x ds in if v \<le> 2 ^ 63 then Some (v, r) else None)"
  using assms
proof (induction ds arbitrary: x)
  case Nil
  then show ?case by (cases r) simp_all
next
  case (Cons c cs)
  let ?x = "10 * x + digit_val c"
  have c: "0 \<le> digit_val c" using Cons.prems(1) by (simp add: digit_val_def is_digit_def)
  then have grow: "?x \<le> foldl (\<lambda>n c. 10 * n + digit_val c) ?x cs"
    using digits_grow [of cs ?x] Cons.prems by simp
  show ?case
  proof (cases "?x \<le> 2 ^ 63")
    case True
    with Cons.IH [of ?x] Cons.prems c show ?thesis by (simp add: Let_def mult.commute)
  next
    case False
    with grow Cons.prems c show ?thesis by (simp add: Let_def mult.commute)
  qed
qed

lemma leading_int_number:
  assumes "0 \<le> n" and "r = [] \<or> \<not> is_digit (hd r)"
  shows "leading_int 0 (nat_digits n @ r) = (if n \<le> 2 ^ 63 then Some (n, r) else None)"
  using leading_int_digits [of "nat_digits n" 0 r] assms
  by (simp add: nat_digits_digits digits_val_nat_digits Let_def flip: digits_val_def)

text \<open>A number with a unit, and what follows; it is refused when it does not fit.\<close>

lemma duration_term_printed:
  assumes "0 \<le> n" and "0 < unit" and "map_of duration_units u = Some unit" and "u \<noteq> []"
    and "list_all (\<lambda>c. \<not> number_char c) u" and "r = [] \<or> is_digit (hd r)"
  shows "duration_term orig (nat_digits n @ u @ r) =
    (if n * unit \<le> 2 ^ 63 then Inr (n * unit, r) else Inl (invalid_duration orig))"
proof -
  have fits: "n \<le> 2 ^ 63 div unit \<longleftrightarrow> n * unit \<le> 2 ^ 63"
  proof
    assume "n \<le> 2 ^ 63 div unit"
    then have "n * unit \<le> 2 ^ 63 div unit * unit" using assms(2) by (simp add: mult_right_mono)
    also have "\<dots> \<le> 2 ^ 63" using pos_mod_sign [OF assms(2), of "2 ^ 63"] by (simp flip: minus_mod_eq_div_mult)
    finally show "n * unit \<le> 2 ^ 63" .
  next
    assume "n * unit \<le> 2 ^ 63"
    from zdiv_mono1 [OF this assms(2)] assms(2) show "n \<le> 2 ^ 63 div unit" by simp
  qed
  have "u @ r = [] \<or> \<not> is_digit (hd (u @ r))" using assms(4,5) by (cases u) (auto simp: number_char_def)
  then have v: "leading_int 0 (nat_digits n @ u @ r) = (if n \<le> 2 ^ 63 then Some (n, u @ r) else None)"
    using leading_int_number assms(1) by blast
  have start: "number_char (hd (nat_digits n @ u @ r))"
    using nat_digits_digits [OF assms(1)] nat_digits_ne [of n] by (cases "nat_digits n") (auto simp: number_char_def)
  have "\<not> has_prefix (u @ r) ''.''"
    using assms(4,5) by (cases u) (auto simp: has_prefix_def number_char_def)
  with v start have number: "duration_number (nat_digits n @ u @ r) =
      (if n \<le> 2 ^ 63 then Some (n, 0, f64_of_int 1, u @ r) else None)"
    using nat_digits_ne [of n] by (simp add: duration_number_def Let_def)
  have ends: "takeWhile (\<lambda>c. \<not> number_char c) (u @ r) = u" "dropWhile (\<lambda>c. \<not> number_char c) (u @ r) = r"
    using assms(5,6) by (cases r; simp add: list_all_iff takeWhile_append2 dropWhile_append2 number_char_def)+
  show ?thesis
  proof (cases "n \<le> 2 ^ 63")
    case True
    with number ends fits assms(3,4) show ?thesis by (auto simp: duration_term_def Let_def duration_value_def)
  next
    case False
    have "n * 1 \<le> n * unit" using assms(1,2) by (intro mult_left_mono) simp_all
    then have "\<not> n * unit \<le> 2 ^ 63" using False by linarith
    with False number show ?thesis by (simp add: duration_term_def)
  qed
qed

text \<open>Hours, minutes and seconds: what is read is their sum.\<close>

lemma duration_terms_step:
  assumes "0 \<le> n" and "map_of duration_units u = Some unit" and "0 < unit" and "u \<noteq> []"
    and "list_all (\<lambda>c. \<not> number_char c) u"
    and "r = [] \<or> is_digit (hd r)" and "d = 0 \<or> n * unit \<noteq> 2 ^ 63" and "0 \<le> d" and "d \<le> 2 ^ 63"
    and "duration_terms orig d (nat_digits n @ u @ r) = Inr t"
  shows "duration_terms orig (d + n * unit) r = Inr t \<and> d + n * unit \<le> 2 ^ 63"
proof -
  from assms(10) obtain v s where first: "duration_term orig (nat_digits n @ u @ r) = Inr (v, s)"
    and le: "\<not> 2 ^ 63 < wrapu64 (d + v)" and rest: "duration_terms orig (wrapu64 (d + v)) s = Inr t"
    by (subst (asm) duration_terms.simps) (auto simp: Let_def split: sum.splits if_splits)
  from first duration_term_printed [OF assms(1,3,2,4-6), of orig]
  have v: "v = n * unit" "s = r" "n * unit \<le> 2 ^ 63" by (simp_all split: if_splits)
  have "0 \<le> n * unit" using assms(1,3) by simp
  then have "d + n * unit < 2 ^ 64" using v(3) assms(7,9) by auto
  with \<open>0 \<le> n * unit\<close> assms(8) have "wrapu64 (d + v) = d + n * unit" by (simp add: wrapu64_def v(1))
  with le rest v(2) show ?thesis by simp
qed

lemma parse_duration_unsigned:
  assumes "0 \<le> n" and "u \<noteq> []" and "parse_duration (nat_digits n @ u) = Inr t"
  shows "duration_terms (nat_digits n @ u) 0 (nat_digits n @ u) = Inr t"
proof -
  obtain c cs where c: "nat_digits n = c # cs" "is_digit c"
    using nat_digits_digits [OF assms(1)] nat_digits_ne [of n] by (cases "nat_digits n") auto
  have "c \<noteq> CHR ''-''" "c \<noteq> CHR ''+''" using c(2) by (auto simp: is_digit_def byte_def)
  then have "\<not> has_prefix (nat_digits n @ u) ''-''" "\<not> has_prefix (nat_digits n @ u) ''+''" "nat_digits n @ u \<noteq> ''0''"
    unfolding c(1) using assms(2) by (simp_all add: has_prefix_def)
  with assms(3) show ?thesis by (simp add: parse_duration_def Let_def split: sum.splits if_splits)
qed

lemma units_plain:
  "(u, unit) \<in> set duration_units \<Longrightarrow>
   map_of duration_units u = Some unit \<and> 0 < unit \<and> u \<noteq> [] \<and> list_all (\<lambda>c. \<not> number_char c) u"
proof -
  have "list_all (\<lambda>(u, unit). map_of duration_units u = Some unit \<and> 0 < unit \<and> u \<noteq> [] \<and> list_all (\<lambda>c. \<not> number_char c) u)
      duration_units"
    by code_simp
  then show "(u, unit) \<in> set duration_units \<Longrightarrow> ?thesis" by (auto simp: list_all_iff)
qed

lemma parse_duration_unit:
  assumes "0 \<le> n" and "(u, unit) \<in> set duration_units" and "parse_duration (nat_digits n @ u) = Inr t"
  shows "t = n * unit"
proof -
  have u: "map_of duration_units u = Some unit" "0 < unit" "u \<noteq> []" "list_all (\<lambda>c. \<not> number_char c) u"
    using units_plain [OF assms(2)] by simp_all
  have "duration_terms (nat_digits n @ u) 0 (nat_digits n @ u @ []) = Inr t"
    using parse_duration_unsigned [OF assms(1) u(3) assms(3)] by simp
  then have "duration_terms (nat_digits n @ u) (0 + n * unit) [] = Inr t"
    using duration_terms_step [OF assms(1) u, of "[]" 0 "nat_digits n @ u" t] by simp
  then show ?thesis by (simp add: duration_terms.simps)
qed

lemma parse_duration_hms:
  assumes "0 \<le> h" and "0 \<le> m" and "0 \<le> s"
    and "parse_duration (nat_digits h @ ''h'' @ nat_digits m @ ''m'' @ nat_digits s @ ''s'') = Inr t"
  shows "t = ((h * 60 + m) * 60 + s) * 1000000000"
proof -
  define orig where "orig = nat_digits h @ ''h'' @ nat_digits m @ ''m'' @ nat_digits s @ ''s''"
  let ?s2 = "nat_digits s @ ''s'' @ []"
  let ?s1 = "nat_digits m @ ''m'' @ ?s2"
  have shape: "orig = nat_digits h @ ''h'' @ ?s1" by (simp add: orig_def)
  have 0: "duration_terms orig 0 orig = Inr t"
    using parse_duration_unsigned [OF assms(1), of "''h'' @ ?s1" t] assms(4) by (simp add: orig_def)
  have units: "(''h'', 3600000000000) \<in> set duration_units" "(''m'', 60000000000) \<in> set duration_units"
      "(''s'', 1000000000) \<in> set duration_units"
    by (simp_all add: duration_units_def)
  note h = units_plain [OF units(1)] and m = units_plain [OF units(2)] and s = units_plain [OF units(3)]
  have digit: "nat_digits n @ r = [] \<or> is_digit (hd (nat_digits n @ r))" if "0 \<le> n" for n r
    using nat_digits_digits [OF that] nat_digits_ne [of n] by (cases "nat_digits n") auto
  have five: "\<not> (5::int) dvd 2 ^ 63" by simp
  have odd: "n * c \<noteq> 2 ^ 63" if "5 dvd c" for n c :: int
    using five that dvd_mult [of 5 c n] by metis
  have fives: "(5::int) dvd 3600000000000" "(5::int) dvd 60000000000" "(5::int) dvd 1000000000" by simp_all
  have "0 \<le> h * 3600000000000" "0 \<le> m * 60000000000" using assms(1,2) by simp_all
  then have nonneg: "0 \<le> 0 + h * 3600000000000" "0 \<le> 0 + h * 3600000000000 + m * 60000000000" by linarith+
  have whole: "duration_terms orig 0 (nat_digits h @ ''h'' @ ?s1) = Inr t" using 0 shape by metis
  have 1: "duration_terms orig (0 + h * 3600000000000) ?s1 = Inr t" "0 + h * 3600000000000 \<le> 2 ^ 63"
    using duration_terms_step [OF assms(1) _ _ _ _ digit [OF assms(2)] _ _ _ whole] h by simp_all
  have 2: "duration_terms orig (0 + h * 3600000000000 + m * 60000000000) ?s2 = Inr t"
      "0 + h * 3600000000000 + m * 60000000000 \<le> 2 ^ 63"
    using duration_terms_step [OF assms(2) _ _ _ _ digit [OF assms(3)] _ nonneg(1) 1(2,1)] m odd [OF fives(2)] by blast+
  have "duration_terms orig (0 + h * 3600000000000 + m * 60000000000 + s * 1000000000) [] = Inr t"
    using duration_terms_step [OF assms(3) _ _ _ _ _ _ nonneg(2) 2(2,1)] s odd [OF fives(3)] by blast
  then show ?thesis by (simp add: duration_terms.simps)
qed

end
