(* ===== verification/GoFlag.thy ===== *)
theory GoFlag
  imports GoStrings
begin

text \<open>
  Go's \<open>flag\<close> library with \<open>ExitOnError\<close>, as \<open>main\<close> uses it: the arguments are read one after the
  other until one is not a flag; a flag that is not known or a value that cannot be read ends the
  process. With the functions of \<open>strconv\<close> behind it: \<open>ParseBool\<close>, and \<open>ParseInt\<close> for base 0, which
  takes the base from a prefix and allows underscores.
\<close>

section \<open>Values\<close>

definition parse_bool :: "string \<Rightarrow> bool option" where
  "parse_bool s =
     (if s \<in> {''1'', ''t'', ''T'', ''TRUE'', ''true'', ''True''} then Some True
      else if s \<in> {''0'', ''f'', ''F'', ''FALSE'', ''false'', ''False''} then Some False
      else None)"

text \<open>The value of a digit in any base up to 36.\<close>

definition letter_value :: "char \<Rightarrow> int option" where
  "letter_value c =
     (if is_digit c then Some (digit_val c)
      else if 97 \<le> byte c \<and> byte c \<le> 122 then Some (byte c - 87)
      else if 65 \<le> byte c \<and> byte c \<le> 90 then Some (byte c - 55)
      else None)"

text \<open>The digits of a number in a base, with underscores anywhere (\<open>None\<close> for any other character).\<close>

fun base_value :: "int \<Rightarrow> int \<Rightarrow> string \<Rightarrow> int option" where
  "base_value base acc [] = Some acc"
| "base_value base acc (c # cs) =
     (if c = CHR ''_'' then base_value base acc cs
      else case letter_value c of
          None \<Rightarrow> None
        | Some d \<Rightarrow> if d < base then base_value base (acc * base + d) cs else None)"

text \<open>The base from the prefix, and the digits after it.\<close>

definition number_base :: "string \<Rightarrow> int \<times> string" where
  "number_base s =
     (if \<not> has_prefix s ''0'' then (10, s)
      else if 3 \<le> length s \<and> s ! 1 \<in> set ''bB'' then (2, drop 2 s)
      else if 3 \<le> length s \<and> s ! 1 \<in> set ''oO'' then (8, drop 2 s)
      else if 3 \<le> length s \<and> s ! 1 \<in> set ''xX'' then (16, drop 2 s)
      else (8, tl s))"

text \<open>\<open>underscoreOK\<close>: an underscore stands between digits, or between the prefix and a digit. The first
  argument says whether the digits are hexadecimal, the second what came before.\<close>

datatype saw = SawStart | SawDigit | SawUnderscore | SawOther

fun underscores_from :: "bool \<Rightarrow> saw \<Rightarrow> string \<Rightarrow> bool" where
  "underscores_from hex before [] \<longleftrightarrow> before \<noteq> SawUnderscore"
| "underscores_from hex before (c # cs) \<longleftrightarrow>
     (if is_digit c \<or> hex \<and> (97 \<le> byte c \<and> byte c \<le> 102 \<or> 65 \<le> byte c \<and> byte c \<le> 70)
      then underscores_from hex SawDigit cs
      else if c = CHR ''_'' then before = SawDigit \<and> underscores_from hex SawUnderscore cs
      else before \<noteq> SawUnderscore \<and> underscores_from hex SawOther cs)"

definition underscore_ok :: "string \<Rightarrow> bool" where
  "underscore_ok s \<longleftrightarrow>
     (if 2 \<le> length s \<and> s ! 0 = CHR ''0'' \<and> s ! 1 \<in> set ''bBoOxX''
      then underscores_from (s ! 1 \<in> set ''xX'') SawDigit (drop 2 s)
      else underscores_from False SawStart s)"

definition parse_uint_any :: "string \<Rightarrow> int option" where
  "parse_uint_any s =
     (if s = [] then None
      else case number_base s of
          (base, digits) \<Rightarrow>
            (case base_value base 0 digits of
               None \<Rightarrow> None
             | Some n \<Rightarrow> if CHR ''_'' \<in> set digits \<and> \<not> underscore_ok s then None else Some n))"

definition parse_int_any :: "string \<Rightarrow> int option" where
  "parse_int_any s =
     (let neg = has_prefix s ''-'';
          body = (if neg \<or> has_prefix s ''+'' then tl s else s)
      in case parse_uint_any body of
          None \<Rightarrow> None
        | Some n \<Rightarrow>
            if neg then (if - n < min_int64 then None else Some (- n))
            else (if max_int64 < n then None else Some n))"

section \<open>Arguments\<close>

datatype flag_kind = StringKind | BoolKind | IntKind

datatype flag_value = StringValue string | BoolValue bool | IntValue int

text \<open>An argument as a flag: its name, and the value after an equals sign.\<close>

datatype argument = NotAFlag | BadSyntax | FlagNamed string "string option"

definition flag_syntax :: "string \<Rightarrow> argument" where
  "flag_syntax s =
     (if length s < 2 \<or> \<not> has_prefix s ''-'' \<or> s = ''--'' then NotAFlag
      else
        (let name = (if has_prefix s ''--'' then drop 2 s else tl s)
         in if name = [] \<or> hd name = CHR ''-'' \<or> hd name = CHR ''='' then BadSyntax
            else FlagNamed (takeWhile (\<lambda>c. c \<noteq> CHR ''='') name)
              (if CHR ''='' \<in> set name then Some (tl (dropWhile (\<lambda>c. c \<noteq> CHR ''='') name)) else None)))"

definition read_value :: "flag_kind \<Rightarrow> string \<Rightarrow> flag_value option" where
  "read_value kind s =
     (case kind of
        StringKind \<Rightarrow> Some (StringValue s)
      | BoolKind \<Rightarrow> map_option BoolValue (parse_bool s)
      | IntKind \<Rightarrow> map_option IntValue (parse_int_any s))"

text \<open>What is read: the flags with their values in their order, or the exit code of the process. A
  Boolean flag without a value is true; any other takes the next argument.\<close>

definition prepend :: "'a \<Rightarrow> 'e + 'a list \<Rightarrow> 'e + 'a list" where
  "prepend x r = (case r of Inl err \<Rightarrow> Inl err | Inr xs \<Rightarrow> Inr (x # xs))"

fun parse_flags :: "(string \<Rightarrow> flag_kind option) \<Rightarrow> string list \<Rightarrow> int + (string \<times> flag_value) list" where
  "parse_flags kinds [] = Inr []"
| "parse_flags kinds (s # args) =
     (case flag_syntax s of
        NotAFlag \<Rightarrow> Inr []
      | BadSyntax \<Rightarrow> Inl 2
      | FlagNamed name given \<Rightarrow>
          (case kinds name of
             None \<Rightarrow> Inl (if name = ''help'' \<or> name = ''h'' then 0 else 2)
           | Some kind \<Rightarrow>
               (case (if given = None \<and> kind = BoolKind then Some ''true'' else given) of
                  Some v \<Rightarrow>
                    (case read_value kind v of
                       None \<Rightarrow> Inl 2
                     | Some x \<Rightarrow> prepend (name, x) (parse_flags kinds args))
                | None \<Rightarrow>
                    (case args of
                       [] \<Rightarrow> Inl 2
                     | v # rest \<Rightarrow>
                         (case read_value kind v of
                            None \<Rightarrow> Inl 2
                          | Some x \<Rightarrow> prepend (name, x) (parse_flags kinds rest))))))"

section \<open>Reading back what was written\<close>

definition kind_of :: "flag_value \<Rightarrow> flag_kind" where
  "kind_of v = (case v of StringValue s \<Rightarrow> StringKind | BoolValue b \<Rightarrow> BoolKind | IntValue n \<Rightarrow> IntKind)"

definition value_text :: "flag_value \<Rightarrow> string" where
  "value_text v =
     (case v of
        StringValue s \<Rightarrow> s
      | BoolValue b \<Rightarrow> if b then ''true'' else ''false''
      | IntValue n \<Rightarrow> itoa n)"

definition in_range :: "flag_value \<Rightarrow> bool" where
  "in_range v = (case v of IntValue n \<Rightarrow> min_int64 \<le> n \<and> n \<le> max_int64 | _ \<Rightarrow> True)"

text \<open>A flag can be written with one or two dashes, and its value behind an equals sign or as the next
  argument, which for a Boolean flag only the value true can do without.\<close>

datatype style = Joined | Apart

type_synonym written = "(style \<times> string) \<times> string \<times> flag_value"

fun write_flag :: "written \<Rightarrow> string list" where
  "write_flag ((style, dash), name, v) =
     (if style = Apart \<and> v = BoolValue True then [dash @ name]
      else if style = Apart \<and> kind_of v \<noteq> BoolKind then [dash @ name, value_text v]
      else [dash @ name @ ''='' @ value_text v])"

text \<open>It is written in one of these ways, for a known flag and a value of its kind.\<close>

fun well_written :: "(string \<Rightarrow> flag_kind option) \<Rightarrow> written \<Rightarrow> bool" where
  "well_written kinds ((style, dash), name, v) \<longleftrightarrow>
     (dash = ''-'' \<or> dash = ''--'') \<and> kinds name = Some (kind_of v) \<and> in_range v"

definition flag_name :: "string \<Rightarrow> bool" where
  "flag_name name \<longleftrightarrow> name \<noteq> [] \<and> hd name \<noteq> CHR ''-'' \<and> CHR ''='' \<notin> set name"

lemma letter_value_digit: "is_digit c \<Longrightarrow> letter_value c = Some (digit_val c) \<and> digit_val c < 10 \<and> c \<noteq> CHR ''_''"
  by (auto simp: letter_value_def is_digit_def digit_val_def byte_def)

lemma base_value_digits: "list_all is_digit ds \<Longrightarrow> base_value 10 acc ds = Some (acc * 10 ^ length ds + digits_val ds)"
proof (induction ds arbitrary: acc rule: rev_induct)
  case Nil
  then show ?case by (simp add: digits_val_def)
next
  case (snoc d ds)
  have app: "base_value 10 acc (xs @ ys) = (case base_value 10 acc xs of None \<Rightarrow> None | Some a \<Rightarrow> base_value 10 a ys)" for xs ys acc
    by (induction xs arbitrary: acc) (auto split: option.split)
  from snoc have "base_value 10 acc ds = Some (acc * 10 ^ length ds + digits_val ds)" "is_digit d" by simp_all
  with letter_value_digit [of d] show ?case by (simp add: app digits_val_snoc algebra_simps)
qed

lemma nat_digits_hd: "0 < n \<Longrightarrow> hd (nat_digits n) \<noteq> CHR ''0''"
proof (induction n rule: nat_digits.induct)
  case (1 n)
  show ?case
  proof (cases "n < 10")
    case True
    with 1(2) have "byte (digit_char n) \<noteq> 48" using byte_digit_char [of n] by simp
    moreover have "byte CHR ''0'' = 48" by (simp add: byte_def)
    ultimately have "digit_char n \<noteq> CHR ''0''" by metis
    then show ?thesis using True by (auto simp: nat_digits.simps [of n])
  next
    case False
    then have "0 < n div 10" by linarith
    with 1(1) False have "hd (nat_digits (n div 10)) \<noteq> CHR ''0''" by simp
    with False show ?thesis by (simp add: nat_digits.simps [of n])
  qed
qed

lemma parse_uint_any_digits:
  assumes "0 \<le> n"
  shows "parse_uint_any (nat_digits n) = Some n"
proof (cases "n = 0")
  case True
  have "parse_uint_any (nat_digits 0) = Some 0" by code_simp
  then show ?thesis by (simp add: True)
next
  case False
  have digits: "list_all is_digit (nat_digits n)" by (rule nat_digits_digits [OF assms])
  have "hd (nat_digits n) \<noteq> CHR ''0''" using False assms by (intro nat_digits_hd) simp
  then have "\<not> has_prefix (nat_digits n) ''0''" by (cases "nat_digits n") auto
  then have base: "number_base (nat_digits n) = (10, nat_digits n)" by (simp add: number_base_def)
  have "CHR ''_'' \<notin> set (nat_digits n)" using digits by (auto simp: list_all_iff is_digit_def byte_def)
  moreover have "base_value 10 0 (nat_digits n) = Some n"
    using base_value_digits [OF digits, of 0] by (simp add: digits_val_nat_digits [OF assms])
  ultimately show ?thesis by (simp add: parse_uint_any_def base)
qed

lemma parse_int_any_itoa:
  assumes "min_int64 \<le> n" and "n \<le> max_int64"
  shows "parse_int_any (itoa n) = Some n"
proof (cases "n < 0")
  case True
  then have "parse_uint_any (nat_digits (- n)) = Some (- n)" by (intro parse_uint_any_digits) simp
  with True assms show ?thesis by (simp add: parse_int_any_def itoa_def Let_def has_prefix_def)
next
  case False
  then have "list_all is_digit (nat_digits n)" by (intro nat_digits_digits) simp
  then have "\<not> has_prefix (nat_digits n) ''-''" "\<not> has_prefix (nat_digits n) ''+''"
    using not_digit_sign by (cases "nat_digits n"; auto)+
  moreover have "parse_uint_any (nat_digits n) = Some n" using False by (intro parse_uint_any_digits) simp
  ultimately show ?thesis using False assms by (simp add: parse_int_any_def itoa_def Let_def)
qed

lemma read_value_text: "in_range v \<Longrightarrow> read_value (kind_of v) (value_text v) = Some v"
  by (cases v) (auto simp: read_value_def kind_of_def value_text_def in_range_def parse_bool_def parse_int_any_itoa)

lemma flag_syntax_written:
  assumes "flag_name name" and "dash = ''-'' \<or> dash = ''--''"
  shows "flag_syntax (dash @ name) = FlagNamed name None"
    and "flag_syntax (dash @ name @ CHR ''='' # x) = FlagNamed name (Some x)"
proof -
  obtain c cs where n: "name = c # cs" "c \<noteq> CHR ''-''" "c \<noteq> CHR ''=''" "CHR ''='' \<notin> set cs"
    using assms(1) by (cases name) (auto simp: flag_name_def)
  have cut: "takeWhile (\<lambda>c. c \<noteq> CHR ''='') cs = cs" "takeWhile (\<lambda>c. c \<noteq> CHR ''='') (cs @ CHR ''='' # x) = cs"
      "dropWhile (\<lambda>c. c \<noteq> CHR ''='') (cs @ CHR ''='' # x) = CHR ''='' # x"
    using n(4) by (induction cs) auto
  show "flag_syntax (dash @ name) = FlagNamed name None"
    using assms(2) n by (auto simp: flag_syntax_def has_prefix_def cut)
  show "flag_syntax (dash @ name @ CHR ''='' # x) = FlagNamed name (Some x)"
    using assms(2) n by (auto simp: flag_syntax_def has_prefix_def cut)
qed

lemma parse_written_flag:
  assumes "well_written kinds ((style, dash), name, v)" and "flag_name name"
  shows "parse_flags kinds (write_flag ((style, dash), name, v) @ args) = prepend (name, v) (parse_flags kinds args)"
proof -
  have d: "dash = ''-'' \<or> dash = ''--''" and k: "kinds name = Some (kind_of v)" and r: "in_range v" using assms(1) by simp_all
  note written = flag_syntax_written [OF assms(2) d]
  have bare: "read_value BoolKind ''true'' = Some (BoolValue True)" by (simp add: read_value_def parse_bool_def)
  show ?thesis
    using read_value_text [OF r] bare k by (auto simp: written kind_of_def split: flag_value.splits)
qed

lemma parse_written_flags:
  assumes "list_all (well_written kinds) items" and "\<And>name k. kinds name = Some k \<Longrightarrow> flag_name name"
  shows "parse_flags kinds (concat (map write_flag items) @ args) =
    (case parse_flags kinds args of Inl code \<Rightarrow> Inl code | Inr vs \<Rightarrow> Inr (map snd items @ vs))"
  using assms(1)
proof (induction items)
  case Nil
  then show ?case by (simp split: sum.split)
next
  case (Cons i items)
  obtain st dash name v where i: "i = ((st, dash), name, v)" by (metis prod.exhaust)
  with Cons.prems have w: "well_written kinds ((st, dash), name, v)" by simp
  then have "flag_name name" using assms(2) by simp
  from parse_written_flag [OF w this]
  have "parse_flags kinds (concat (map write_flag (i # items)) @ args) =
      prepend (name, v) (parse_flags kinds (concat (map write_flag items) @ args))"
    by (simp add: i del: write_flag.simps)
  with Cons show ?case by (simp add: prepend_def i del: write_flag.simps split: sum.split)
qed

end
