(* ===== verification/Startup.thy ===== *)
theory Startup
  imports Http GoTime GoFlag
begin

text \<open>
  The program (\<open>main.go\<close>): flags with their environment variables, logging, the checks, the files
  that are loaded, the exporter, and what the process serves in the end.
\<close>

section \<open>Environment variables and flags\<close>

text \<open>The environment of the process is a function (\<open>os.LookupEnv\<close>).\<close>

type_synonym os = "string \<Rightarrow> string option"

definition getEnv :: "os \<Rightarrow> string \<Rightarrow> string \<Rightarrow> string" where
  "getEnv os key defaultVal = (case os key of Some envVal \<Rightarrow> envVal | None \<Rightarrow> defaultVal)"

definition getEnvBool :: "os \<Rightarrow> string \<Rightarrow> bool \<Rightarrow> bool" where
  "getEnvBool os key defaultVal =
     (case os key of
        Some envVal \<Rightarrow> (case parse_bool envVal of Some b \<Rightarrow> b | None \<Rightarrow> defaultVal)
      | None \<Rightarrow> defaultVal)"

definition getEnvInt64 :: "os \<Rightarrow> string \<Rightarrow> int \<Rightarrow> int" where
  "getEnvInt64 os key defaultVal =
     (case os key of
        Some envVal \<Rightarrow> (case parse_int envVal of (n, None) \<Rightarrow> n | (n, Some err) \<Rightarrow> defaultVal)
      | None \<Rightarrow> defaultVal)"

text \<open>The flags of \<open>main\<close>: the name, the environment variable that gives the default, and the default
  without it. (\<open>version\<close> has no variable.)\<close>

definition string_flags :: "(string \<times> string \<times> string) list" where
  "string_flags =
     [(''redis.addr'', ''REDIS_ADDR'', ''redis://localhost:6379''),
      (''redis.user'', ''REDIS_USER'', []),
      (''redis.password'', ''REDIS_PASSWORD'', []),
      (''redis.password-file'', ''REDIS_PASSWORD_FILE'', []),
      (''namespace'', ''REDIS_EXPORTER_NAMESPACE'', ''redis''),
      (''check-keys'', ''REDIS_EXPORTER_CHECK_KEYS'', []),
      (''check-single-keys'', ''REDIS_EXPORTER_CHECK_SINGLE_KEYS'', []),
      (''check-key-groups'', ''REDIS_EXPORTER_CHECK_KEY_GROUPS'', []),
      (''check-streams'', ''REDIS_EXPORTER_CHECK_STREAMS'', []),
      (''check-single-streams'', ''REDIS_EXPORTER_CHECK_SINGLE_STREAMS'', []),
      (''count-keys'', ''REDIS_EXPORTER_COUNT_KEYS'', []),
      (''script'', ''REDIS_EXPORTER_SCRIPT'', []),
      (''web.listen-address'', ''REDIS_EXPORTER_WEB_LISTEN_ADDRESS'', '':9121''),
      (''web.telemetry-path'', ''REDIS_EXPORTER_WEB_TELEMETRY_PATH'', ''/metrics''),
      (''config-command'', ''REDIS_EXPORTER_CONFIG_COMMAND'', ''CONFIG''),
      (''connection-timeout'', ''REDIS_EXPORTER_CONNECTION_TIMEOUT'', ''15s''),
      (''tls-client-key-file'', ''REDIS_EXPORTER_TLS_CLIENT_KEY_FILE'', []),
      (''tls-client-cert-file'', ''REDIS_EXPORTER_TLS_CLIENT_CERT_FILE'', []),
      (''tls-ca-cert-file'', ''REDIS_EXPORTER_TLS_CA_CERT_FILE'', []),
      (''tls-server-key-file'', ''REDIS_EXPORTER_TLS_SERVER_KEY_FILE'', []),
      (''tls-server-cert-file'', ''REDIS_EXPORTER_TLS_SERVER_CERT_FILE'', []),
      (''tls-server-ca-cert-file'', ''REDIS_EXPORTER_TLS_SERVER_CA_CERT_FILE'', []),
      (''tls-server-min-version'', ''REDIS_EXPORTER_TLS_SERVER_MIN_VERSION'', ''TLS1.2''),
      (''log-level'', ''REDIS_EXPORTER_LOG_LEVEL'', ''INFO''),
      (''log-format'', ''REDIS_EXPORTER_LOG_FORMAT'', ''txt''),
      (''check-search-indexes'', ''REDIS_EXPORTER_CHECK_SEARCH_INDEXES'', ''.*''),
      (''basic-auth-username'', ''REDIS_EXPORTER_BASIC_AUTH_USERNAME'', []),
      (''basic-auth-password'', ''REDIS_EXPORTER_BASIC_AUTH_PASSWORD'', []),
      (''basic-auth-hash-password'', ''REDIS_EXPORTER_BASIC_AUTH_HASH_PASSWORD'', [])]"

definition bool_flags :: "(string \<times> string \<times> bool) list" where
  "bool_flags =
     [(''streams-exclude-consumer-metrics'', ''REDIS_EXPORTER_STREAMS_EXCLUDE_CONSUMER_METRICS'', False),
      (''debug'', ''REDIS_EXPORTER_DEBUG'', False),
      (''set-client-name'', ''REDIS_EXPORTER_SET_CLIENT_NAME'', True),
      (''is-tile38'', ''REDIS_EXPORTER_IS_TILE38'', False),
      (''is-cluster'', ''REDIS_EXPORTER_IS_CLUSTER'', False),
      (''export-client-list'', ''REDIS_EXPORTER_EXPORT_CLIENT_LIST'', False),
      (''export-client-port'', ''REDIS_EXPORTER_EXPORT_CLIENT_PORT'', False),
      (''redis-only-metrics'', ''REDIS_EXPORTER_REDIS_ONLY_METRICS'', False),
      (''include-go-runtime-metrics'', ''REDIS_EXPORTER_INCLUDE_GO_RUNTIME_METRICS'', False),
      (''ping-on-connect'', ''REDIS_EXPORTER_PING_ON_CONNECT'', False),
      (''include-config-metrics'', ''REDIS_EXPORTER_INCL_CONFIG_METRICS'', False),
      (''include-modules-metrics'', ''REDIS_EXPORTER_INCL_MODULES_METRICS'', False),
      (''include-search-indexes-metrics'', ''REDIS_EXPORTER_INCL_SEARCH_INDEXES_METRICS'', False),
      (''disable-exporting-key-values'', ''REDIS_EXPORTER_DISABLE_EXPORTING_KEY_VALUES'', False),
      (''exclude-latency-histogram-metrics'', ''REDIS_EXPORTER_EXCLUDE_LATENCY_HISTOGRAM_METRICS'', False),
      (''redact-config-metrics'', ''REDIS_EXPORTER_REDACT_CONFIG_METRICS'', True),
      (''include-system-metrics'', ''REDIS_EXPORTER_INCL_SYSTEM_METRICS'', False),
      (''skip-tls-verification'', ''REDIS_EXPORTER_SKIP_TLS_VERIFICATION'', False),
      (''skip-checkkeys-for-role-master'', ''REDIS_EXPORTER_SKIP_CHECKKEYS_FOR_ROLE_MASTER'', False),
      (''include-metrics-for-empty-databases'', ''REDIS_EXPORTER_INCL_METRICS_FOR_EMPTY_DATABASES'', True)]"

definition int_flags :: "(string \<times> string \<times> int) list" where
  "int_flags =
     [(''check-keys-batch-size'', ''REDIS_EXPORTER_CHECK_KEYS_BATCH_SIZE'', 1000),
      (''max-distinct-key-groups'', ''REDIS_EXPORTER_MAX_DISTINCT_KEY_GROUPS'', 100)]"

text \<open>What the flag library read from the command line: the flags that were given, with their values.\<close>

record command_line =
  given_string :: "string \<Rightarrow> string option"
  given_bool :: "string \<Rightarrow> bool option"
  given_int :: "string \<Rightarrow> int option"

text \<open>The flags the library knows, and what it hands to \<open>main\<close>: of a flag that is given twice the last value.
  An argument it cannot read ends the process with its exit code.\<close>

definition flag_kinds :: "string \<Rightarrow> flag_kind option" where
  "flag_kinds name =
     (if name \<in> set (map fst string_flags) then Some StringKind
      else if name = ''version'' \<or> name \<in> set (map fst bool_flags) then Some BoolKind
      else if name \<in> set (map fst int_flags) then Some IntKind
      else None)"

definition given_flags :: "(string \<times> flag_value) list \<Rightarrow> command_line" where
  "given_flags vs =
     \<lparr>given_string = (\<lambda>name. case map_of (rev vs) name of Some (StringValue s) \<Rightarrow> Some s | _ \<Rightarrow> None),
      given_bool = (\<lambda>name. case map_of (rev vs) name of Some (BoolValue b) \<Rightarrow> Some b | _ \<Rightarrow> None),
      given_int = (\<lambda>name. case map_of (rev vs) name of Some (IntValue n) \<Rightarrow> Some n | _ \<Rightarrow> None)\<rparr>"

definition command_line_read :: "string list \<Rightarrow> int + command_line" where
  "command_line_read args =
     (case parse_flags flag_kinds args of Inl code \<Rightarrow> Inl code | Inr vs \<Rightarrow> Inr (given_flags vs))"

definition string_flag :: "os \<Rightarrow> command_line \<Rightarrow> string \<Rightarrow> string" where
  "string_flag os cl name =
     (case given_string cl name of
        Some v \<Rightarrow> v
      | None \<Rightarrow> (case map_of string_flags name of Some (key, d) \<Rightarrow> getEnv os key d | None \<Rightarrow> []))"

definition bool_flag :: "os \<Rightarrow> command_line \<Rightarrow> string \<Rightarrow> bool" where
  "bool_flag os cl name =
     (case given_bool cl name of
        Some b \<Rightarrow> b
      | None \<Rightarrow> (case map_of bool_flags name of Some (key, d) \<Rightarrow> getEnvBool os key d | None \<Rightarrow> False))"

definition int_flag :: "os \<Rightarrow> command_line \<Rightarrow> string \<Rightarrow> int" where
  "int_flag os cl name =
     (case given_int cl name of
        Some n \<Rightarrow> n
      | None \<Rightarrow> (case map_of int_flags name of Some (key, d) \<Rightarrow> getEnvInt64 os key d | None \<Rightarrow> 0))"

section \<open>Logging\<close>

datatype level = DebugLevel | InfoLevel | WarnLevel | ErrorLevel

datatype formatter = JSONFormatter | TextFormatter

text \<open>\<open>strings.ToUpper\<close>, as far as the result can be ASCII: two letters outside ASCII, the dotless i
  and the long s, become ASCII letters; all others stay outside.\<close>

definition upper_char :: "char \<Rightarrow> char" where
  "upper_char c = (if 97 \<le> byte c \<and> byte c \<le> 122 then char_of (byte c - 32) else c)"

fun to_upper :: "string \<Rightarrow> string" where
  "to_upper (a # b # cs) =
     (if [a, b] = [CHR 0xC4, CHR 0xB1] then CHR ''I'' # to_upper cs
      else if [a, b] = [CHR 0xC5, CHR 0xBF] then CHR ''S'' # to_upper cs
      else upper_char a # to_upper (b # cs))"
| "to_upper cs = map upper_char cs"

definition parseLogLevel :: "string \<Rightarrow> level \<times> string option" where
  "parseLogLevel lvl =
     (let u = to_upper lvl in
      if u = ''DEBUG'' then (DebugLevel, None)
      else if u = ''INFO'' then (InfoLevel, None)
      else if u = ''WARN'' \<or> u = ''WARNING'' then (WarnLevel, None)
      else if u = ''ERROR'' then (ErrorLevel, None)
      else (InfoLevel, Some (''invalid log level: '' @ lvl)))"

definition setupLogging :: "bool \<Rightarrow> string \<Rightarrow> string \<Rightarrow> formatter \<times> level" where
  "setupLogging isDebug logLevel logFormat =
     ((if logFormat = ''json'' then JSONFormatter else TextFormatter),
      (if isDebug then DebugLevel
       else case parseLogLevel logLevel of (parsedLvl, None) \<Rightarrow> parsedLvl | (_, Some err) \<Rightarrow> InfoLevel))"

section \<open>Checks and files\<close>

definition validateTLSClientConfig :: "string \<Rightarrow> string \<Rightarrow> string option" where
  "validateTLSClientConfig certFile keyFile =
     (if (certFile \<noteq> []) \<noteq> (keyFile \<noteq> [])
      then Some ''TLS client key file and cert file should both be present'' else None)"

definition validateAuthParams :: "'c env \<Rightarrow> string \<Rightarrow> string \<Rightarrow> string option" where
  "validateAuthParams env basicAuthPassword basicAuthHashPassword =
     (if basicAuthPassword \<noteq> [] \<and> basicAuthHashPassword \<noteq> []
      then Some ''cannot set both basic auth password and basic auth hash password''
      else if basicAuthHashPassword \<noteq> [] then bcrypt_cost_error env basicAuthHashPassword
      else None)"

definition readFile :: "'c env \<Rightarrow> string \<Rightarrow> ('c, string goresult) io" where
  "readFile env name = bnd (gets net) (\<lambda>n. ret (read_file env name n))"

fun readScripts ::
  "'c env \<Rightarrow> string list \<Rightarrow> (string \<times> string) list \<Rightarrow> ('c, (string \<times> string) list goresult) io" where
  "readScripts env [] ls = ret (Inr ls)"
| "readScripts env (script # scripts) ls =
     bnd (readFile env script) (\<lambda>r.
       case r of
         Inl err \<Rightarrow> ret (Inl err)
       | Inr scriptContent \<Rightarrow> readScripts env scripts (put script scriptContent ls))"

definition loadScripts :: "'c env \<Rightarrow> string \<Rightarrow> ('c, (string \<times> string) list goresult) io" where
  "loadScripts env scriptPath =
     (if scriptPath = [] then ret (Inr []) else readScripts env (go_split scriptPath '','') [])"

definition createPrometheusRegistry :: "bool \<Rightarrow> bool \<Rightarrow> outsideCollector list" where
  "createPrometheusRegistry redisMetricsOnly inclGoRuntimeMetrics =
     (if redisMetricsOnly then []
      else ProcessCollector # (if inclGoRuntimeMetrics then [GoCollector] else []))"


section \<open>The program\<close>

datatype listener = Plain | OverTLS server_tls_config

text \<open>How \<open>main\<close> goes: the flag library ends it with an exit code, it ends after printing the version, it
  ends with a fatal message, or it serves the exporter, with the other collectors of the registry and the
  settings of the log, at an address.\<close>

datatype result =
    Misused int
  | Exited
  | Fatal string
  | Serving Exporter "outsideCollector list" "formatter \<times> level" string listener

definition main_options ::
  "os \<Rightarrow> command_line \<Rightarrow> int \<Rightarrow> (string \<times> string) list \<Rightarrow> (string \<times> string) list \<Rightarrow> Options" where
  "main_options os cl timeout passwordMap ls =
     (let str = string_flag os cl; bool = bool_flag os cl; int = int_flag os cl in
      \<lparr>User = str ''redis.user'',
       Password = str ''redis.password'',
       Namespace = str ''namespace'',
       PasswordMap = passwordMap,
       ConfigCommandName = str ''config-command'',
       CheckKeys = str ''check-keys'',
       CheckSingleKeys = str ''check-single-keys'',
       CheckStreams = str ''check-streams'',
       CheckSingleStreams = str ''check-single-streams'',
       StreamsExcludeConsumerMetrics = bool ''streams-exclude-consumer-metrics'',
       CheckKeysBatchSize = int ''check-keys-batch-size'',
       CheckKeyGroups = str ''check-key-groups'',
       MaxDistinctKeyGroups = int ''max-distinct-key-groups'',
       CountKeys = str ''count-keys'',
       LuaScript = ls,
       ClientCertFile = str ''tls-client-cert-file'',
       ClientKeyFile = str ''tls-client-key-file'',
       CaCertFile = str ''tls-ca-cert-file'',
       InclConfigMetrics = bool ''include-config-metrics'',
       InclModulesMetrics = bool ''include-modules-metrics'',
       InclSearchIndexesMetrics = bool ''include-search-indexes-metrics'',
       CheckSearchIndexes = str ''check-search-indexes'',
       DisableExportingKeyValues = bool ''disable-exporting-key-values'',
       ExcludeLatencyHistogramMetrics = bool ''exclude-latency-histogram-metrics'',
       RedactConfigMetrics = bool ''redact-config-metrics'',
       InclSystemMetrics = bool ''include-system-metrics'',
       SkipTLSVerification = bool ''skip-tls-verification'',
       SetClientName = bool ''set-client-name'',
       IsTile38 = bool ''is-tile38'',
       IsCluster = bool ''is-cluster'',
       ExportClientList = bool ''export-client-list'',
       ExportClientsInclPort = bool ''export-client-port'',
       ConnectionTimeouts = timeout,
       MetricsPath = str ''web.telemetry-path'',
       RedisMetricsOnly = bool ''redis-only-metrics'',
       PingOnConnect = bool ''ping-on-connect'',
       RedisPwdFile = str ''redis.password-file'',
       BasicAuthUsername = str ''basic-auth-username'',
       BasicAuthPassword = str ''basic-auth-password'',
       BasicAuthHashPassword = str ''basic-auth-hash-password'',
       SkipCheckKeysForRoleMaster = bool ''skip-checkkeys-for-role-master'',
       InclMetricsForEmptyDatabases = bool ''include-metrics-for-empty-databases''\<rparr>)"

text \<open>The passwords: the file is read only without a password on the command line.\<close>

definition initialPasswords :: "'c env \<Rightarrow> string \<Rightarrow> string \<Rightarrow> ('c, (string \<times> string) list goresult) io" where
  "initialPasswords env redisPwd redisPwdFile =
     (if redisPwd = [] \<and> redisPwdFile \<noteq> [] then LoadPwdFile env redisPwdFile else ret (Inr []))"

text \<open>The server of the web interface; it is started in the background, where an error ends the
  process too.\<close>

definition startServer ::
  "'c env \<Rightarrow> os \<Rightarrow> command_line \<Rightarrow> (listener \<Rightarrow> result) \<Rightarrow> ('c, result) io" where
  "startServer env os cl serve =
     (let cert = string_flag os cl ''tls-server-cert-file''; key = string_flag os cl ''tls-server-key-file'' in
      if cert \<noteq> [] \<and> key \<noteq> [] then
        bnd (CreateServerTLSConfig env cert key (string_flag os cl ''tls-server-ca-cert-file'')
              (string_flag os cl ''tls-server-min-version'')) (\<lambda>r.
          case r of
            Inl err \<Rightarrow> ret (Fatal err)
          | Inr tlsConfig \<Rightarrow> ret (serve (OverTLS tlsConfig)))
      else ret (serve Plain))"

text \<open>After the exporter is made: the checks of the credentials and of the client's TLS files.\<close>

definition checkAndServe ::
  "'c env \<Rightarrow> os \<Rightarrow> command_line \<Rightarrow> formatter \<times> level \<Rightarrow> Exporter \<Rightarrow> ('c, result) io" where
  "checkAndServe env os cl logging e =
     (let str = string_flag os cl in
      case validateAuthParams env (str ''basic-auth-password'') (str ''basic-auth-hash-password'') of
        Some err \<Rightarrow> ret (Fatal err)
      | None \<Rightarrow>
          (case validateTLSClientConfig (str ''tls-client-cert-file'') (str ''tls-client-key-file'') of
             Some err \<Rightarrow> ret (Fatal err)
           | None \<Rightarrow>
               bnd (CreateClientTLSConfig env e) (\<lambda>r.
                 case r of
                   Inl err \<Rightarrow> ret (Fatal err)
                 | Inr conf \<Rightarrow>
                     startServer env os cl
                       (Serving e
                         (createPrometheusRegistry (bool_flag os cl ''redis-only-metrics'')
                           (bool_flag os cl ''include-go-runtime-metrics''))
                         logging (str ''web.listen-address'')))))"

text \<open>What the registry holds when the exporter is made: what its other collectors describe.\<close>

definition main_registry :: "'c env \<Rightarrow> os \<Rightarrow> command_line \<Rightarrow> desc list" where
  "main_registry env os cl =
     concat (map (outside_descs env)
       (createPrometheusRegistry (bool_flag os cl ''redis-only-metrics'') (bool_flag os cl ''include-go-runtime-metrics'')))"

definition makeExporter ::
  "'c env \<Rightarrow> os \<Rightarrow> command_line \<Rightarrow> BuildInfo \<Rightarrow> int \<Rightarrow> (string \<times> string) list \<Rightarrow> ('c, Exporter goresult) io" where
  "makeExporter env os cl build timeout passwordMap =
     bnd (loadScripts env (string_flag os cl ''script'')) (\<lambda>r.
       case r of
         Inl err \<Rightarrow> ret (Inl (''Error loading script files: '' @ err))
       | Inr ls \<Rightarrow>
           NewRedisExporter env (main_registry env os cl) (string_flag os cl ''redis.addr'')
             (main_options os cl timeout passwordMap ls) build)"

definition main_program :: "'c env \<Rightarrow> os \<Rightarrow> command_line \<Rightarrow> BuildInfo \<Rightarrow> ('c, result) io" where
  "main_program env os cl build =
     (let str = string_flag os cl;
          logging = setupLogging (bool_flag os cl ''debug'') (str ''log-level'') (str ''log-format'')
      in if bool_flag os cl ''version'' then ret Exited
         else case parse_duration (str ''connection-timeout'') of
             Inl err \<Rightarrow> ret (Fatal (''Couldn't parse connection timeout duration, err: '' @ err))
           | Inr timeout \<Rightarrow>
               bnd (initialPasswords env (str ''redis.password'') (str ''redis.password-file'')) (\<lambda>p.
                 case p of
                   Inl err \<Rightarrow>
                     ret (Fatal (''Error loading redis passwords from file '' @ str ''redis.password-file'' @ '', err: '' @ err))
                 | Inr passwordMap \<Rightarrow>
                     bnd (makeExporter env os cl build timeout passwordMap) (\<lambda>r.
                       case r of
                         Inl err \<Rightarrow> ret (Fatal err)
                       | Inr e \<Rightarrow> checkAndServe env os cl logging e)))"


definition run_main :: "'c env \<Rightarrow> os \<Rightarrow> string list \<Rightarrow> BuildInfo \<Rightarrow> ('c, result) io" where
  "run_main env os args build =
     (case command_line_read args of
        Inl code \<Rightarrow> ret (Misused code)
      | Inr cl \<Rightarrow> main_program env os cl build)"

text \<open>What happens while it serves, and how the process ends: an error of the listener that is not its
  closing ends it at once; a signal makes it shut the server down, which may fail or time out.\<close>

datatype happening = ListenerFailed string | ListenerClosed | Signalled string

datatype ending = Finished | Died string

fun wait_for_end :: "listener \<Rightarrow> string option \<Rightarrow> happening list \<Rightarrow> ending option" where
  "wait_for_end l shutdown [] = None"
| "wait_for_end l shutdown (ListenerFailed err # hs) =
     Some (Died ((case l of OverTLS conf \<Rightarrow> ''TLS Server error: '' | Plain \<Rightarrow> ''Server error: '') @ err))"
| "wait_for_end l shutdown (ListenerClosed # hs) = wait_for_end l shutdown hs"
| "wait_for_end l shutdown (Signalled sig # hs) =
     Some (case shutdown of Some err \<Rightarrow> Died (''Server shutdown failed: '' @ err) | None \<Rightarrow> Finished)"

section \<open>Flags\<close>

lemma flag_names_distinct:
  "distinct (map fst string_flags)" "distinct (map fst bool_flags)" "distinct (map fst int_flags)"
  by code_simp+

text \<open>A flag that is not given on the command line has the value of its environment variable, or its
  default when the variable is not set or, for flags that are not strings, cannot be read; a flag that is
  given has the given value whatever the environment says.\<close>

lemma flag_values:
  assumes "(s, skey, sd) \<in> set string_flags" and "(b, bkey, bd) \<in> set bool_flags" and "(i, ikey, d) \<in> set int_flags"
  shows "string_flag os cl s =
      (case given_string cl s of Some v \<Rightarrow> v | None \<Rightarrow> (case os skey of Some v \<Rightarrow> v | None \<Rightarrow> sd)) \<and>
    bool_flag os cl b =
      (case given_bool cl b of
         Some v \<Rightarrow> v
       | None \<Rightarrow> (case os bkey of None \<Rightarrow> bd | Some txt \<Rightarrow> if parse_bool txt = None then bd else parse_bool txt = Some True)) \<and>
    int_flag os cl i =
      (case given_int cl i of
         Some v \<Rightarrow> v
       | None \<Rightarrow> (case os ikey of None \<Rightarrow> d | Some txt \<Rightarrow> if snd (parse_int txt) = None then fst (parse_int txt) else d))"
proof -
  have "map_of string_flags s = Some (skey, sd)" "map_of bool_flags b = Some (bkey, bd)" "map_of int_flags i = Some (ikey, d)"
    using assms flag_names_distinct by simp_all
  then show ?thesis
    by (auto simp: string_flag_def bool_flag_def int_flag_def getEnv_def getEnvBool_def getEnvInt64_def
        split: option.split prod.split)
qed

definition no_flags :: command_line where
  "no_flags = \<lparr>given_string = Map.empty, given_bool = Map.empty, given_int = Map.empty\<rparr>"

lemma flag_kinds_names: "flag_kinds name = Some k \<Longrightarrow> flag_name name"
proof -
  have "list_all flag_name (''version'' # map fst string_flags @ map fst bool_flags @ map fst int_flags)" by code_simp
  then show "flag_kinds name = Some k \<Longrightarrow> ?thesis" by (auto simp: flag_kinds_def list_all_iff split: if_splits)
qed

lemma flag_kinds_disjoint:
  "name \<in> set (map fst string_flags) \<Longrightarrow> flag_kinds name = Some StringKind"
  "name \<in> set (map fst bool_flags) \<Longrightarrow> flag_kinds name = Some BoolKind"
  "name \<in> set (map fst int_flags) \<Longrightarrow> flag_kinds name = Some IntKind"
proof -
  have "list_all (\<lambda>n. n \<notin> set (map fst string_flags)) (map fst bool_flags @ map fst int_flags)"
    "list_all (\<lambda>n. n \<noteq> ''version'' \<and> n \<notin> set (map fst bool_flags)) (map fst int_flags)" by code_simp+
  then show "name \<in> set (map fst string_flags) \<Longrightarrow> flag_kinds name = Some StringKind"
    "name \<in> set (map fst bool_flags) \<Longrightarrow> flag_kinds name = Some BoolKind"
    "name \<in> set (map fst int_flags) \<Longrightarrow> flag_kinds name = Some IntKind"
    unfolding flag_kinds_def list_all_iff by auto
qed

text \<open>C27: the command line is read as it was written, with one or two dashes, the values behind an equals
  sign or as arguments of their own: every flag has the value it was given last, else that of its
  environment variable when this is set and can be read, else its default; a flag that is not known ends
  the process, without an error only when it asks for help.\<close>

theorem arguments_read:
  assumes "list_all (well_written flag_kinds) items"
    and "(s, skey, sd) \<in> set string_flags" and "(b, bkey, bd) \<in> set bool_flags" and "(i, ikey, d) \<in> set int_flags"
  defines "latest \<equiv> map_of (rev (map snd items))"
  shows "(\<exists>cl. command_line_read (concat (map write_flag items)) = Inr cl \<and>
      string_flag os cl s =
        (case latest s of Some (StringValue v) \<Rightarrow> v | _ \<Rightarrow> (case os skey of Some v \<Rightarrow> v | None \<Rightarrow> sd)) \<and>
      bool_flag os cl b =
        (case latest b of
           Some (BoolValue v) \<Rightarrow> v
         | _ \<Rightarrow> (case os bkey of None \<Rightarrow> bd | Some txt \<Rightarrow> if parse_bool txt = None then bd else parse_bool txt = Some True)) \<and>
      int_flag os cl i =
        (case latest i of
           Some (IntValue v) \<Rightarrow> v
         | _ \<Rightarrow> (case os ikey of None \<Rightarrow> d | Some txt \<Rightarrow> if snd (parse_int txt) = None then fst (parse_int txt) else d))) \<and>
    (\<forall>name rest. flag_name name \<and> flag_kinds name = None \<longrightarrow>
      command_line_read (concat (map write_flag items) @ (''--'' @ name) # rest) =
        Inl (if name = ''help'' \<or> name = ''h'' then 0 else 2))"
proof (intro conjI allI impI)
  have "parse_flags flag_kinds (concat (map write_flag items) @ []) =
      (case parse_flags flag_kinds [] of Inl code \<Rightarrow> Inl code | Inr vs \<Rightarrow> Inr (map snd items @ vs))"
    by (rule parse_written_flags [OF assms(1) flag_kinds_names])
  then have "command_line_read (concat (map write_flag items)) = Inr (given_flags (map snd items))"
    by (simp add: command_line_read_def del: write_flag.simps)
  moreover let ?cl = "given_flags (map snd items)"
  note effective = flag_values [OF assms(2-4), of os ?cl]
  have "string_flag os ?cl s =
      (case latest s of Some (StringValue v) \<Rightarrow> v | _ \<Rightarrow> (case os skey of Some v \<Rightarrow> v | None \<Rightarrow> sd))"
    using effective by (auto simp: given_flags_def latest_def split: option.split flag_value.split)
  moreover have "bool_flag os ?cl b =
      (case latest b of
         Some (BoolValue v) \<Rightarrow> v
       | _ \<Rightarrow> (case os bkey of None \<Rightarrow> bd | Some txt \<Rightarrow> if parse_bool txt = None then bd else parse_bool txt = Some True))"
    using effective by (auto simp: given_flags_def latest_def split: option.split flag_value.split)
  moreover have "int_flag os ?cl i =
      (case latest i of
         Some (IntValue v) \<Rightarrow> v
       | _ \<Rightarrow> (case os ikey of None \<Rightarrow> d | Some txt \<Rightarrow> if snd (parse_int txt) = None then fst (parse_int txt) else d))"
    using effective by (auto simp: given_flags_def latest_def split: option.split flag_value.split)
  ultimately show "\<exists>cl. command_line_read (concat (map write_flag items)) = Inr cl \<and>
      string_flag os cl s =
        (case latest s of Some (StringValue v) \<Rightarrow> v | _ \<Rightarrow> (case os skey of Some v \<Rightarrow> v | None \<Rightarrow> sd)) \<and>
      bool_flag os cl b =
        (case latest b of
           Some (BoolValue v) \<Rightarrow> v
         | _ \<Rightarrow> (case os bkey of None \<Rightarrow> bd | Some txt \<Rightarrow> if parse_bool txt = None then bd else parse_bool txt = Some True)) \<and>
      int_flag os cl i =
        (case latest i of
           Some (IntValue v) \<Rightarrow> v
         | _ \<Rightarrow> (case os ikey of None \<Rightarrow> d | Some txt \<Rightarrow> if snd (parse_int txt) = None then fst (parse_int txt) else d))"
    by blast
next
  fix name rest
  assume "flag_name name \<and> flag_kinds name = None"
  then have "parse_flags flag_kinds ((''--'' @ name) # rest) = Inl (if name = ''help'' \<or> name = ''h'' then 0 else 2)"
    using flag_syntax_written(1) [of name "''--''"] by simp
  moreover have "parse_flags flag_kinds (concat (map write_flag items) @ (''--'' @ name) # rest) =
      (case parse_flags flag_kinds ((''--'' @ name) # rest) of Inl code \<Rightarrow> Inl code | Inr vs \<Rightarrow> Inr (map snd items @ vs))"
    by (rule parse_written_flags [OF assms(1) flag_kinds_names])
  ultimately show "command_line_read (concat (map write_flag items) @ (''--'' @ name) # rest) =
      Inl (if name = ''help'' \<or> name = ''h'' then 0 else 2)"
    by (simp add: command_line_read_def del: parse_flags.simps write_flag.simps)
qed

theorem arguments_read_witness:
  "\<exists>cl. command_line_read [''--redis.addr=redis://db'', ''-debug'', ''--max-distinct-key-groups'', ''5''] = Inr cl \<and>
     string_flag [''REDIS_ADDR'' \<mapsto> ''other''] cl ''redis.addr'' = ''redis://db'' \<and>
     bool_flag [''REDIS_ADDR'' \<mapsto> ''other''] cl ''debug'' \<and>
     int_flag [''REDIS_ADDR'' \<mapsto> ''other''] cl ''max-distinct-key-groups'' = 5"
proof -
  let ?items = "[((Joined, ''--''), ''redis.addr'', StringValue ''redis://db''), ((Apart, ''-''), ''debug'', BoolValue True),
      ((Apart, ''--''), ''max-distinct-key-groups'', IntValue 5)]"
  have m: "(''redis.addr'', ''REDIS_ADDR'', ''redis://localhost:6379'') \<in> set string_flags"
    "(''debug'', ''REDIS_EXPORTER_DEBUG'', False) \<in> set bool_flags"
    "(''max-distinct-key-groups'', ''REDIS_EXPORTER_MAX_DISTINCT_KEY_GROUPS'', 100) \<in> set int_flags"
    by (simp_all add: string_flags_def bool_flags_def int_flags_def)
  have known: "flag_kinds ''redis.addr'' = Some StringKind" "flag_kinds ''debug'' = Some BoolKind"
      "flag_kinds ''max-distinct-key-groups'' = Some IntKind" by code_simp+
  have five: "itoa 5 = ''5''" by code_simp
  have w: "list_all (well_written flag_kinds) ?items"
    by (simp add: known kind_of_def in_range_def min_int64_def max_int64_def)
  have args: "concat (map write_flag ?items) = [''--redis.addr=redis://db'', ''-debug'', ''--max-distinct-key-groups'', ''5'']"
    by (simp add: kind_of_def value_text_def five)
  have "''redis.addr'' \<noteq> ''debug''" "''redis.addr'' \<noteq> ''max-distinct-key-groups''" "''debug'' \<noteq> ''max-distinct-key-groups''"
    by simp_all
  then show ?thesis
    using arguments_read [OF w m, of "[''REDIS_ADDR'' \<mapsto> ''other'']"] unfolding args by (elim conjE exE) auto
qed

section \<open>Scripts\<close>

lemma readFile_run: "readFile env name w = Fine (read_file env name (net w), w)"
  by (simp add: readFile_def prog_defs)

lemma readScripts_run:
  "readScripts env fs ls w = Fine (r, w') \<Longrightarrow> w' = w \<and>
     (case r of
        Inl err \<Rightarrow> \<exists>f \<in> set fs. read_file env f (net w) = Inl err
      | Inr ls' \<Rightarrow>
          (\<forall>f \<in> set fs. \<exists>txt. read_file env f (net w) = Inr txt) \<and>
          (\<forall>f. map_of ls' f = (if f \<in> set fs then Some (projr (read_file env f (net w))) else map_of ls f)))"
proof (induction fs arbitrary: ls)
  case Nil
  then show ?case by (auto simp: ret_def)
next
  case (Cons f fs)
  show ?case
  proof (cases "read_file env f (net w)")
    case (Inl err)
    with Cons.prems show ?thesis by (auto simp: bnd_def readFile_run ret_def)
  next
    case (Inr body)
    with Cons.prems have "readScripts env fs (put f body ls) w = Fine (r, w')" by (simp add: bnd_def readFile_run)
    from Cons.IH [OF this] Inr show ?thesis by (cases r) auto
  qed
qed

text \<open>The scripts are loaded all or none: with every file of the list readable each path has the
  contents of its file and nothing else is there; otherwise the error is that of one of the files.\<close>

lemma loadScripts_all_or_none:
  assumes "loadScripts env path w = Fine (r, w')" and "path \<noteq> []"
  defines "paths \<equiv> set (go_split path '','')"
  shows "w' = w \<and>
    (case r of
       Inl err \<Rightarrow> \<exists>f \<in> paths. read_file env f (net w) = Inl err
     | Inr ls \<Rightarrow>
         (\<forall>f \<in> paths. \<exists>txt. read_file env f (net w) = Inr txt \<and> map_of ls f = Some txt) \<and> dom (map_of ls) = paths)"
proof -
  from assms(1,2) have "readScripts env (go_split path '','') [] w = Fine (r, w')" by (simp add: loadScripts_def)
  note run = readScripts_run [OF this, folded paths_def]
  show ?thesis
  proof (cases r)
    case (Inl err)
    with run show ?thesis by simp
  next
    case (Inr ls)
    with run have "w' = w" and files: "\<forall>f \<in> paths. \<exists>txt. read_file env f (net w) = Inr txt"
      and m: "map_of ls f = (if f \<in> paths then Some (projr (read_file env f (net w))) else None)" for f
      by simp_all
    moreover have "\<forall>f \<in> paths. \<exists>txt. read_file env f (net w) = Inr txt \<and> map_of ls f = Some txt"
      using files by (fastforce simp: m)
    moreover have "dom (map_of ls) = paths" by (auto simp: dom_def m split: if_splits)
    ultimately show ?thesis using Inr by simp
  qed
qed

section \<open>What is served\<close>

lemma bnd_result_Fine:
  assumes "bnd m (\<lambda>r. case r of Inl err \<Rightarrow> f err | Inr x \<Rightarrow> g x) s = Fine (b, s'')"
  obtains (failed) err s' where "m s = Fine (Inl err, s')" "f err s' = Fine (b, s'')"
  | (went) x s' where "m s = Fine (Inr x, s')" "g x s' = Fine (b, s'')"
proof -
  from assms obtain a s' where m: "m s = Fine (a, s')" and "(case a of Inl err \<Rightarrow> f err | Inr x \<Rightarrow> g x) s' = Fine (b, s'')"
    unfolding bnd_Fine by blast
  then show ?thesis by (cases a) (auto intro: failed went)
qed

text \<open>Reading certificates changes nothing.\<close>

lemma clientTLS_same: "CreateClientTLSConfig env e w = Fine (r, w') \<Longrightarrow> w' = w"
  unfolding CreateClientTLSConfig_def clientCertificates_def rootCAs_def LoadKeyPair_def LoadCAFile_def
  by (auto simp: prog_defs split: if_splits sum.splits)

lemma serverTLS_same: "CreateServerTLSConfig env cert key ca v w = Fine (r, w') \<Longrightarrow> w' = w"
  unfolding CreateServerTLSConfig_def LoadKeyPair_def LoadCAFile_def Let_def
  by (auto simp: prog_defs split: if_splits sum.splits option.splits)

lemma initialPasswords_run:
  "initialPasswords env pwd name w = Fine (r, w') \<Longrightarrow>
   w' = w \<and> (pwd \<noteq> [] \<longrightarrow> r = Inr []) \<and> (name = [] \<longrightarrow> r = Inr [])"
  unfolding initialPasswords_def by (auto simp: LoadPwdFile_run ret_def split: if_splits)

lemma loadScripts_same: "loadScripts env path w = Fine (r, w') \<Longrightarrow> w' = w"
  using readScripts_run by (fastforce simp: loadScripts_def ret_def split: if_splits)

lemma startServer_run:
  assumes "startServer env os cl serve w = Fine (r, w')" and "\<And>l. serve l \<noteq> Fatal err"
  shows "w' = w \<and>
    ((\<exists>err. r = Fatal err) \<or>
     (\<exists>l. r = serve l \<and>
        (l = Plain \<longleftrightarrow> string_flag os cl ''tls-server-cert-file'' = [] \<or> string_flag os cl ''tls-server-key-file'' = [])))"
proof (cases "string_flag os cl ''tls-server-cert-file'' \<noteq> [] \<and> string_flag os cl ''tls-server-key-file'' \<noteq> []")
  case True
  with assms(1) have "bnd (CreateServerTLSConfig env (string_flag os cl ''tls-server-cert-file'')
      (string_flag os cl ''tls-server-key-file'') (string_flag os cl ''tls-server-ca-cert-file'')
      (string_flag os cl ''tls-server-min-version'')) (\<lambda>r. case r of Inl err \<Rightarrow> ret (Fatal err)
        | Inr tlsConfig \<Rightarrow> ret (serve (OverTLS tlsConfig))) w = Fine (r, w')"
    by (simp add: startServer_def Let_def)
  then show ?thesis
  proof (cases rule: bnd_result_Fine)
    case (failed err s')
    with serverTLS_same show ?thesis by (fastforce simp: ret_def)
  next
    case (went x s')
    with serverTLS_same True show ?thesis by (fastforce simp: ret_def)
  qed
next
  case False
  with assms(1) show ?thesis by (auto simp: startServer_def Let_def ret_def)
qed

lemma checkAndServe_run:
  assumes "checkAndServe env os cl logging e w = Fine (Serving e' cs logging' addr l, w')"
  shows "w' = w \<and> e' = e \<and>
    validateAuthParams env (string_flag os cl ''basic-auth-password'') (string_flag os cl ''basic-auth-hash-password'') = None \<and>
    validateTLSClientConfig (string_flag os cl ''tls-client-cert-file'') (string_flag os cl ''tls-client-key-file'') = None \<and>
    (\<exists>conf. CreateClientTLSConfig env e w = Fine (Inr conf, w)) \<and>
    cs = createPrometheusRegistry (bool_flag os cl ''redis-only-metrics'') (bool_flag os cl ''include-go-runtime-metrics'') \<and>
    logging' = logging \<and> addr = string_flag os cl ''web.listen-address'' \<and>
    (l = Plain \<longleftrightarrow> string_flag os cl ''tls-server-cert-file'' = [] \<or> string_flag os cl ''tls-server-key-file'' = [])"
proof -
  let ?serve = "Serving e (createPrometheusRegistry (bool_flag os cl ''redis-only-metrics'')
      (bool_flag os cl ''include-go-runtime-metrics'')) logging (string_flag os cl ''web.listen-address'')"
  have auth: "validateAuthParams env (string_flag os cl ''basic-auth-password'') (string_flag os cl ''basic-auth-hash-password'') = None"
    and tls: "validateTLSClientConfig (string_flag os cl ''tls-client-cert-file'') (string_flag os cl ''tls-client-key-file'') = None"
    using assms by (auto simp: checkAndServe_def Let_def ret_def split: option.splits)
  from assms auth tls obtain r w1 where c: "CreateClientTLSConfig env e w = Fine (r, w1)"
    and rest: "(case r of Inl err \<Rightarrow> ret (Fatal err) | Inr conf \<Rightarrow> startServer env os cl ?serve) w1 =
      Fine (Serving e' cs logging' addr l, w')"
    by (auto simp: checkAndServe_def Let_def bnd_Fine)
  from clientTLS_same [OF c] have w1: "w1 = w" .
  show ?thesis
  proof (cases r)
    case (Inl err)
    with rest show ?thesis by (simp add: ret_def)
  next
    case (Inr conf)
    with rest have "startServer env os cl ?serve w = Fine (Serving e' cs logging' addr l, w')" by (simp add: w1)
    from startServer_run [OF this] auth tls c Inr show ?thesis by (auto simp: w1)
  qed
qed

lemma main_serving:
  assumes "main_program env os cl build w = Fine (Serving e cs logging addr l, w')"
  shows "\<exists>timeout pm ls.
    parse_duration (string_flag os cl ''connection-timeout'') = Inr timeout \<and>
    initialPasswords env (string_flag os cl ''redis.password'') (string_flag os cl ''redis.password-file'') w = Fine (Inr pm, w) \<and>
    (string_flag os cl ''redis.password'' \<noteq> [] \<longrightarrow> pm = []) \<and>
    NewRedisExporter env (main_registry env os cl) (string_flag os cl ''redis.addr'') (main_options os cl timeout pm ls) build w = Fine (Inr e, w') \<and>
    checkAndServe env os cl (setupLogging (bool_flag os cl ''debug'') (string_flag os cl ''log-level'') (string_flag os cl ''log-format''))
      e w' = Fine (Serving e cs logging addr l, w')"
proof -
  let ?log = "setupLogging (bool_flag os cl ''debug'') (string_flag os cl ''log-level'') (string_flag os cl ''log-format'')"
  obtain timeout where t: "parse_duration (string_flag os cl ''connection-timeout'') = Inr timeout"
    and main: "bnd (initialPasswords env (string_flag os cl ''redis.password'') (string_flag os cl ''redis.password-file'')) (\<lambda>p.
        case p of
          Inl err \<Rightarrow> ret (Fatal (''Error loading redis passwords from file '' @ string_flag os cl ''redis.password-file'' @ '', err: '' @ err))
        | Inr passwordMap \<Rightarrow>
            bnd (makeExporter env os cl build timeout passwordMap) (\<lambda>r.
              case r of Inl err \<Rightarrow> ret (Fatal err) | Inr e \<Rightarrow> checkAndServe env os cl ?log e)) w =
      Fine (Serving e cs logging addr l, w')"
    using assms unfolding main_program_def Let_def by (auto simp only: ret_def split: if_splits sum.splits)
  from main obtain pm where p: "initialPasswords env (string_flag os cl ''redis.password'') (string_flag os cl ''redis.password-file'') w = Fine (Inr pm, w)"
    and made: "bnd (makeExporter env os cl build timeout pm) (\<lambda>r.
      case r of Inl err \<Rightarrow> ret (Fatal err) | Inr e \<Rightarrow> checkAndServe env os cl ?log e) w = Fine (Serving e cs logging addr l, w')"
  proof (cases rule: bnd_result_Fine)
    case (failed err s')
    then show ?thesis by (simp add: ret_def)
  next
    case (went pm s')
    have "s' = w" using initialPasswords_run [OF went(1)] by blast
    with went that show ?thesis by blast
  qed
  from made obtain e1 w1 where m: "makeExporter env os cl build timeout pm w = Fine (Inr e1, w1)"
    and s: "checkAndServe env os cl ?log e1 w1 = Fine (Serving e cs logging addr l, w')"
    by (cases rule: bnd_result_Fine) (auto simp: ret_def)
  have e: "e1 = e" "w1 = w'" using checkAndServe_run [OF s] by simp_all
  from m obtain ls where "NewRedisExporter env (main_registry env os cl) (string_flag os cl ''redis.addr'') (main_options os cl timeout pm ls) build w = Fine (Inr e1, w1)"
    unfolding makeExporter_def by (cases rule: bnd_result_Fine) (auto simp: ret_def dest: loadScripts_same)
  with t p initialPasswords_run [OF p] s show ?thesis unfolding e by auto
qed


lemma serving_checks:
  assumes "main_program env os cl build w = Fine (Serving e cs logging addr l, w')"
  shows "\<exists>conf. CreateClientTLSConfig env e w' = Fine (Inr conf, w')"
  using main_serving [OF assms] checkAndServe_run by blast

text \<open>C9: what the program checks before it serves: at most one of the two basic-auth passwords is set
  (and a hash is a bcrypt hash), the client's certificate and key are both given or both not and can be
  loaded with the CA file, and beside a password the password map is empty (a password file may be named, but
  it has not been read). The web interface uses TLS exactly when both of its files are given; with only one of them it is served in the clear.\<close>

theorem serving_checked:
  assumes "main_program env os cl build w = Fine (Serving e cs logging addr l, w')"
  shows "(BasicAuthPassword (options e) = [] \<or> BasicAuthHashPassword (options e) = []) \<and>
    (BasicAuthHashPassword (options e) = [] \<or> bcrypt_cost_error env (BasicAuthHashPassword (options e)) = None) \<and>
    (ClientCertFile (options e) = [] \<longleftrightarrow> ClientKeyFile (options e) = []) \<and>
    (\<exists>conf. CreateClientTLSConfig env e w' = Fine (Inr conf, w')) \<and>
    (Password (options e) = [] \<or> PasswordMap (options e) = []) \<and>
    (l = Plain \<longleftrightarrow> string_flag os cl ''tls-server-cert-file'' = [] \<or> string_flag os cl ''tls-server-key-file'' = [])"
proof -
  from main_serving [OF assms] obtain timeout pm ls where
    pm: "string_flag os cl ''redis.password'' \<noteq> [] \<longrightarrow> pm = []"
    and n: "NewRedisExporter env (main_registry env os cl) (string_flag os cl ''redis.addr'') (main_options os cl timeout pm ls) build w = Fine (Inr e, w')"
    and c: "checkAndServe env os cl (setupLogging (bool_flag os cl ''debug'') (string_flag os cl ''log-level'') (string_flag os cl ''log-format''))
      e w' = Fine (Serving e cs logging addr l, w')"
    by blast
  have e: "e = make_exporter (string_flag os cl ''redis.addr'') (main_options os cl timeout pm ls) build"
    using constructor_Fine [OF n] by blast
  have o: "BasicAuthPassword (options e) = string_flag os cl ''basic-auth-password''"
    "BasicAuthHashPassword (options e) = string_flag os cl ''basic-auth-hash-password''"
    "ClientCertFile (options e) = string_flag os cl ''tls-client-cert-file''"
    "ClientKeyFile (options e) = string_flag os cl ''tls-client-key-file''"
    "Password (options e) = string_flag os cl ''redis.password''" "PasswordMap (options e) = pm"
    by (simp_all add: e make_exporter_def main_options_def Let_def)
  show ?thesis
    using checkAndServe_run [OF c] pm
    unfolding o by (auto simp: validateAuthParams_def validateTLSClientConfig_def split: if_splits)
qed

text \<open>C1: the whole program. It is started with a valid namespace, a plain metrics path, no cluster mode,
  and libraries and Redis servers that keep to the assumptions. If it serves at all, then after any run
  of requests and outside events no request makes a handler panic; the exporter is the one of the start
  but for passwords loaded from its password file, every metric sent agrees with its description, and
  the counts of scrapes and of scrape errors are those of the requests answered.\<close>

theorem program_keeps_serving:
  assumes "run_main env os args build w = Fine (Serving e cs logging addr l, w')"
    and "command_line_read args = Inr cl"
    and "runs env \<lparr>handler = e, registered = cs, world = w'\<rparr> evs s"
    and "server_ok env" and "prom_registers env"
    and "string_flag os cl ''namespace'' = [] \<or> valid_name (string_flag os cl ''namespace'')"
    and "string_flag os cl ''web.telemetry-path'' = [] \<or> plain_path (string_flag os cl ''web.telemetry-path'')"
    and "\<not> bool_flag os cl ''is-cluster''" and "0 \<le> int_flag os cl ''max-distinct-key-groups''"
    and "regexp_match env (string_flag os cl ''check-search-indexes'') \<noteq> None"
    and "chan w = []"
  shows "ServeHTTP env req s \<noteq> Panic msg \<and> serving env \<lparr>handler = e, registered = cs, world = w'\<rparr> evs s"
proof -
  from assms(1,2) have "main_program env os cl build w = Fine (Serving e cs logging addr l, w')"
    by (simp add: run_main_def)
  from main_serving [OF this] obtain timeout pm ls where
    n: "NewRedisExporter env (main_registry env os cl) (string_flag os cl ''redis.addr'') (main_options os cl timeout pm ls) build w = Fine (Inr e, w')"
    by blast
  let ?opts = "main_options os cl timeout pm ls"
  have e: "e = make_exporter (string_flag os cl ''redis.addr'') ?opts build" and args: "checkArguments (key_arguments ?opts) = None"
    using constructor_Fine [OF n] by simp_all
  have o: "Namespace ?opts = string_flag os cl ''namespace''" "MetricsPath ?opts = string_flag os cl ''web.telemetry-path''"
    "IsCluster ?opts = bool_flag os cl ''is-cluster''" "MaxDistinctKeyGroups ?opts = int_flag os cl ''max-distinct-key-groups''"
    "CheckSearchIndexes ?opts = string_flag os cl ''check-search-indexes''"
    by (simp_all add: main_options_def Let_def)
  have same: "Namespace (options e) = Namespace ?opts" "IsCluster (options e) = IsCluster ?opts"
    "MaxDistinctKeyGroups (options e) = MaxDistinctKeyGroups ?opts" "CheckSearchIndexes (options e) = CheckSearchIndexes ?opts"
    by (simp_all add: e make_exporter_def)
  have ns: "Namespace ?opts = [] \<or> valid_name (Namespace ?opts)" using assms(6) by (simp add: o)
  have path: "plain_path (MetricsPath (options e))"
    unfolding e by (rule metrics_path_plain) (use assms(7) in \<open>simp add: o\<close>)
  let ?w = "w\<lparr>descs := initial_descs e, tick := tick w + 3\<rparr>"
  have w': "w' = ?w" using constructor_Fine [OF n] by blast
  obtain mux where "addRoutes env [] (routes e) w' = Fine (mux, w')" using constructor_Fine [OF n] by blast
  then have fixed: "MetricsPath (options e) \<notin> set fixed_routes"
    using constructor_routes [OF path, of env w'] by (auto simp: routes_def simp del: addRoutes.simps split: if_splits)
  let ?s = "\<lparr>handler = e, registered = cs, world = w'\<rparr>"
  have i: "inv e no_ctx w'" by (rule inv_initial) (simp_all add: w' assms(11))
  have ok: "options_ok env e"
    using assms(8,9,10) by (simp add: options_ok_def cluster_addr_ok_def same o)
  have sv: "serving env ?s evs s"
    by (rule runs_serving [OF assms(3,4)]) (simp_all add: i ok)
  then obtain pm' where h: "handler s = with_passwords pm' e" and now: "inv e no_ctx (world s)"
    by (auto simp: serving_def)
  have "ServeHTTP env req s \<noteq> Panic msg"
  proof (rule requests_safe [OF assms(4,5)])
    show "configured (handler s)" using path fixed ns by (simp add: configured_def h same)
  qed (use assms(8) now in \<open>simp_all add: h ok same o\<close>)
  with sv show ?thesis by blast
qed

text \<open>C21: which password goes to the Redis client, end to end, for a plain address. A \<open>--redis.password\<close> (or
  \<open>REDIS_PASSWORD\<close>) that is not empty is used, and the password file is not read at the start; without one
  it is the entry the file has for the address, under the configured user if there is one, and none if the
  file has none or is not given. The user name is passed exactly when it is configured. After a successful
  \<open>/-/reload\<close> the entry of the file is used first, even when there is a \<open>--redis.password\<close>.\<close>

theorem configured_password:
  fixes env :: "'c env" and w :: "'c world"
  assumes "run_main env os args build w = Fine (Serving e cs logging addr l, w')"
    and "command_line_read args = Inr cl"
    and "plain_name host" and "list_all is_digit port"
    and "string_flag os cl ''redis.user'' = [] \<or> plain_name (string_flag os cl ''redis.user'')"
  defines "user \<equiv> string_flag os cl ''redis.user''" and "pwd \<equiv> string_flag os cl ''redis.password''"
    and "file \<equiv> string_flag os cl ''redis.password-file''"
    and "uri \<equiv> ''redis://'' @ host_part host port"
    and "entry \<equiv> \<lambda>pm. case map_of pm (if string_flag os cl ''redis.user'' = [] then ''redis://'' @ host_part host port
        else ''redis://'' @ string_flag os cl ''redis.user'' @ ''@'' @ host_part host port) of
      Some (c # p) \<Rightarrow> Some (c # p) | _ \<Rightarrow> None"
  shows "\<exists>pm. (if pwd = [] \<and> file \<noteq> []
       then \<exists>bytes. read_file env file (net w) = Inr bytes \<and> json_string_map env bytes = Inr pm else pm = []) \<and>
    (\<forall>(w1 :: 'c world) opts w2. configureOptions env e uri w1 = Fine (Inr opts, w2) \<longrightarrow>
       last_password opts = (if pwd \<noteq> [] then Some pwd else entry pm) \<and>
       (\<forall>u. DialUsername u \<in> set opts \<longleftrightarrow> u = user \<and> u \<noteq> [])) \<and>
    (\<forall>s s' bytes pm' (w1 :: 'c world) opts w2.
       handler s = e \<and> reloadPwdFile env s = Fine (ok_text ''ok'', s') \<and>
       read_file env file (net (world s)) = Inr bytes \<and> json_string_map env bytes = Inr pm' \<and>
       configureOptions env (handler s') uri w1 = Fine (Inr opts, w2) \<longrightarrow>
       last_password opts = (case entry pm' of Some p \<Rightarrow> Some p | None \<Rightarrow> if pwd = [] then None else Some pwd))"
proof -
  from assms(1,2) have "main_program env os cl build w = Fine (Serving e cs logging addr l, w')"
    by (simp add: run_main_def)
  from main_serving [OF this] obtain timeout pm ls where
    p: "initialPasswords env pwd file w = Fine (Inr pm, w)" and none: "pwd \<noteq> [] \<longrightarrow> pm = []"
    and n: "NewRedisExporter env (main_registry env os cl) (string_flag os cl ''redis.addr'') (main_options os cl timeout pm ls) build w =
      Fine (Inr e, w')"
    unfolding pwd_def file_def by blast
  have o: "User (options e) = user" "Password (options e) = pwd" "PasswordMap (options e) = pm" "RedisPwdFile (options e) = file"
    using constructor_Fine [OF n] by (simp_all add: make_exporter_def main_options_def Let_def user_def pwd_def file_def)
  have pm: "if pwd = [] \<and> file \<noteq> []
      then \<exists>bytes. read_file env file (net w) = Inr bytes \<and> json_string_map env bytes = Inr pm else pm = []"
    using p by (auto simp: initialPasswords_def LoadPwdFile_run ret_def split: if_splits sum.splits)
  have found: "lookupPasswordInPasswordMap (with_passwords q e) uri = entry q" for q
  proof -
    have "User (options (with_passwords q e)) = [] \<or> plain_name (User (options (with_passwords q e)))"
      using assms(5) by (simp add: o user_def)
    from lookup_plain_host [OF assms(3,4) this] show ?thesis
      by (simp add: uri_def o found_password_def entry_def flip: user_def split: option.split list.split)
  qed
  have same: "Password (options (with_passwords q e)) = pwd" "User (options (with_passwords q e)) = user" for q
    by (simp_all add: o)
  have dial: "last_password opts = (case entry q of Some p \<Rightarrow> Some p | None \<Rightarrow> if pwd = [] then None else Some pwd) \<and>
      (\<forall>u. DialUsername u \<in> set opts \<longleftrightarrow> u = user \<and> u \<noteq> [])"
    if "configureOptions env (with_passwords q e) uri w1 = Fine (Inr opts, w2)" for q opts and w1 w2 :: "'c world"
    using configureOptions_password [OF that] unfolding found same by blast
  have started: "last_password opts = (if pwd \<noteq> [] then Some pwd else entry pm) \<and> (\<forall>u. DialUsername u \<in> set opts \<longleftrightarrow> u = user \<and> u \<noteq> [])"
    if "configureOptions env e uri w1 = Fine (Inr opts, w2)" for opts and w1 w2 :: "'c world"
  proof -
    have "with_passwords pm e = e" using with_passwords_id [of e] by (simp add: o)
    with that dial [of pm w1 opts w2] have "last_password opts = (case entry pm of Some p \<Rightarrow> Some p | None \<Rightarrow> if pwd = [] then None else Some pwd)"
      and "\<forall>u. DialUsername u \<in> set opts \<longleftrightarrow> u = user \<and> u \<noteq> []" by simp_all
    moreover have "pwd \<noteq> [] \<longrightarrow> entry pm = None" using none by (simp add: entry_def)
    ultimately show ?thesis by (simp split: option.splits)
  qed
  have reloaded: "last_password opts = (case entry pm' of Some p \<Rightarrow> Some p | None \<Rightarrow> if pwd = [] then None else Some pwd)"
    if s: "handler s = e" and "reloadPwdFile env s = Fine (ok_text ''ok'', s')" "read_file env file (net (world s)) = Inr bytes"
      "json_string_map env bytes = Inr pm'" "configureOptions env (handler s') uri w1 = Fine (Inr opts, w2)"
    for s s' bytes pm' opts and w1 w2 :: "'c world"
  proof -
    have "reloadPwdFile env s = (if file = [] then Fine (http_error ''There is no pwd file specified'' 400, s)
        else Fine (ok_text ''ok'', s\<lparr>handler := with_passwords pm' e\<rparr>))"
      unfolding reload_run Let_def s o using that(3,4) by simp
    with that(2) have "handler s' = with_passwords pm' e" by (auto simp: http_error_def ok_text_def split: if_splits)
    with that(5) have "configureOptions env (with_passwords pm' e) uri w1 = Fine (Inr opts, w2)" by simp
    from dial [OF this] show ?thesis by blast
  qed
  show ?thesis
    by (rule exI [of _ pm], rule conjI [OF pm], rule conjI)
      (intro allI impI, rule started, assumption, intro allI impI, elim conjE, rule reloaded)
qed

text \<open>The process goes on until a signal or an error of its listener, and it ends without an error exactly
  when the signal came first and the server could be shut down.\<close>

lemma clean_end:
  "wait_for_end l shutdown hs = Some Finished \<longleftrightarrow>
   shutdown = None \<and> (\<exists>n sig rest. hs = replicate n ListenerClosed @ Signalled sig # rest)"
proof (induction l shutdown hs rule: wait_for_end.induct)
  case (3 l shutdown hs)
  have "(\<exists>n sig rest. ListenerClosed # hs = replicate n ListenerClosed @ Signalled sig # rest) \<longleftrightarrow>
      (\<exists>n sig rest. hs = replicate n ListenerClosed @ Signalled sig # rest)"
    (is "?l \<longleftrightarrow> ?r")
  proof
    assume ?l
    then obtain n sig rest where "ListenerClosed # hs = replicate n ListenerClosed @ Signalled sig # rest" by blast
    then show ?r by (cases n) auto
  next
    assume ?r
    then obtain n sig rest where "hs = replicate n ListenerClosed @ Signalled sig # rest" by blast
    then have "ListenerClosed # hs = replicate (Suc n) ListenerClosed @ Signalled sig # rest" by simp
    then show ?l by blast
  qed
  with 3 show ?case by simp
next
  case (4 l shutdown sig hs)
  have "Signalled sig # hs = replicate 0 ListenerClosed @ Signalled sig # hs" by simp
  then have "\<exists>n sig' rest. Signalled sig # hs = replicate n ListenerClosed @ Signalled sig' # rest" by blast
  then show ?case by (simp split: option.splits)
next
  case (2 l shutdown err hs)
  have "ListenerFailed err # hs \<noteq> replicate n ListenerClosed @ Signalled sig # rest" for n sig rest
    by (cases n) simp_all
  then show ?case by simp
qed simp

text \<open>C28: the timeout of the connections to Redis is the duration the flag says, to the nanosecond: a number
  with any unit, or hours, minutes and seconds together, is read as what it says, and what does not fit
  64 bits is refused before anything is served.\<close>

theorem connection_timeout_read:
  assumes "main_program env os cl build w = Fine (Serving e cs logging addr l, w')"
    and "string_flag os cl ''connection-timeout'' = text"
  shows "min_int64 \<le> ConnectionTimeouts (options e) \<and> ConnectionTimeouts (options e) \<le> max_int64 \<and>
    (\<forall>n u unit. 0 \<le> n \<and> (u, unit) \<in> set duration_units \<and> text = nat_digits n @ u \<longrightarrow>
      ConnectionTimeouts (options e) = n * unit) \<and>
    (\<forall>h m s. 0 \<le> h \<and> 0 \<le> m \<and> 0 \<le> s \<and>
      text = nat_digits h @ ''h'' @ nat_digits m @ ''m'' @ nat_digits s @ ''s'' \<longrightarrow>
      ConnectionTimeouts (options e) = ((h * 60 + m) * 60 + s) * 1000000000)"
proof -
  from main_serving [OF assms(1)] obtain timeout pm ls where
    t: "parse_duration text = Inr timeout"
    and n: "NewRedisExporter env (main_registry env os cl) (string_flag os cl ''redis.addr'') (main_options os cl timeout pm ls) build w = Fine (Inr e, w')"
    unfolding assms(2) by blast
  have e: "ConnectionTimeouts (options e) = timeout"
    using constructor_Fine [OF n] by (simp add: make_exporter_def main_options_def Let_def)
  have "\<forall>n u unit. 0 \<le> n \<and> (u, unit) \<in> set duration_units \<and> text = nat_digits n @ u \<longrightarrow> timeout = n * unit"
    using parse_duration_unit t by blast
  moreover have "\<forall>h m s. 0 \<le> h \<and> 0 \<le> m \<and> 0 \<le> s \<and>
      text = nat_digits h @ ''h'' @ nat_digits m @ ''m'' @ nat_digits s @ ''s'' \<longrightarrow>
      timeout = ((h * 60 + m) * 60 + s) * 1000000000"
    using parse_duration_hms t by blast
  ultimately show ?thesis
    using parse_duration_range [OF t] unfolding e by blast
qed

text \<open>An environment that sets no variable but the password.\<close>

definition quiet_os :: "os \<Rightarrow> bool" where
  "quiet_os os \<longleftrightarrow> (\<forall>k. k \<noteq> ''REDIS_PASSWORD'' \<longrightarrow> os k = None)"

lemma default_flags:
  assumes "quiet_os os"
  shows
  "string_flag os no_flags ''redis.addr'' = ''redis://localhost:6379''"
  "string_flag os no_flags ''namespace'' = ''redis''"
  "string_flag os no_flags ''web.telemetry-path'' = ''/metrics''"
  "string_flag os no_flags ''check-search-indexes'' = ''.*''"
  "bool_flag os no_flags ''is-cluster'' = False" "bool_flag os no_flags ''redis-only-metrics'' = False"
  "bool_flag os no_flags ''include-go-runtime-metrics'' = False"
  "int_flag os no_flags ''max-distinct-key-groups'' = 100"
  using assms by (simp_all add: quiet_os_def string_flag_def bool_flag_def int_flag_def getEnv_def getEnvBool_def getEnvInt64_def no_flags_def
      string_flags_def bool_flags_def int_flags_def)

lemma default_timeout: "quiet_os os \<Longrightarrow> string_flag os no_flags ''connection-timeout'' = ''15s''"
  by (simp add: quiet_os_def string_flag_def getEnv_def no_flags_def string_flags_def)

lemma empty_flags:
  assumes "quiet_os os"
  shows
  "string_flag os no_flags ''redis.password-file'' = []"
  "string_flag os no_flags ''script'' = []" "string_flag os no_flags ''basic-auth-password'' = []"
  "string_flag os no_flags ''basic-auth-hash-password'' = []" "string_flag os no_flags ''tls-client-cert-file'' = []"
  "string_flag os no_flags ''tls-client-key-file'' = []" "string_flag os no_flags ''tls-ca-cert-file'' = []"
  "string_flag os no_flags ''tls-server-cert-file'' = []" "bool_flag os no_flags ''version'' = False"
  "string_flag os no_flags ''check-keys'' = []" "string_flag os no_flags ''check-single-keys'' = []"
  "string_flag os no_flags ''check-streams'' = []" "string_flag os no_flags ''check-single-streams'' = []"
  "string_flag os no_flags ''count-keys'' = []"
  using assms by (simp_all add: quiet_os_def string_flag_def bool_flag_def getEnv_def no_flags_def string_flags_def bool_flags_def)

lemma demo_serves:
  assumes "quiet_os os"
  shows "\<exists>e cs logging addr w'. main_program steady_env os no_flags (buildInfo demo_exporter) (start_world demo_exporter []) =
     Fine (Serving e cs logging addr Plain, w')"
proof -
  note default_flags = default_flags [OF assms] and empty_flags = empty_flags [OF assms]
  let ?opts = "main_options os no_flags 15000000000 [] []" and ?w = "start_world demo_exporter ([] :: reply goresult list)"
  let ?e = "make_exporter ''redis://localhost:6379'' ?opts (buildInfo demo_exporter)"
  have args: "checkArguments (key_arguments ?opts) = None"
  proof -
    have "key_arguments ?opts = key_arguments demo_options"
      by (simp add: key_arguments_def main_options_def Let_def empty_flags demo_options_def)
    moreover have "checkArguments (key_arguments demo_options) = None" by code_simp
    ultimately show ?thesis by simp
  qed
  have ns: "Namespace ?opts = [] \<or> valid_name (Namespace ?opts)"
  proof -
    have "valid_name ''redis''" by code_simp
    then show ?thesis by (simp add: main_options_def Let_def default_flags)
  qed
  have mp: "MetricsPath (options ?e) = ''/metrics''"
    by (simp add: make_exporter_def main_options_def Let_def default_flags)
  have path: "plain_path (MetricsPath (options ?e))" and free: "MetricsPath (options ?e) \<notin> set fixed_routes"
    unfolding mp by code_simp+
  have ns': "Namespace (options ?e) = ''redis''"
    by (simp add: make_exporter_def main_options_def Let_def default_flags)
  have reg: "main_registry steady_env os no_flags = demo_outside ProcessCollector"
    by (simp add: main_registry_def createPrometheusRegistry_def default_flags steady_env_def)
  have none: "desc_fq ` set (main_registry steady_env os no_flags) \<inter> described ?e = {}"
    unfolding reg by (rule process_free [OF ns'])
  obtain w' where n: "NewRedisExporter steady_env (main_registry steady_env os no_flags) ''redis://localhost:6379'' ?opts
      (buildInfo demo_exporter) ?w = Fine (Inr ?e, w')"
    unfolding constructor_run [OF steady_libraries args ns none] routes_def
    using constructor_routes [OF path, of steady_env] free by (simp add: bnd_def ret_def del: addRoutes.simps)
  have files: "ClientCertFile (options ?e) = []" "CaCertFile (options ?e) = []" "ClientKeyFile (options ?e) = []"
    by (simp_all add: make_exporter_def main_options_def Let_def empty_flags)
  have pool: "system_cert_pool steady_env = (\<lambda>_. Inr [])" "parse_duration ''15s'' = Inr 15000000000"
    by (simp add: steady_env_def) code_simp
  obtain conf where c: "CreateClientTLSConfig steady_env ?e w' = Fine (Inr conf, w')"
    by (simp add: CreateClientTLSConfig_def clientCertificates_def rootCAs_def files pool prog_defs)
  have m: "makeExporter steady_env os no_flags (buildInfo demo_exporter) 15000000000 [] ?w = Fine (Inr ?e, w')"
    unfolding makeExporter_def empty_flags default_flags loadScripts_def by (simp add: bnd_def ret_def n)
  show ?thesis
    unfolding main_program_def Let_def empty_flags default_timeout [OF assms] pool sum.case initialPasswords_def
    by (simp add: bnd_def ret_def m checkAndServe_def Let_def empty_flags validateAuthParams_def validateTLSClientConfig_def
        c startServer_def)
qed

lemma empty_os: "quiet_os Map.empty"
  by (simp add: quiet_os_def)

theorem serving_checked_witness:
  "\<exists>e cs logging addr w'. main_program steady_env Map.empty no_flags (buildInfo demo_exporter) (start_world demo_exporter []) =
     Fine (Serving e cs logging addr Plain, w') \<and> (ClientCertFile (options e) = []) = (ClientKeyFile (options e) = [])"
  using demo_serves [OF empty_os] serving_checked by blast

lemma no_command_line: "command_line_read [] = Inr no_flags"
  by (simp add: command_line_read_def given_flags_def no_flags_def fun_eq_iff)

theorem program_keeps_serving_witness:
  "\<exists>e cs logging addr w'. run_main steady_env Map.empty [] (buildInfo demo_exporter) (start_world demo_exporter []) =
     Fine (Serving e cs logging addr Plain, w') \<and>
     ServeHTTP steady_env (get_request ''/scrape'' vault_query []) \<lparr>handler = e, registered = cs, world = w'\<rparr> \<noteq>
       Panic ''index out of range''"
proof -
  obtain e cs logging addr w' where m:
    "run_main steady_env Map.empty [] (buildInfo demo_exporter) (start_world demo_exporter []) =
      Fine (Serving e cs logging addr Plain, w')" using demo_serves [OF empty_os]
    by (auto simp: run_main_def no_command_line)
  have "valid_name ''redis''" "plain_path ''/metrics''" by code_simp+
  moreover have "regexp_match steady_env ''.*'' \<noteq> None" by (simp add: steady_env_def)
  ultimately have "ServeHTTP steady_env (get_request ''/scrape'' vault_query []) \<lparr>handler = e, registered = cs, world = w'\<rparr> \<noteq>
      Panic ''index out of range''"
    using program_keeps_serving [OF m no_command_line runs.start steady_server_ok steady_libraries] by (simp add: default_flags [OF empty_os])
  with m show ?thesis by blast
qed

theorem configured_password_witness:
  "\<exists>e cs logging addr w' opts w2.
     run_main steady_env [''REDIS_PASSWORD'' \<mapsto> ''pw''] [] (buildInfo demo_exporter) (start_world demo_exporter []) =
       Fine (Serving e cs logging addr Plain, w') \<and>
     configureOptions steady_env e ''redis://localhost:6379'' w' = Fine (Inr opts, w2) \<and> last_password opts = Some ''pw''"
proof -
  let ?os = "[''REDIS_PASSWORD'' \<mapsto> ''pw'']"
  have os: "quiet_os ?os" by (simp add: quiet_os_def)
  obtain e cs logging addr w' where m: "main_program steady_env ?os no_flags (buildInfo demo_exporter) (start_world demo_exporter []) =
      Fine (Serving e cs logging addr Plain, w')"
    using demo_serves [OF os] by blast
  then have r: "run_main steady_env ?os [] (buildInfo demo_exporter) (start_world demo_exporter []) =
      Fine (Serving e cs logging addr Plain, w')"
    by (simp add: run_main_def no_command_line)
  obtain conf where "CreateClientTLSConfig steady_env e w' = Fine (Inr conf, w')"
    using serving_checks [OF m] by blast
  then obtain opts where c: "configureOptions steady_env e ''redis://localhost:6379'' w' = Fine (Inr opts, w')"
    by (simp add: configureOptions_def bnd_def ret_def)
  have plain: "plain_name ''localhost''" "list_all is_digit ''6379''" by code_simp+
  have flags: "string_flag ?os no_flags ''redis.user'' = []" "string_flag ?os no_flags ''redis.password'' = ''pw''"
    by (simp_all add: string_flag_def getEnv_def no_flags_def string_flags_def)
  have "last_password opts = Some ''pw''"
    using configured_password [OF r no_command_line plain] c by (simp add: flags host_part_def) blast
  with r c show ?thesis by blast
qed

theorem connection_timeout_read_witness:
  "\<exists>e cs logging addr w'. main_program steady_env Map.empty no_flags (buildInfo demo_exporter) (start_world demo_exporter []) =
     Fine (Serving e cs logging addr Plain, w') \<and> ConnectionTimeouts (options e) = 15 * 1000000000"
proof -
  obtain e cs logging addr w' where m:
    "main_program steady_env Map.empty no_flags (buildInfo demo_exporter) (start_world demo_exporter []) =
      Fine (Serving e cs logging addr Plain, w')" using demo_serves [OF empty_os] by blast
  have "''15s'' = nat_digits 15 @ ''s''" by code_simp
  moreover have "(''s'', 1000000000) \<in> set duration_units" by (simp add: duration_units_def)
  ultimately have "ConnectionTimeouts (options e) = 15 * 1000000000"
    using connection_timeout_read [OF m default_timeout [OF empty_os]] by (metis zero_le_numeral)
  with m show ?thesis by blast
qed

end
