(* ===== verification/Settings.thy ===== *)
theory Settings
  imports Scrape
begin

text \<open>
  What a scrape makes of the CONFIG and INFO replies: secrets are kept out of the metrics, the limits of
  output buffers are only read when they are complete, and every database is reported.
\<close>

section \<open>Secrets\<close>

text \<open>Two CONFIG replies that differ at most in the values of secret settings.\<close>

definition same_setting :: "'c env \<Rightarrow> reply \<times> reply \<Rightarrow> reply \<times> reply \<Rightarrow> bool" where
  "same_setting env a b \<longleftrightarrow>
     fst a = fst b \<and>
     (snd a = snd b \<or>
      (\<exists>k x y. redis_String env (Inr (fst a)) = Inr k \<and> k \<in> set secret_settings \<and>
         redis_String env (Inr (snd a)) = Inr x \<and> redis_String env (Inr (snd b)) = Inr y))"

definition same_settings :: "'c env \<Rightarrow> reply list \<Rightarrow> reply list \<Rightarrow> bool" where
  "same_settings env xs ys \<longleftrightarrow>
     even (length xs) \<and> even (length ys) \<and> list_all2 (same_setting env) (reply_pairs xs) (reply_pairs ys)"

lemma secret_entry:
  assumes "RedactConfigMetrics (options e)" and "k \<in> set secret_settings"
    and "redis_String env (Inr (fst a)) = Inr k" and "redis_String env (Inr (snd a)) = Inr x"
  shows "configEntry env e n a = ret (Inr n)"
proof -
  have "k \<noteq> ''databases''" "k \<notin> set numeric_settings" "k \<noteq> ''client-output-buffer-limit''"
    using assms(2) by (auto simp: secret_settings_def numeric_settings_def)
  then show ?thesis
    using assms by (simp add: configEntry_def exportSetting_def only_if_def)
qed

lemma same_entry:
  assumes "RedactConfigMetrics (options e)" and "same_setting env a b"
  shows "configEntry env e n a = configEntry env e n b"
proof (cases "snd a = snd b")
  case True
  with assms(2) have "a = b" by (simp add: same_setting_def prod_eq_iff)
  then show ?thesis by simp
next
  case False
  with assms(2) obtain k x y where "redis_String env (Inr (fst a)) = Inr k" "k \<in> set secret_settings"
    "redis_String env (Inr (snd a)) = Inr x" "redis_String env (Inr (snd b)) = Inr y" "fst a = fst b"
    by (auto simp: same_setting_def)
  with secret_entry [OF assms(1)] show ?thesis by metis
qed

text \<open>C6: with redaction on, no secret leaves the exporter: two CONFIG replies that differ only in the
  values of \<open>masterauth\<close>, \<open>requirepass\<close> and the two key-file passwords are indistinguishable in
  everything the function does, the metrics, the descriptions and its result included.\<close>

theorem secrets_redacted:
  assumes "RedactConfigMetrics (options e)" and "same_settings env xs ys"
  shows "extractConfigMetrics env e xs = extractConfigMetrics env e ys"
proof -
  have "configEntries env e n as = configEntries env e n bs" if "list_all2 (same_setting env) as bs" for n as bs
    using that
  proof (induction as bs arbitrary: n rule: list_all2_induct)
    case (Cons a as b bs)
    have "configEntry env e n a = configEntry env e n b"
      by (rule same_entry [OF assms(1) Cons.hyps(1)])
    moreover have "configEntries env e m as = configEntries env e m bs" for m by (rule Cons.IH)
    ultimately show ?case by simp
  qed simp
  then show ?thesis
    using assms(2) by (simp add: extractConfigMetrics_def same_settings_def even_iff_mod_2_eq_zero)
qed

theorem secrets_redacted_witness:
  "extractConfigMetrics demo_env demo_exporter [RBytes ''requirepass'', RBytes ''hunter2'', RBytes ''maxclients'', RBytes ''100''] =
   extractConfigMetrics demo_env demo_exporter [RBytes ''requirepass'', RBytes ''swordfish'', RBytes ''maxclients'', RBytes ''100'']"
  by (rule secrets_redacted)
    (simp_all add: demo_exporter_def demo_options_def same_settings_def same_setting_def secret_settings_def)

section \<open>Output buffer limits\<close>

lemma number_runs:
  assumes "prom_checks_labels env" and "inv e N w" and "catalogued m"
  shows "\<exists>w'. registerNumber env e m s ls w = Fine ((), w') \<and> inv e N w'"
proof -
  have "keeps (inv e N) (registerNumber env e m s ls)"
    by (rule keeps_registerNumber) (simp_all add: assms)
  from finishes_Fine [OF finishes_registerNumber this assms(2)] show ?thesis by auto
qed

lemma incomplete_limits_panic:
  "prom_checks_labels env \<Longrightarrow> inv e N w \<Longrightarrow> length ws mod 4 \<noteq> 0 \<Longrightarrow> \<exists>msg. buffer_limits env e ws w = Panic msg"
proof (induction env e ws arbitrary: w rule: buffer_limits.induct)
  case (2 env e cls rest)
  note number = number_runs [OF "2.prems"(1)]
  show ?case
  proof (cases rest)
    case Nil
    then show ?thesis by (simp add: at_index_def index_def panic_def)
  next
    case (Cons hard r1)
    note rest1 = this
    obtain w1 where 1: "registerNumber env e ''config_client_output_buffer_limit_bytes'' hard [cls, ''hard''] w = Fine ((), w1)"
      and i1: "inv e N w1"
      using number [OF "2.prems"(2) config_catalogued(3)] by blast
    show ?thesis
    proof (cases r1)
      case Nil
      then show ?thesis by (simp add: rest1 at_index_def index_def panic_def andthen_def bnd_def 1)
    next
      case (Cons soft r2)
      note rest2 = this
      obtain w2 where 2: "registerNumber env e ''config_client_output_buffer_limit_bytes'' soft [cls, ''soft''] w1 = Fine ((), w2)"
        and i2: "inv e N w2"
        using number [OF i1 config_catalogued(3)] by blast
      show ?thesis
      proof (cases r2)
        case Nil
        then show ?thesis by (simp add: rest1 rest2 at_index_def index_def panic_def andthen_def bnd_def 1 2)
      next
        case (Cons secs r3)
        obtain w3 where 3: "registerNumber env e ''config_client_output_buffer_limit_overcome_seconds'' secs [cls, ''soft''] w2 = Fine ((), w3)"
          and i3: "inv e N w3"
          using number [OF i2 config_catalogued(4)] by blast
        have "length (drop 3 rest) mod 4 \<noteq> 0"
          using "2.prems"(3) by (simp add: rest1 rest2 Cons mod_Suc split: if_splits)
        from "2.IH" [OF "2.prems"(1) i3 this] show ?thesis
          by (simp add: rest1 rest2 Cons at_index_def index_def andthen_def bnd_def 1 2 3)
      qed
    qed
  qed
qed simp

text \<open>C39: the value of \<open>client-output-buffer-limit\<close> is read four words at a time without looking how
  many there are: a value of any other length, the empty one included, ends the process.\<close>

theorem incomplete_buffer_limit_panics:
  assumes "prom_checks_labels env" and "inv e N w"
    and "redis_String env (Inr k) = Inr ''client-output-buffer-limit''" and "redis_String env (Inr v) = Inr limits"
    and "length (go_split limits '' '') mod 4 \<noteq> 0"
  shows "\<exists>msg. configEntry env e n (k, v) w = Panic msg"
proof -
  have "keeps (inv e N) (exportSetting env e ''client-output-buffer-limit'' limits)"
    unfolding exportSetting_def by (intro keeps_only_if keeps_block) (auto intro!: keeps_gauge keeps_registerNumber assms(1))
  moreover have "finishes (exportSetting env e ''client-output-buffer-limit'' limits)"
    unfolding exportSetting_def by (intro finish_rules)
  ultimately obtain w1 where x: "exportSetting env e ''client-output-buffer-limit'' limits w = Fine ((), w1)" and i: "inv e N w1"
    using finishes_Fine [where P = "inv e N" and s = w and m = "exportSetting env e ''client-output-buffer-limit'' limits"] assms(2)
    by fastforce
  obtain msg where "buffer_limits env e (go_split limits '' '') w1 = Panic msg"
    using incomplete_limits_panic [OF assms(1) i assms(5)] by blast
  then show ?thesis
    by (simp add: configEntry_def assms(3,4) andthen_def bnd_def x only_if_def numeric_settings_def skip_def ret_def)
qed

theorem incomplete_buffer_limit_panics_witness:
  "\<exists>msg. configEntry demo_env demo_exporter 0 (RBytes ''client-output-buffer-limit'', RBytes [])
     (start_world demo_exporter []) = Panic msg"
proof (rule incomplete_buffer_limit_panics [OF demo_env_checks inv_start])
  show "length (go_split [] '' '') mod 4 \<noteq> 0" by code_simp
qed simp_all

section \<open>Databases\<close>

text \<open>C8: with \<open>InclMetricsForEmptyDatabases\<close> set (the default), every database has its metrics at the end of
  the scrape of a server that is not in cluster mode, be it mentioned in INFO or not, whatever the collectors
  after INFO do: as many databases as CONFIG said, and 16 when it said nothing. Nothing is said here of the
  databases INFO does not mention when the option is off; the code then adds nothing for them.\<close>

theorem scrape_reports_databases:
  assumes "server_ok env" and "options_ok env e" and "info_ok infoAll" and "inv e N w"
    and "\<not> go_contains infoAll ''cluster_enabled:1''" and "InclMetricsForEmptyDatabases (options e)"
    and "0 \<le> n" and "afterInfo env e c infoAll n w = Fine (err, w')"
    and "int i < (if n = 0 then 16 else n)"
  shows "db_reported (chan w') (''db'' @ itoa (int i))"
proof -
  let ?m = "if n = 0 then 16 else n" and ?db = "''db'' @ itoa (int i)"
  have run: "afterInfo env e c infoAll n = bnd (extractInfoMetrics env e infoAll ?m) (afterRole env e c infoAll ?m)"
    by (simp add: afterInfo_def clusterOrDefault_def assms(5))
  have later: "holds (\<lambda>w. db_reported (chan w) ?db \<and> inv e N w) (afterRole env e c infoAll ?m role)
      (\<lambda>_ w. db_reported (chan w) ?db \<and> inv e N w)" for role
  proof (rule keeps_with_chan)
    show "keeps (inv e M) (afterRole env e c infoAll ?m role)" for M
      by (rule keeps_afterRole [OF assms(1,2)]) (use assms(7) in simp)
  qed (rule db_reported_append)
  have "holds (inv e N) (extractInfoMetrics env e infoAll ?m) (\<lambda>_ w. db_reported (chan w) ?db \<and> inv e N w)"
  proof (rule holds_post [OF holds_extractInfoMetrics [OF _ _ _ assms(3)]])
    fix role and w :: "'a world"
    assume "(InclMetricsForEmptyDatabases (options e) \<longrightarrow>
        (\<forall>i < nat ?m. db_reported (chan w) (''db'' @ itoa (int i)))) \<and> inv e N w"
    moreover have "i < nat ?m" using assms(9) by simp
    ultimately show "db_reported (chan w) ?db \<and> inv e N w" using assms(6) by blast
  qed (use assms(1) in \<open>simp_all add: server_ok_def\<close>)
  from holds_bnd [OF this later] have "holds (inv e N) (afterInfo env e c infoAll n) (\<lambda>_ w. db_reported (chan w) ?db \<and> inv e N w)"
    unfolding run .
  from holds_Fine [OF this assms(4,8)] show ?thesis ..
qed

theorem scrape_reports_databases_witness:
  "\<exists>err w'. afterInfo steady_env demo_exporter 0 demo_info 0 (start_world demo_exporter []) = Fine (err, w')
     \<and> db_reported (chan w') (''db'' @ itoa (int 3))"
proof -
  have "\<exists>err w'. afterInfo steady_env demo_exporter 0 demo_info 0 (start_world demo_exporter []) = Fine (err, w') \<and> True"
    using finishes_Fine [OF finishes_afterInfo [OF demo_search_free]
        holds_post [OF keeps_afterInfo [OF steady_server_ok demo_options_ok demo_info_ok]] inv_start]
    by blast
  then obtain err w' where run: "afterInfo steady_env demo_exporter 0 demo_info 0 (start_world demo_exporter []) = Fine (err, w')"
    by blast
  have "\<not> go_contains demo_info ''cluster_enabled:1''" by code_simp
  moreover have "InclMetricsForEmptyDatabases (options demo_exporter)"
    by (simp add: demo_exporter_def demo_options_def)
  ultimately have "db_reported (chan w') (''db'' @ itoa (int 3))"
    using scrape_reports_databases [OF steady_server_ok demo_options_ok demo_info_ok inv_start _ _ _ run, of 3] by simp
  with run show ?thesis by blast
qed

end
