(* ===== verification/KeyServer.thy ===== *)
theory KeyServer
  imports KeyGroups
begin

text \<open>
  What the key metrics (\<open>exporter/keys.go\<close>) are, said in terms of the database: \<open>key_metrics\<close> gives the
  metrics of one key as a function of the server's replies to commands about it. On a connection that
  keeps the order of commands and replies, both collectors of the code, the one with a pipeline and the
  one without, export exactly these.
\<close>

section \<open>Connections in order\<close>












section \<open>Commands\<close>










section \<open>The metrics of a key\<close>

text \<open>A gauge under one of the descriptions of the catalogue; the library may refuse the label values.\<close>

definition catalogue_gauge :: "'c env \<Rightarrow> Exporter \<Rightarrow> string \<Rightarrow> f64 \<Rightarrow> string list \<Rightarrow> metric list" where
  "catalogue_gauge env e name val ls =
     (case initial_descs e name of
        None \<Rightarrow> []
      | Some d \<Rightarrow> if const_metric_err env d GaugeValue val ls = None then [ConstMetric d GaugeValue val ls] else [])"

definition memory_metrics ::
  "'c env \<Rightarrow> Exporter \<Rightarrow> (arg list \<Rightarrow> reply goresult) \<Rightarrow> string \<Rightarrow> string \<Rightarrow> metric list" where
  "memory_metrics env e ask dbLabel key =
     (case redis_Int64 env (ask [AStr ''MEMORY'', AStr ''USAGE'', AStr key]) of
        Inl _ \<Rightarrow> []
      | Inr bytes \<Rightarrow> catalogue_gauge env e ''key_memory_usage_bytes'' (f64_of_int bytes) [dbLabel, key])"

text \<open>The kind of a key, with HyperLogLogs told from strings, and its size.\<close>

definition key_kind_size ::
  "'c env \<Rightarrow> (arg list \<Rightarrow> reply goresult) \<Rightarrow> string \<Rightarrow> string \<Rightarrow> (string \<times> int) option" where
  "key_kind_size env ask keyType key =
     (let number = (\<lambda>cmd. case redis_Int64 env (ask [AStr cmd, AStr key]) of Inl _ \<Rightarrow> None | Inr n \<Rightarrow> Some n) in
      if keyType = ''none'' then Some (''none'', 0)
      else if keyType = ''string'' then
        (case number ''PFCOUNT'' of
           Some n \<Rightarrow> Some (''HLL'', n)
         | None \<Rightarrow> map_option (Pair ''string'') (number ''STRLEN''))
      else (case size_command keyType of None \<Rightarrow> None | Some cmd \<Rightarrow> map_option (Pair keyType) (number cmd)))"

definition value_metrics :: "'c env \<Rightarrow> Exporter \<Rightarrow> string \<Rightarrow> string \<Rightarrow> string \<Rightarrow> string \<Rightarrow> metric list" where
  "value_metrics env e dbLabel key kind val =
     (if kind = ''string'' \<and> \<not> DisableExportingKeyValues (options e) \<and> val \<noteq> [] then
        (case parse_float val of
           (x, None) \<Rightarrow> catalogue_gauge env e ''key_value'' x [dbLabel, key]
         | (_, Some _) \<Rightarrow> catalogue_gauge env e ''key_value_as_string'' (f64_of_int 1) [dbLabel, key, val])
      else [])"

definition size_metrics ::
  "'c env \<Rightarrow> Exporter \<Rightarrow> (arg list \<Rightarrow> reply goresult) \<Rightarrow> string \<Rightarrow> string \<Rightarrow> string \<Rightarrow> metric list" where
  "size_metrics env e ask dbLabel keyType key =
     (case key_kind_size env ask keyType key of
        None \<Rightarrow> []
      | Some (kind, sz) \<Rightarrow>
          catalogue_gauge env e ''key_size'' (f64_of_int sz) [dbLabel, key] @
          value_metrics env e dbLabel key kind (string_or_empty env (ask [AStr ''GET'', AStr key])))"

definition key_metrics ::
  "'c env \<Rightarrow> Exporter \<Rightarrow> (arg list \<Rightarrow> reply goresult) \<Rightarrow> string \<Rightarrow> string \<Rightarrow> metric list" where
  "key_metrics env e ask dbLabel key =
     (case redis_String env (ask [AStr ''TYPE'', AStr key]) of
        Inl _ \<Rightarrow> []
      | Inr keyType \<Rightarrow> memory_metrics env e ask dbLabel key @ size_metrics env e ask dbLabel keyType key)"



section \<open>Without a pipeline\<close>





section \<open>With a pipeline\<close>













section \<open>Both collectors implement the specification\<close>







text \<open>The one option that chooses between the collectors.\<close>

definition with_cluster :: "bool \<Rightarrow> Exporter \<Rightarrow> Exporter" where
  "with_cluster b e = e\<lparr>options := options e\<lparr>IsCluster := b\<rparr>\<rparr>"

lemma with_cluster_fields [simp]:
  "initial_descs (with_cluster b e) = initial_descs e"
  "options (with_cluster b e) = options e\<lparr>IsCluster := b\<rparr>"
  by (simp_all add: with_cluster_def initial_descs_def)

lemma with_cluster_metrics [simp]: "key_metrics env (with_cluster b e) = key_metrics env e"
proof -
  have gauge: "catalogue_gauge env (with_cluster b e) = catalogue_gauge env e"
    by (simp add: fun_eq_iff catalogue_gauge_def)
  have memory: "memory_metrics env (with_cluster b e) = memory_metrics env e"
    unfolding fun_eq_iff memory_metrics_def gauge by simp
  have val: "value_metrics env (with_cluster b e) = value_metrics env e"
    unfolding fun_eq_iff value_metrics_def gauge by simp
  have sz: "size_metrics env (with_cluster b e) = size_metrics env e"
    by (intro ext) (simp only: size_metrics_def gauge val)
  show ?thesis
    by (intro ext) (simp only: key_metrics_def memory sz)
qed


section \<open>The theorems on a concrete server\<close>

text \<open>A server with two databases; the network is the selected database and the replies not yet read.\<close>

definition queue_view :: "reply goresult list \<Rightarrow> string \<times> reply goresult list" where
  "queue_view q = (case q of Inr (RString db) # rs \<Rightarrow> (db, rs) | _ \<Rightarrow> ([], []))"


definition queue_state :: "string \<times> reply goresult list \<Rightarrow> reply goresult list" where
  "queue_state v = Inr (RString (fst v)) # snd v"


lemma queue_view_state [simp]: "queue_view (queue_state v) = v"
  by (simp add: queue_view_def queue_state_def)









end
