(* ===== verification/Spec2Isabelle.thy ===== *)
theory Spec2Isabelle
  imports Startup Settings KeyServer
begin

text \<open>
  A verification library for \<open>redis_exporter\<close>, the Prometheus exporter for Redis. The program (about
  4400 lines of Go in \<open>src/main.go\<close> and \<open>src/exporter\<close>) is a web server: a request for metrics
  makes it connect to Redis, send a fixed sequence of commands, turn the replies into metrics and
  hand these to the Prometheus library.

  \<^bold>\<open>How the program is modelled.\<close> A Go function with effects is a program \<open>'s \<Rightarrow> ('a \<times> 's) outcome\<close>
  (theory Prelude): it takes a state and ends with a value and a new state (\<open>Fine\<close>), with a panic or
  the end of the process (\<open>Panic\<close>), or not at all (\<open>Hang\<close>, only from the SCAN loops). A result
  with an error is a sum, \<open>Inl\<close> the error. The state of a scrape is the record \<open>world\<close> (theory
  Metrics): the network, the descriptions made so far (\<open>metricDescriptions\<close>), the metrics sent on
  the channel, and the exporter's three metrics about itself. Code that is not in the repository is
  the record \<open>env\<close>, an argument of every definition that uses it: the connections of redigo and its
  reply helpers, the checks of the Prometheus library (of a metric, and of a registration, which sees what the
  registry holds), the descriptions of its process and Go collectors (\<open>outside_descs\<close>), the regular expression
  of an option, bcrypt, the texts of library errors, file contents, the clock, and the order in which Go visits
  a map (\<open>range_order\<close>, which may differ at every traversal). Go's strings are
  lists of bytes; 64-bit integers are written with their wrap-around (\<open>wrap64\<close>); 64-bit
  floats are rounded rationals (theory GoFloat).

  \<^bold>\<open>Theories and the code they model.\<close>
  \<^item> Prelude: outcomes, programs, Hoare triples (\<open>holds\<close>, \<open>keeps\<close>, \<open>returns\<close>, \<open>finishes\<close>) with the rule
    collections \<open>hoare_rules\<close> and \<open>finish_rules\<close>, lists, maps.
  \<^item> GoStrings, GoFloat, GoTime, GoJson, GoUrl, GoHttp, GoMux, GoFlag: what the code uses of \<open>strings\<close>,
    \<open>strconv\<close>, \<open>unicode/utf8\<close>, \<open>time.ParseDuration\<close>, \<open>encoding/json\<close> (objects of strings), \<open>net/url\<close>,
    \<open>encoding/base64\<close>, the readers of \<open>net/http\<close>, its multiplexer (patterns, their conflicts, the choice of
    the pattern for a request) and the \<open>flag\<close> library.
  \<^item> Catalogue: the tables of \<open>NewRedisExporter\<close> (\<open>exporter.go\<close>): INFO fields and descriptions.
  \<^item> Metrics: replies, options, the exporter, and registration (\<open>metrics.go\<close>, \<open>doRedisCmd\<close>).
  \<^item> Demo, Ranges: a concrete server for the witnesses; facts on traversals of maps.
  \<^item> Keys (\<open>keys.go\<close>) and KeyGroups (\<open>key_groups.go\<close>): key arguments, SCAN, the value and the memory of
    keys with and without a pipeline, groups of keys.
  \<^item> KeyServer: the specification \<open>key_metrics\<close> of what the checked keys export, as a function of the
    server's replies; the collector with pipelines and the one for a cluster both refine it.
  \<^item> Info (\<open>info.go\<close>), Sentinels (\<open>sentinels.go\<close>), Clients (\<open>clients.go\<close>), Latency (\<open>latency.go\<close>),
    Streams (\<open>streams.go\<close>), Extractors (\<open>slowlog.go\<close>, \<open>lua.go\<close>, \<open>modules.go\<close>, \<open>tile38.go\<close>,
    \<open>search_indexes.go\<close>, \<open>nodes.go\<close>): one collector each.
  \<^item> Connect (\<open>redis.go\<close>, \<open>tls.go\<close>): the dial options and the key of the password map, dialling, TLS
    configurations. A password in the address itself is added to the options by redigo, behind those made
    here, so it comes first as the documentation says; that step lies in the parameter \<open>dial_url\<close>.
  \<^item> Scrape (\<open>exporter.go\<close>): \<open>extractConfigMetrics\<close>, \<open>scrapeRedisHost\<close> and \<open>Collect\<close>, with all stages
    in their order. The long Go function \<open>scrapeRedisHost\<close> is cut into stages (\<open>pingServer\<close>,
    \<open>fetchInfo\<close>, \<open>afterInfo\<close>, \<open>keyMetrics\<close> and so on) where its own comments and conditions cut it.
  \<^item> Constructor (\<open>exporter.go\<close>): \<open>NewRedisExporter\<close> and \<open>Describe\<close>. A registry is the list of the
    descriptions it holds; \<open>main\<close> gives one with those of the process and Go collectors, \<open>/scrape\<close> an empty one.
    \<open>described\<close> is the set of the full names that an exporter registers.
  \<^item> Http (\<open>http.go\<close>, \<open>pwd_file.go\<close>): handlers, basic authentication, and the server as a transition
    system (\<open>step\<close>, \<open>runs\<close>) whose events are requests and anything outside that changes the network
    and the clock.
  \<^item> Startup (\<open>main.go\<close>): command line, flags, logging settings, checks, files, the start of the server and the end
    of the process (\<open>wait_for_end\<close>: which events outside end it, and with which code).
  \<^item> Settings: facts on the CONFIG and INFO replies as a scrape sees them.

  \<^bold>\<open>Interfaces.\<close> \<open>description_store\<close> (Metrics) is the contract of the descriptions: looking up after
  making; it is interpreted on \<open>createMetricDescription\<close>. \<open>cursor_server\<close> (Keys) is the contract of a
  cursor loop with its server; \<open>scanKeys\<close> and \<open>gatherKeyGroupMetrics\<close> interpret it. \<open>collector\<close> (Scrape) is
  what a scrape relies on in every collector, under the collector's own condition; ten collectors
  interpret it.

  \<^bold>\<open>What the lemmas show.\<close> The invariant \<open>inv\<close> of a scrape says that every metric sent agrees with its
  description, that the descriptions of the constructor are there, and, relative to a context \<open>N\<close>, that
  descriptions and metrics only grow and the counters are untouched; each collector keeps it (the lemmas \<open>keeps_\<dots>\<close>), so does \<open>Collect\<close>, and \<open>holds\<close>
  excludes a panic on the way. The lemmas \<open>finishes_\<dots>\<close> show that a collector ends. From the requests
  (Http) these facts are carried to all runs of the server, and from \<open>run_main\<close> (Startup) to all runs
  of the process. Beside safety there are: what is reported (\<open>up\<close> and the error of a scrape, databases, key groups, counts; the
  databases INFO does not mention only with the option \<open>InclMetricsForEmptyDatabases\<close>), who is admitted
  (\<open>admitted\<close> is written on the options and does not use the code's checks) and which password is sent where, from
  the command line, the password file and \<open>/-/reload\<close> to the dial options, the read-back of every text format the code parses, the
  independence of the order of map traversals and of secret settings, and the inputs that end the process.

  \<^bold>\<open>Hypotheses.\<close> \<open>server_ok\<close>: the Prometheus library accepts a metric whose labels fit its description
  and are ASCII (\<open>prom_accepts_ascii\<close>, which takes the description itself for valid, as those of the exporter are
  under a valid namespace), and only one whose labels fit (\<open>prom_checks_labels\<close>); a traversal of a map visits its keys; INFO lines are well formed (\<open>info_ok\<close>: the
  values of Latencystats have names; no replication field but those of Redis starts like a direct one),
  CONFIG, the slow log, modules, histograms, streams and scripts reply in the shape Redis documents.
  \<open>options_ok\<close>: the address can be parsed when cluster mode is on, the maximum of key groups is not
  negative, the pattern for search indexes compiles. \<open>prom_registers\<close>: registration of
  valid descriptions (valid full names, valid labels that do not begin with two underscores, one description
  for each name) succeeds in a registry that has none of their names; \<open>prom_refuses\<close>, used for
  \<open>constructor_result\<close> only: it fails in one that has. \<open>in_order\<close> (KeyServer): a
  connection answers the commands of a pipeline in the order they were sent, as redigo documents. The theorems of kind error
  show that the conditions of \<open>info_ok\<close>, \<open>options_ok\<close> and of CONFIG are needed: without them the code panics.
  Each witness instantiates these hypotheses on a concrete environment (\<open>demo_env\<close>, \<open>steady_env\<close>,
  \<open>down_env\<close>).

  \<^bold>\<open>Termination and bounds.\<close> The loops over data are structural or have a measure. The SCAN loop ends
  only when the server's cursor comes back to 0, so \<open>cursor_loop\<close> is a \<^theory_text>\<open>partial_function\<close> whose value
  \<open>None\<close> is a loop that never ends; \<open>scanKeys_returns\<close> shows that it returns when the server completes the
  scan. No fuel is used. A scrape ends without a condition on the server when there is nothing to search for
  (\<open>search_free\<close>) and when no connection can be made.

  \<^bold>\<open>Not modelled.\<close> The version banner and the usage message, log lines (only the settings of the log);
  how the registry of the Prometheus library gathers and its text format; what the multiplexer writes when it answers itself; TLS and
  certificates, of which only the configurations are made; the mutex of the exporter (a scrape and a
  reload are steps that do not overlap); the recovery of a panic inside the HTTP library (a panic is an
  outcome of the handler). \<open>strconv.Quote\<close> in messages escapes no characters.
\<close>

end
